(* ===== verification/Prelude.thy ===== *)
theory Prelude
  imports Main "HOL-Library.Word"
begin

text \<open>
  The vocabulary every component shares.

  \<^item> Identifiers and instants: a UUID is an opaque natural number, a timestamp the number of
    microseconds since the epoch, a calendar day its day number.
  \<^item> The signed 64-bit and 32-bit integers of the program: a value is an \<open>int\<close>; \<open>wrap64\<close> is the
    wrap-around of an unchecked operator, \<open>checked_add64\<close> and \<open>checked_mul64\<close> the fallible ones.
  \<^item> Transactions: a computation takes the state and returns an error or a result with the new
    state. An error carries no state, which is the rollback of the caller's transaction.
  \<^item> Tables: a table is a list of rows; \<open>fetch_by\<close>, \<open>update_where\<close> and \<open>delete_where\<close> are the
    SELECT, UPDATE and DELETE statements the repositories issue.
  \<^item> The Hoare-style predicates \<open>keeps\<close> and \<open>leaves\<close> with their composition rules, collected in
    \<open>keeps_intros\<close> and \<open>leaves_intros\<close>.
\<close>

named_theorems keeps_intros \<open>composition rules of the invariant predicate\<close>
named_theorems leaves_intros \<open>composition rules of the frame predicate\<close>
named_theorems tx_simps \<open>unfolding rules of the transaction combinators\<close>

section \<open>Identifiers, instants, integers\<close>

type_synonym uuid = nat
type_synonym instant = int
type_synonym date = int

abbreviation micros_per_second :: int where "micros_per_second \<equiv> 1000000"
abbreviation micros_per_hour :: int where "micros_per_hour \<equiv> 3600000000"
abbreviation micros_per_day :: int where "micros_per_day \<equiv> 86400000000"

definition in_i64 :: "int \<Rightarrow> bool" where
  "in_i64 x = (- (2 ^ 63) \<le> x \<and> x < 2 ^ 63)"

definition in_i32 :: "int \<Rightarrow> bool" where
  "in_i32 x = (- (2 ^ 31) \<le> x \<and> x < 2 ^ 31)"

definition wrap64 :: "int \<Rightarrow> int" where
  "wrap64 x = (x + 2 ^ 63) mod 2 ^ 64 - 2 ^ 63"

definition checked64 :: "int \<Rightarrow> int option" where
  "checked64 x = (if in_i64 x then Some x else None)"

definition checked_add64 :: "int \<Rightarrow> int \<Rightarrow> int option" where
  "checked_add64 a b = checked64 (a + b)"

definition checked_mul64 :: "int \<Rightarrow> int \<Rightarrow> int option" where
  "checked_mul64 a b = checked64 (a * b)"

definition quot_trunc :: "int \<Rightarrow> int \<Rightarrow> int" where
  "quot_trunc a b = (if a < 0 then - ((- a) div b) else a div b)"

lemma wrap64_id [simp]: "in_i64 x \<Longrightarrow> wrap64 x = x"
  by (simp add: wrap64_def in_i64_def)

lemma wrap64_range: "in_i64 (wrap64 x)"
proof -
  have "0 \<le> (x + 2 ^ 63) mod 2 ^ 64" "(x + 2 ^ 63) mod 2 ^ 64 < 2 ^ 64"
    by simp_all
  then show ?thesis unfolding wrap64_def in_i64_def by simp
qed

lemma checked64_SomeD: "checked64 x = Some y \<Longrightarrow> y = x \<and> in_i64 x"
  by (simp add: checked64_def split: if_splits)

lemma checked64_eq_Some [simp]: "checked64 x = Some y \<longleftrightarrow> y = x \<and> in_i64 x"
  by (auto simp: checked64_def)

lemma checked64_eq_None [simp]: "checked64 x = None \<longleftrightarrow> \<not> in_i64 x"
  by (simp add: checked64_def)

lemma quot_trunc_nonneg [simp]: "0 \<le> a \<Longrightarrow> quot_trunc a b = a div b"
  by (simp add: quot_trunc_def)

section \<open>Decimal formatting\<close>

fun show_nat :: "nat \<Rightarrow> string" where
  "show_nat n = (if n < 10 then [char_of (48 + n)] else show_nat (n div 10) @ [char_of (48 + n mod 10)])"

declare show_nat.simps [simp del]

definition show_int :: "int \<Rightarrow> string" where
  "show_int i = (if i < 0 then CHR ''-'' # show_nat (nat (- i)) else show_nat (nat i))"

definition utf8 :: "int list \<Rightarrow> string" where
  "utf8 bytes = map char_of bytes"

section \<open>Transactions\<close>

type_synonym ('s, 'e, 'a) tx = "'s \<Rightarrow> 'e + ('a \<times> 's)"

definition return_tx :: "'a \<Rightarrow> ('s, 'e, 'a) tx" where
  "return_tx x = (\<lambda>s. Inr (x, s))"

definition fail_tx :: "'e \<Rightarrow> ('s, 'e, 'a) tx" where
  "fail_tx e = (\<lambda>s. Inl e)"

definition bind_tx :: "('s, 'e, 'a) tx \<Rightarrow> ('a \<Rightarrow> ('s, 'e, 'b) tx) \<Rightarrow> ('s, 'e, 'b) tx" where
  "bind_tx m f = (\<lambda>s. case m s of Inl e \<Rightarrow> Inl e | Inr (x, s') \<Rightarrow> f x s')"

definition get_tx :: "('s \<Rightarrow> 'a) \<Rightarrow> ('s, 'e, 'a) tx" where
  "get_tx g = (\<lambda>s. Inr (g s, s))"

definition put_tx :: "('s \<Rightarrow> 's) \<Rightarrow> ('s, 'e, unit) tx" where
  "put_tx g = (\<lambda>s. Inr ((), g s))"

definition ensure_tx :: "bool \<Rightarrow> 'e \<Rightarrow> ('s, 'e, unit) tx" where
  "ensure_tx b e = (if b then return_tx () else fail_tx e)"

definition of_option_tx :: "'e \<Rightarrow> 'a option \<Rightarrow> ('s, 'e, 'a) tx" where
  "of_option_tx e x = (case x of None \<Rightarrow> fail_tx e | Some y \<Rightarrow> return_tx y)"

definition of_result_tx :: "'e + 'a \<Rightarrow> ('s, 'e, 'a) tx" where
  "of_result_tx x = (case x of Inl e \<Rightarrow> fail_tx e | Inr y \<Rightarrow> return_tx y)"

definition map_err_tx :: "('e \<Rightarrow> 'f) \<Rightarrow> ('s, 'e, 'a) tx \<Rightarrow> ('s, 'f, 'a) tx" where
  "map_err_tx h m = (\<lambda>s. case m s of Inl e \<Rightarrow> Inl (h e) | Inr r \<Rightarrow> Inr r)"

primrec for_tx :: "('a \<Rightarrow> ('s, 'e, 'b) tx) \<Rightarrow> 'a list \<Rightarrow> ('s, 'e, 'b list) tx" where
  "for_tx f [] = return_tx []"
| "for_tx f (x # xs) = bind_tx (f x) (\<lambda>y. bind_tx (for_tx f xs) (\<lambda>ys. return_tx (y # ys)))"

lemma return_tx_run [simp]: "return_tx x s = Inr (x, s)"
  by (simp add: return_tx_def)

lemma fail_tx_run [simp]: "fail_tx e s = Inl e"
  by (simp add: fail_tx_def)

lemma get_tx_run [simp]: "get_tx g s = Inr (g s, s)"
  by (simp add: get_tx_def)

lemma put_tx_run [simp]: "put_tx g s = Inr ((), g s)"
  by (simp add: put_tx_def)

lemma ensure_tx_Inr [simp]: "ensure_tx b e s = Inr r \<longleftrightarrow> b \<and> r = ((), s)"
  by (auto simp: ensure_tx_def)

lemma ensure_tx_Inl [simp]: "ensure_tx b e s = Inl e' \<longleftrightarrow> \<not> b \<and> e' = e"
  by (auto simp: ensure_tx_def)

lemma ensure_tx_True [simp]: "b \<Longrightarrow> ensure_tx b e s = Inr ((), s)"
  by simp

lemma of_option_tx_Inr [simp]: "of_option_tx e x s = Inr (y, s') \<longleftrightarrow> x = Some y \<and> s' = s"
  by (cases x) (auto simp: of_option_tx_def)

lemma of_option_tx_Inl [simp]: "of_option_tx e x s = Inl e' \<longleftrightarrow> x = None \<and> e' = e"
  by (cases x) (auto simp: of_option_tx_def)

lemma of_option_tx_Some [simp]: "of_option_tx e (Some y) s = Inr (y, s)"
  by simp

lemma of_option_tx_None [simp]: "of_option_tx e None s = Inl e"
  by simp

lemma of_result_tx_Inr [simp]: "of_result_tx x s = Inr (y, s') \<longleftrightarrow> x = Inr y \<and> s' = s"
  by (cases x) (auto simp: of_result_tx_def)

lemma of_result_tx_Inl [simp]: "of_result_tx x s = Inl e \<longleftrightarrow> x = Inl e"
  by (cases x) (auto simp: of_result_tx_def)

lemma of_result_tx_ok [simp]: "of_result_tx (Inr y) s = Inr (y, s)"
  by simp

lemma of_result_tx_err [simp]: "of_result_tx (Inl e) s = Inl e"
  by simp

lemma bind_tx_Inr:
  "bind_tx m f s = Inr (y, s') \<longleftrightarrow> (\<exists>x t. m s = Inr (x, t) \<and> f x t = Inr (y, s'))"
  by (auto simp: bind_tx_def split: sum.splits)

lemma bind_tx_Inl:
  "bind_tx m f s = Inl e \<longleftrightarrow> m s = Inl e \<or> (\<exists>x t. m s = Inr (x, t) \<and> f x t = Inl e)"
  by (auto simp: bind_tx_def split: sum.splits)

lemma bind_tx_ok [simp]: "m s = Inr (x, t) \<Longrightarrow> bind_tx m f s = f x t"
  by (simp add: bind_tx_def)

lemma bind_tx_err [simp]: "m s = Inl e \<Longrightarrow> bind_tx m f s = Inl e"
  by (simp add: bind_tx_def)

lemma map_err_tx_Inr [simp]: "map_err_tx h m s = Inr r \<longleftrightarrow> m s = Inr r"
  by (auto simp: map_err_tx_def split: sum.splits)

lemma map_err_tx_Inl: "map_err_tx h m s = Inl e \<longleftrightarrow> (\<exists>e'. m s = Inl e' \<and> e = h e')"
  by (auto simp: map_err_tx_def split: sum.splits)

lemma map_err_tx_ok [simp]: "m s = Inr r \<Longrightarrow> map_err_tx h m s = Inr r"
  by (simp add: map_err_tx_def)

lemma map_err_tx_err [simp]: "m s = Inl e \<Longrightarrow> map_err_tx h m s = Inl (h e)"
  by (simp add: map_err_tx_def)

lemmas tx_run = bind_tx_def map_err_tx_def get_tx_def put_tx_def return_tx_def fail_tx_def
  ensure_tx_def of_option_tx_def of_result_tx_def

lemma bind_txE:
  assumes "bind_tx m f s = Inr (y, s')"
  obtains x t where "m s = Inr (x, t)" "f x t = Inr (y, s')"
  using assms by (auto simp: bind_tx_Inr)

definition succeeds :: "'e + 'a \<Rightarrow> bool" where
  "succeeds r = (case r of Inl _ \<Rightarrow> False | Inr _ \<Rightarrow> True)"

lemma succeedsE:
  assumes "succeeds (m s)"
  obtains x s' where "m s = Inr (x, s')"
  using assms by (cases "m s") (auto simp: succeeds_def)

section \<open>Invariants and frames of transactions\<close>

definition keeps :: "('s \<Rightarrow> bool) \<Rightarrow> ('s, 'e, 'a) tx \<Rightarrow> bool" where
  "keeps P m \<longleftrightarrow> (\<forall>s x s'. P s \<longrightarrow> m s = Inr (x, s') \<longrightarrow> P s')"

definition leaves :: "('s \<Rightarrow> 'b) \<Rightarrow> ('s, 'e, 'a) tx \<Rightarrow> bool" where
  "leaves g m \<longleftrightarrow> (\<forall>s x s'. m s = Inr (x, s') \<longrightarrow> g s' = g s)"

lemma keepsI: "(\<And>s x s'. P s \<Longrightarrow> m s = Inr (x, s') \<Longrightarrow> P s') \<Longrightarrow> keeps P m"
  by (auto simp: keeps_def)

lemma keepsD: "keeps P m \<Longrightarrow> P s \<Longrightarrow> m s = Inr (x, s') \<Longrightarrow> P s'"
  by (auto simp: keeps_def)

lemma leavesI: "(\<And>s x s'. m s = Inr (x, s') \<Longrightarrow> g s' = g s) \<Longrightarrow> leaves g m"
  by (auto simp: leaves_def)

lemma leavesD: "leaves g m \<Longrightarrow> m s = Inr (x, s') \<Longrightarrow> g s' = g s"
  by (auto simp: leaves_def)

lemma keeps_basic [keeps_intros, intro]:
  "keeps P (return_tx x)" "keeps P (fail_tx e)" "keeps P (get_tx g)"
  "keeps P (ensure_tx b e)" "keeps P (of_option_tx e y)" "keeps P (of_result_tx r)"
  by (auto simp: keeps_def)

lemma leaves_basic [leaves_intros, intro]:
  "leaves h (return_tx x)" "leaves h (fail_tx e)" "leaves h (get_tx g)"
  "leaves h (ensure_tx b e)" "leaves h (of_option_tx e y)" "leaves h (of_result_tx r)"
  by (auto simp: leaves_def)

lemma keeps_bind [keeps_intros]:
  "keeps P m \<Longrightarrow> (\<And>x. keeps P (f x)) \<Longrightarrow> keeps P (bind_tx m f)"
  unfolding keeps_def bind_tx_Inr by blast

lemma leaves_bind [leaves_intros]:
  "leaves g m \<Longrightarrow> (\<And>x. leaves g (f x)) \<Longrightarrow> leaves g (bind_tx m f)"
  unfolding leaves_def bind_tx_Inr by fastforce

lemma keeps_map_err [keeps_intros]: "keeps P m \<Longrightarrow> keeps P (map_err_tx h m)"
  by (auto simp: keeps_def)

lemma leaves_map_err [leaves_intros]: "leaves g m \<Longrightarrow> leaves g (map_err_tx h m)"
  by (auto simp: leaves_def)

lemma keeps_put [keeps_intros]: "(\<And>s. P s \<Longrightarrow> P (g s)) \<Longrightarrow> keeps P (put_tx g)"
  by (auto simp: keeps_def)

lemma leaves_put [leaves_intros]: "(\<And>s. h (g s) = h s) \<Longrightarrow> leaves h (put_tx g)"
  by (auto simp: leaves_def)

lemma keeps_for [keeps_intros]: "(\<And>x. keeps P (f x)) \<Longrightarrow> keeps P (for_tx f xs)"
  by (induction xs) (auto intro!: keeps_intros)

lemma leaves_for [leaves_intros]: "(\<And>x. leaves g (f x)) \<Longrightarrow> leaves g (for_tx f xs)"
  by (induction xs) (auto intro!: leaves_intros)

lemma keeps_if [keeps_intros]: "keeps P m \<Longrightarrow> keeps P n \<Longrightarrow> keeps P (if b then m else n)"
  by simp

lemma leaves_if [leaves_intros]: "leaves g m \<Longrightarrow> leaves g n \<Longrightarrow> leaves g (if b then m else n)"
  by simp

lemma keeps_option [keeps_intros]:
  "keeps P m \<Longrightarrow> (\<And>x. keeps P (f x)) \<Longrightarrow> keeps P (case y of None \<Rightarrow> m | Some x \<Rightarrow> f x)"
  by (cases y) auto

lemma leaves_option [leaves_intros]:
  "leaves g m \<Longrightarrow> (\<And>x. leaves g (f x)) \<Longrightarrow> leaves g (case y of None \<Rightarrow> m | Some x \<Rightarrow> f x)"
  by (cases y) auto

lemma keeps_if_leaves: "leaves g m \<Longrightarrow> keeps (\<lambda>s. Q (g s)) m"
  by (auto simp: keeps_def leaves_def)

section \<open>Tables\<close>

definition fetch_by :: "('r \<Rightarrow> bool) \<Rightarrow> 'r list \<Rightarrow> 'r option" where
  "fetch_by P t = List.find P t"

definition update_where :: "('r \<Rightarrow> bool) \<Rightarrow> ('r \<Rightarrow> 'r) \<Rightarrow> 'r list \<Rightarrow> 'r list" where
  "update_where P f t = map (\<lambda>r. if P r then f r else r) t"

definition delete_where :: "('r \<Rightarrow> bool) \<Rightarrow> 'r list \<Rightarrow> 'r list" where
  "delete_where P t = filter (\<lambda>r. \<not> P r) t"

definition count_where :: "('r \<Rightarrow> bool) \<Rightarrow> 'r list \<Rightarrow> nat" where
  "count_where P t = length (filter P t)"

definition sum_where :: "('r \<Rightarrow> bool) \<Rightarrow> ('r \<Rightarrow> int) \<Rightarrow> 'r list \<Rightarrow> int" where
  "sum_where P f t = sum_list (map f (filter P t))"

lemma fetch_by_Some: "fetch_by P t = Some r \<Longrightarrow> r \<in> set t \<and> P r"
  unfolding fetch_by_def by (auto simp: find_Some_iff in_set_conv_nth)

lemma fetch_by_None: "fetch_by P t = None \<longleftrightarrow> (\<forall>r \<in> set t. \<not> P r)"
  unfolding fetch_by_def by (auto simp: find_None_iff)

lemma fetch_by_Nil [simp]: "fetch_by P [] = None"
  by (simp add: fetch_by_def)

lemma fetch_by_Cons [simp]: "fetch_by P (r # t) = (if P r then Some r else fetch_by P t)"
  by (simp add: fetch_by_def)

lemma fetch_by_append [simp]:
  "fetch_by P (t @ u) = (case fetch_by P t of None \<Rightarrow> fetch_by P u | Some r \<Rightarrow> Some r)"
  by (induction t) auto

lemma update_where_Nil [simp]: "update_where P f [] = []"
  by (simp add: update_where_def)

lemma update_where_Cons [simp]:
  "update_where P f (r # t) = (if P r then f r else r) # update_where P f t"
  by (simp add: update_where_def)

lemma update_where_append [simp]:
  "update_where P f (t @ u) = update_where P f t @ update_where P f u"
  by (simp add: update_where_def)

lemma length_update_where [simp]: "length (update_where P f t) = length t"
  by (simp add: update_where_def)

lemma map_update_where:
  "(\<And>r. P r \<Longrightarrow> k (f r) = k r) \<Longrightarrow> map k (update_where P f t) = map k t"
  by (induction t) auto

lemma update_where_none: "(\<And>r. r \<in> set t \<Longrightarrow> \<not> P r) \<Longrightarrow> update_where P f t = t"
  by (induction t) auto

lemma set_update_where:
  "set (update_where P f t) = f ` {r \<in> set t. P r} \<union> {r \<in> set t. \<not> P r}"
  by (induction t) auto

lemma fetch_by_update_where:
  "(\<And>r. Q (if P r then f r else r) = Q r) \<Longrightarrow>
    fetch_by Q (update_where P f t) = map_option (\<lambda>r. if P r then f r else r) (fetch_by Q t)"
  by (induction t) auto

lemma count_where_simps [simp]:
  "count_where P [] = 0"
  "count_where P (r # t) = (if P r then Suc (count_where P t) else count_where P t)"
  "count_where P (t @ u) = count_where P t + count_where P u"
  by (simp_all add: count_where_def)

lemma sum_where_simps [simp]:
  "sum_where P f [] = 0"
  "sum_where P f (r # t) = (if P r then f r + sum_where P f t else sum_where P f t)"
  "sum_where P f (t @ u) = sum_where P f t + sum_where P f u"
  by (simp_all add: sum_where_def)

lemma count_where_update_same:
  "(\<And>r. P r \<Longrightarrow> Q (f r) = Q r) \<Longrightarrow> count_where Q (update_where P f t) = count_where Q t"
  by (induction t) auto

lemma delete_where_simps [simp]:
  "delete_where P [] = []"
  "delete_where P (r # t) = (if P r then delete_where P t else r # delete_where P t)"
  "set (delete_where P t) = {r \<in> set t. \<not> P r}"
  by (auto simp: delete_where_def)

lemma distinct_key_fetch:
  assumes "distinct (map k t)" "r \<in> set t"
  shows "fetch_by (\<lambda>x. k x = k r) t = Some r"
  using assms by (induction t) (auto simp: image_iff)

lemma in_set_key_fetch:
  "i \<in> set (map k t) \<Longrightarrow> \<exists>r. fetch_by (\<lambda>x. k x = i) t = Some r \<and> k r = i"
  by (induction t) auto

section \<open>Optional columns\<close>

text \<open>SQL's \<open>COALESCE\<close>.\<close>

definition coalesce :: "'a option \<Rightarrow> 'a option \<Rightarrow> 'a option" where
  "coalesce a b = (case a of None \<Rightarrow> b | Some _ \<Rightarrow> a)"

text \<open>\<open>set_to\<close> is a pushed SET clause: nothing to push leaves the column.\<close>

definition set_to :: "'a option \<Rightarrow> 'a \<Rightarrow> 'a" where
  "set_to new old = (case new of None \<Rightarrow> old | Some v \<Rightarrow> v)"

end
