(* ===== verification/Enums.thy ===== *)
theory Enums
  imports Prelude
begin

text \<open>
  The closed value domains of the program (its wire enums). Every enum of the code declares its
  variants once, lists them in \<open>ALL\<close> and spells them in \<open>as_str\<close>; \<open>FromStr\<close>, where an enum has
  it, searches \<open>ALL\<close> for the variant with that spelling. The locale \<open>wire_enum\<close> is that contract:
  \<open>ALL\<close> is complete and free of duplicates and the spellings are distinct. It is interpreted on
  every enum, so parsing and printing are inverse for each of them.
\<close>

named_theorems wire_simps \<open>completeness and spelling facts of the enums\<close>

definition find_variant :: "'a list \<Rightarrow> ('a \<Rightarrow> string) \<Rightarrow> string \<Rightarrow> 'a option" where
  "find_variant vs name s = List.find (\<lambda>v. name v = s) vs"

definition ascii_lower :: "char \<Rightarrow> char" where
  "ascii_lower c = (let n = of_char c :: nat in if 65 \<le> n \<and> n \<le> 90 then char_of (n + 32) else c)"

definition ascii_upper :: "char \<Rightarrow> char" where
  "ascii_upper c = (let n = of_char c :: nat in if 97 \<le> n \<and> n \<le> 122 then char_of (n - 32) else c)"

definition to_lowercase :: "string \<Rightarrow> string" where
  "to_lowercase s = map ascii_lower s"

definition to_uppercase :: "string \<Rightarrow> string" where
  "to_uppercase s = map ascii_upper s"

section \<open>The enums\<close>

datatype product_type = PT_Ticket | PT_CoursePackage | PT_Membership | PT_Merchandise

definition product_type_all :: "product_type list" where
  "product_type_all = [PT_Ticket, PT_CoursePackage, PT_Membership, PT_Merchandise]"

fun product_type_as_str :: "product_type \<Rightarrow> string" where
  "product_type_as_str PT_Ticket = ''ticket''"
| "product_type_as_str PT_CoursePackage = ''course_package''"
| "product_type_as_str PT_Membership = ''membership''"
| "product_type_as_str PT_Merchandise = ''merchandise''"

definition product_type_from_str :: "string \<Rightarrow> product_type option" where
  "product_type_from_str s = find_variant product_type_all product_type_as_str s"

datatype cart_item_type = CI_Product | CI_Course

definition cart_item_type_all :: "cart_item_type list" where
  "cart_item_type_all = [CI_Product, CI_Course]"

fun cart_item_type_as_str :: "cart_item_type \<Rightarrow> string" where
  "cart_item_type_as_str CI_Product = ''product''"
| "cart_item_type_as_str CI_Course = ''course''"

definition cart_item_type_from_str :: "string \<Rightarrow> cart_item_type option" where
  "cart_item_type_from_str s = find_variant cart_item_type_all cart_item_type_as_str s"

datatype order_status = OS_Pending | OS_Paid | OS_Processing | OS_Completed | OS_Cancelled | OS_Refunded

definition order_status_all :: "order_status list" where
  "order_status_all = [OS_Pending, OS_Paid, OS_Processing, OS_Completed, OS_Cancelled, OS_Refunded]"

fun order_status_as_str :: "order_status \<Rightarrow> string" where
  "order_status_as_str OS_Pending = ''pending''"
| "order_status_as_str OS_Paid = ''paid''"
| "order_status_as_str OS_Processing = ''processing''"
| "order_status_as_str OS_Completed = ''completed''"
| "order_status_as_str OS_Cancelled = ''cancelled''"
| "order_status_as_str OS_Refunded = ''refunded''"

definition order_status_from_str :: "string \<Rightarrow> order_status option" where
  "order_status_from_str s = find_variant order_status_all order_status_as_str s"

datatype point_reason = PR_CheckoutEarn | PR_CheckoutRedeem | PR_AdminAdjust | PR_Redeem | PR_RefundRestore | PR_RefundClawback

definition point_reason_all :: "point_reason list" where
  "point_reason_all = [PR_CheckoutEarn, PR_CheckoutRedeem, PR_AdminAdjust, PR_Redeem, PR_RefundRestore, PR_RefundClawback]"

fun point_reason_as_str :: "point_reason \<Rightarrow> string" where
  "point_reason_as_str PR_CheckoutEarn = ''checkout_earn''"
| "point_reason_as_str PR_CheckoutRedeem = ''checkout_redeem''"
| "point_reason_as_str PR_AdminAdjust = ''admin_adjust''"
| "point_reason_as_str PR_Redeem = ''redeem''"
| "point_reason_as_str PR_RefundRestore = ''refund_restore''"
| "point_reason_as_str PR_RefundClawback = ''refund_clawback''"

datatype points_tier = Tier_Regular | Tier_Bronze | Tier_Silver | Tier_Gold

definition points_tier_all :: "points_tier list" where
  "points_tier_all = [Tier_Regular, Tier_Bronze, Tier_Silver, Tier_Gold]"

fun points_tier_as_str :: "points_tier \<Rightarrow> string" where
  "points_tier_as_str Tier_Regular = ''regular''"
| "points_tier_as_str Tier_Bronze = ''bronze''"
| "points_tier_as_str Tier_Silver = ''silver''"
| "points_tier_as_str Tier_Gold = ''gold''"

datatype course_level = CL_Foundation | CL_Beginner | CL_Intermediate | CL_Advanced | CL_Elite

definition course_level_all :: "course_level list" where
  "course_level_all = [CL_Foundation, CL_Beginner, CL_Intermediate, CL_Advanced, CL_Elite]"

fun course_level_as_str :: "course_level \<Rightarrow> string" where
  "course_level_as_str CL_Foundation = ''foundation''"
| "course_level_as_str CL_Beginner = ''beginner''"
| "course_level_as_str CL_Intermediate = ''intermediate''"
| "course_level_as_str CL_Advanced = ''advanced''"
| "course_level_as_str CL_Elite = ''elite''"

definition course_level_from_str :: "string \<Rightarrow> course_level option" where
  "course_level_from_str s = find_variant course_level_all course_level_as_str (to_lowercase s)"

datatype session_status = Session_Upcoming | Session_Ongoing | Session_Done

definition session_status_all :: "session_status list" where
  "session_status_all = [Session_Upcoming, Session_Ongoing, Session_Done]"

fun session_status_as_str :: "session_status \<Rightarrow> string" where
  "session_status_as_str Session_Upcoming = ''upcoming''"
| "session_status_as_str Session_Ongoing = ''ongoing''"
| "session_status_as_str Session_Done = ''done''"

datatype slot_status = Slot_Available | Slot_Limited | Slot_Full | Slot_Closed

definition slot_status_all :: "slot_status list" where
  "slot_status_all = [Slot_Available, Slot_Limited, Slot_Full, Slot_Closed]"

fun slot_status_as_str :: "slot_status \<Rightarrow> string" where
  "slot_status_as_str Slot_Available = ''available''"
| "slot_status_as_str Slot_Limited = ''limited''"
| "slot_status_as_str Slot_Full = ''full''"
| "slot_status_as_str Slot_Closed = ''closed''"

datatype booking_status = Booking_Pending | Booking_Confirmed | Booking_Cancelled | Booking_Completed | Booking_NoShow

definition booking_status_all :: "booking_status list" where
  "booking_status_all = [Booking_Pending, Booking_Confirmed, Booking_Cancelled, Booking_Completed, Booking_NoShow]"

fun booking_status_as_str :: "booking_status \<Rightarrow> string" where
  "booking_status_as_str Booking_Pending = ''pending''"
| "booking_status_as_str Booking_Confirmed = ''confirmed''"
| "booking_status_as_str Booking_Cancelled = ''cancelled''"
| "booking_status_as_str Booking_Completed = ''completed''"
| "booking_status_as_str Booking_NoShow = ''no_show''"

datatype leave_status = Leave_Pending | Leave_Approved | Leave_Rejected | Leave_Cancelled

definition leave_status_all :: "leave_status list" where
  "leave_status_all = [Leave_Pending, Leave_Approved, Leave_Rejected, Leave_Cancelled]"

fun leave_status_as_str :: "leave_status \<Rightarrow> string" where
  "leave_status_as_str Leave_Pending = ''pending''"
| "leave_status_as_str Leave_Approved = ''approved''"
| "leave_status_as_str Leave_Rejected = ''rejected''"
| "leave_status_as_str Leave_Cancelled = ''cancelled''"

definition leave_status_from_str :: "string \<Rightarrow> leave_status option" where
  "leave_status_from_str s = find_variant leave_status_all leave_status_as_str s"

datatype attendance_status = Att_Present | Att_Absent | Att_Leave

definition attendance_status_all :: "attendance_status list" where
  "attendance_status_all = [Att_Present, Att_Absent, Att_Leave]"

fun attendance_status_as_str :: "attendance_status \<Rightarrow> string" where
  "attendance_status_as_str Att_Present = ''present''"
| "attendance_status_as_str Att_Absent = ''absent''"
| "attendance_status_as_str Att_Leave = ''leave''"

definition attendance_status_from_str :: "string \<Rightarrow> attendance_status option" where
  "attendance_status_from_str s = find_variant attendance_status_all attendance_status_as_str s"

datatype enrolment_status = Enr_Active | Enr_Cancelled

definition enrolment_status_all :: "enrolment_status list" where
  "enrolment_status_all = [Enr_Active, Enr_Cancelled]"

fun enrolment_status_as_str :: "enrolment_status \<Rightarrow> string" where
  "enrolment_status_as_str Enr_Active = ''active''"
| "enrolment_status_as_str Enr_Cancelled = ''cancelled''"

datatype subscription_status = Sub_Active | Sub_Expired | Sub_Cancelled

definition subscription_status_all :: "subscription_status list" where
  "subscription_status_all = [Sub_Active, Sub_Expired, Sub_Cancelled]"

fun subscription_status_as_str :: "subscription_status \<Rightarrow> string" where
  "subscription_status_as_str Sub_Active = ''active''"
| "subscription_status_as_str Sub_Expired = ''expired''"
| "subscription_status_as_str Sub_Cancelled = ''cancelled''"

datatype waitlist_status = Wait_Waiting | Wait_Cancelled

definition waitlist_status_all :: "waitlist_status list" where
  "waitlist_status_all = [Wait_Waiting, Wait_Cancelled]"

fun waitlist_status_as_str :: "waitlist_status \<Rightarrow> string" where
  "waitlist_status_as_str Wait_Waiting = ''waiting''"
| "waitlist_status_as_str Wait_Cancelled = ''cancelled''"

datatype inquiry_status = Inq_New | Inq_InProgress | Inq_Resolved | Inq_Closed

definition inquiry_status_all :: "inquiry_status list" where
  "inquiry_status_all = [Inq_New, Inq_InProgress, Inq_Resolved, Inq_Closed]"

fun inquiry_status_as_str :: "inquiry_status \<Rightarrow> string" where
  "inquiry_status_as_str Inq_New = ''new''"
| "inquiry_status_as_str Inq_InProgress = ''in_progress''"
| "inquiry_status_as_str Inq_Resolved = ''resolved''"
| "inquiry_status_as_str Inq_Closed = ''closed''"

definition inquiry_status_from_str :: "string \<Rightarrow> inquiry_status option" where
  "inquiry_status_from_str s = find_variant inquiry_status_all inquiry_status_as_str (to_lowercase s)"

datatype inquiry_type = IT_General | IT_Trial

definition inquiry_type_all :: "inquiry_type list" where
  "inquiry_type_all = [IT_General, IT_Trial]"

fun inquiry_type_as_str :: "inquiry_type \<Rightarrow> string" where
  "inquiry_type_as_str IT_General = ''general''"
| "inquiry_type_as_str IT_Trial = ''trial''"

definition inquiry_type_from_str :: "string \<Rightarrow> inquiry_type option" where
  "inquiry_type_from_str s = find_variant inquiry_type_all inquiry_type_as_str s"

datatype post_category = PC_Announcement | PC_Article | PC_Promotion | PC_Event

definition post_category_all :: "post_category list" where
  "post_category_all = [PC_Announcement, PC_Article, PC_Promotion, PC_Event]"

fun post_category_as_str :: "post_category \<Rightarrow> string" where
  "post_category_as_str PC_Announcement = ''announcement''"
| "post_category_as_str PC_Article = ''article''"
| "post_category_as_str PC_Promotion = ''promotion''"
| "post_category_as_str PC_Event = ''event''"

definition post_category_from_str :: "string \<Rightarrow> post_category option" where
  "post_category_from_str s = find_variant post_category_all post_category_as_str (to_lowercase s)"

datatype post_status = PS_Draft | PS_Published | PS_Archived

definition post_status_all :: "post_status list" where
  "post_status_all = [PS_Draft, PS_Published, PS_Archived]"

fun post_status_as_str :: "post_status \<Rightarrow> string" where
  "post_status_as_str PS_Draft = ''draft''"
| "post_status_as_str PS_Published = ''published''"
| "post_status_as_str PS_Archived = ''archived''"

definition post_status_from_str :: "string \<Rightarrow> post_status option" where
  "post_status_from_str s = find_variant post_status_all post_status_as_str (to_lowercase s)"

datatype role = Role_Admin | Role_Coach | Role_Member | Role_Guest

definition role_all :: "role list" where
  "role_all = [Role_Admin, Role_Coach, Role_Member, Role_Guest]"

fun role_as_str :: "role \<Rightarrow> string" where
  "role_as_str Role_Admin = ''admin''"
| "role_as_str Role_Coach = ''coach''"
| "role_as_str Role_Member = ''member''"
| "role_as_str Role_Guest = ''guest''"

datatype notification_type = NT_BookingConfirmed | NT_BookingCancelled | NT_OrderPlaced | NT_OrderStatus | NT_System | NT_Promotion

definition notification_type_all :: "notification_type list" where
  "notification_type_all = [NT_BookingConfirmed, NT_BookingCancelled, NT_OrderPlaced, NT_OrderStatus, NT_System, NT_Promotion]"

fun notification_type_as_str :: "notification_type \<Rightarrow> string" where
  "notification_type_as_str NT_BookingConfirmed = ''booking_confirmed''"
| "notification_type_as_str NT_BookingCancelled = ''booking_cancelled''"
| "notification_type_as_str NT_OrderPlaced = ''order_placed''"
| "notification_type_as_str NT_OrderStatus = ''order_status''"
| "notification_type_as_str NT_System = ''system''"
| "notification_type_as_str NT_Promotion = ''promotion''"

datatype income_source = IS_Course | IS_Ticket | IS_Membership | IS_CoursePackage | IS_Merchandise | IS_VenueRental

definition income_source_all :: "income_source list" where
  "income_source_all = [IS_Course, IS_Ticket, IS_Membership, IS_CoursePackage, IS_Merchandise, IS_VenueRental]"

fun income_source_as_str :: "income_source \<Rightarrow> string" where
  "income_source_as_str IS_Course = ''course''"
| "income_source_as_str IS_Ticket = ''ticket''"
| "income_source_as_str IS_Membership = ''membership''"
| "income_source_as_str IS_CoursePackage = ''course_package''"
| "income_source_as_str IS_Merchandise = ''merchandise''"
| "income_source_as_str IS_VenueRental = ''venue_rental''"

section \<open>The contract of a wire enum\<close>

locale wire_enum =
  fixes all :: "'a list" and name :: "'a \<Rightarrow> string"
  assumes all_complete: "v \<in> set all"
    and all_distinct: "distinct all"
    and name_inj: "name v = name w \<Longrightarrow> v = w"
begin

lemma find_name: "find_variant all name (name v) = Some v"
proof -
  have "\<exists>w. find_variant all name (name v) = Some w"
  proof (rule ccontr)
    assume "\<not> ?thesis"
    then have "find_variant all name (name v) = None" by simp
    then show False using all_complete [of v] by (auto simp: find_variant_def find_None_iff)
  qed
  then obtain w where w: "find_variant all name (name v) = Some w" by blast
  then have "name w = name v" by (auto simp: find_variant_def find_Some_iff)
  then show ?thesis using w name_inj by blast
qed

lemma find_spelling: "find_variant all name s = Some v \<longleftrightarrow> name v = s"
  using find_name by (auto simp: find_variant_def find_Some_iff)

lemma find_unknown: "find_variant all name s = None \<longleftrightarrow> (\<forall>v. name v \<noteq> s)"
proof
  assume "find_variant all name s = None"
  then show "\<forall>v. name v \<noteq> s" using find_name by auto
next
  assume "\<forall>v. name v \<noteq> s"
  then show "find_variant all name s = None" by (simp add: find_variant_def find_None_iff)
qed

lemma card_all: "card (set all) = length all"
  using all_distinct by (rule distinct_card)

end

interpretation product_type_wire: wire_enum product_type_all product_type_as_str
proof
  show "v \<in> set product_type_all" for v by (cases v) (simp_all add: product_type_all_def)
  show "distinct product_type_all" by (simp add: product_type_all_def)
  show "product_type_as_str v = product_type_as_str w \<Longrightarrow> v = w" for v w by (cases v; cases w) simp_all
qed

interpretation cart_item_type_wire: wire_enum cart_item_type_all cart_item_type_as_str
proof
  show "v \<in> set cart_item_type_all" for v by (cases v) (simp_all add: cart_item_type_all_def)
  show "distinct cart_item_type_all" by (simp add: cart_item_type_all_def)
  show "cart_item_type_as_str v = cart_item_type_as_str w \<Longrightarrow> v = w" for v w by (cases v; cases w) simp_all
qed

interpretation order_status_wire: wire_enum order_status_all order_status_as_str
proof
  show "v \<in> set order_status_all" for v by (cases v) (simp_all add: order_status_all_def)
  show "distinct order_status_all" by (simp add: order_status_all_def)
  show "order_status_as_str v = order_status_as_str w \<Longrightarrow> v = w" for v w by (cases v; cases w) simp_all
qed

interpretation point_reason_wire: wire_enum point_reason_all point_reason_as_str
proof
  show "v \<in> set point_reason_all" for v by (cases v) (simp_all add: point_reason_all_def)
  show "distinct point_reason_all" by (simp add: point_reason_all_def)
  show "point_reason_as_str v = point_reason_as_str w \<Longrightarrow> v = w" for v w by (cases v; cases w) simp_all
qed

interpretation points_tier_wire: wire_enum points_tier_all points_tier_as_str
proof
  show "v \<in> set points_tier_all" for v by (cases v) (simp_all add: points_tier_all_def)
  show "distinct points_tier_all" by (simp add: points_tier_all_def)
  show "points_tier_as_str v = points_tier_as_str w \<Longrightarrow> v = w" for v w by (cases v; cases w) simp_all
qed

interpretation course_level_wire: wire_enum course_level_all course_level_as_str
proof
  show "v \<in> set course_level_all" for v by (cases v) (simp_all add: course_level_all_def)
  show "distinct course_level_all" by (simp add: course_level_all_def)
  show "course_level_as_str v = course_level_as_str w \<Longrightarrow> v = w" for v w by (cases v; cases w) simp_all
qed

interpretation session_status_wire: wire_enum session_status_all session_status_as_str
proof
  show "v \<in> set session_status_all" for v by (cases v) (simp_all add: session_status_all_def)
  show "distinct session_status_all" by (simp add: session_status_all_def)
  show "session_status_as_str v = session_status_as_str w \<Longrightarrow> v = w" for v w by (cases v; cases w) simp_all
qed

interpretation slot_status_wire: wire_enum slot_status_all slot_status_as_str
proof
  show "v \<in> set slot_status_all" for v by (cases v) (simp_all add: slot_status_all_def)
  show "distinct slot_status_all" by (simp add: slot_status_all_def)
  show "slot_status_as_str v = slot_status_as_str w \<Longrightarrow> v = w" for v w by (cases v; cases w) simp_all
qed

interpretation booking_status_wire: wire_enum booking_status_all booking_status_as_str
proof
  show "v \<in> set booking_status_all" for v by (cases v) (simp_all add: booking_status_all_def)
  show "distinct booking_status_all" by (simp add: booking_status_all_def)
  show "booking_status_as_str v = booking_status_as_str w \<Longrightarrow> v = w" for v w by (cases v; cases w) simp_all
qed

interpretation leave_status_wire: wire_enum leave_status_all leave_status_as_str
proof
  show "v \<in> set leave_status_all" for v by (cases v) (simp_all add: leave_status_all_def)
  show "distinct leave_status_all" by (simp add: leave_status_all_def)
  show "leave_status_as_str v = leave_status_as_str w \<Longrightarrow> v = w" for v w by (cases v; cases w) simp_all
qed

interpretation attendance_status_wire: wire_enum attendance_status_all attendance_status_as_str
proof
  show "v \<in> set attendance_status_all" for v by (cases v) (simp_all add: attendance_status_all_def)
  show "distinct attendance_status_all" by (simp add: attendance_status_all_def)
  show "attendance_status_as_str v = attendance_status_as_str w \<Longrightarrow> v = w" for v w by (cases v; cases w) simp_all
qed

interpretation enrolment_status_wire: wire_enum enrolment_status_all enrolment_status_as_str
proof
  show "v \<in> set enrolment_status_all" for v by (cases v) (simp_all add: enrolment_status_all_def)
  show "distinct enrolment_status_all" by (simp add: enrolment_status_all_def)
  show "enrolment_status_as_str v = enrolment_status_as_str w \<Longrightarrow> v = w" for v w by (cases v; cases w) simp_all
qed

interpretation subscription_status_wire: wire_enum subscription_status_all subscription_status_as_str
proof
  show "v \<in> set subscription_status_all" for v by (cases v) (simp_all add: subscription_status_all_def)
  show "distinct subscription_status_all" by (simp add: subscription_status_all_def)
  show "subscription_status_as_str v = subscription_status_as_str w \<Longrightarrow> v = w" for v w by (cases v; cases w) simp_all
qed

interpretation waitlist_status_wire: wire_enum waitlist_status_all waitlist_status_as_str
proof
  show "v \<in> set waitlist_status_all" for v by (cases v) (simp_all add: waitlist_status_all_def)
  show "distinct waitlist_status_all" by (simp add: waitlist_status_all_def)
  show "waitlist_status_as_str v = waitlist_status_as_str w \<Longrightarrow> v = w" for v w by (cases v; cases w) simp_all
qed

interpretation inquiry_status_wire: wire_enum inquiry_status_all inquiry_status_as_str
proof
  show "v \<in> set inquiry_status_all" for v by (cases v) (simp_all add: inquiry_status_all_def)
  show "distinct inquiry_status_all" by (simp add: inquiry_status_all_def)
  show "inquiry_status_as_str v = inquiry_status_as_str w \<Longrightarrow> v = w" for v w by (cases v; cases w) simp_all
qed

interpretation inquiry_type_wire: wire_enum inquiry_type_all inquiry_type_as_str
proof
  show "v \<in> set inquiry_type_all" for v by (cases v) (simp_all add: inquiry_type_all_def)
  show "distinct inquiry_type_all" by (simp add: inquiry_type_all_def)
  show "inquiry_type_as_str v = inquiry_type_as_str w \<Longrightarrow> v = w" for v w by (cases v; cases w) simp_all
qed

interpretation post_category_wire: wire_enum post_category_all post_category_as_str
proof
  show "v \<in> set post_category_all" for v by (cases v) (simp_all add: post_category_all_def)
  show "distinct post_category_all" by (simp add: post_category_all_def)
  show "post_category_as_str v = post_category_as_str w \<Longrightarrow> v = w" for v w by (cases v; cases w) simp_all
qed

interpretation post_status_wire: wire_enum post_status_all post_status_as_str
proof
  show "v \<in> set post_status_all" for v by (cases v) (simp_all add: post_status_all_def)
  show "distinct post_status_all" by (simp add: post_status_all_def)
  show "post_status_as_str v = post_status_as_str w \<Longrightarrow> v = w" for v w by (cases v; cases w) simp_all
qed

interpretation role_wire: wire_enum role_all role_as_str
proof
  show "v \<in> set role_all" for v by (cases v) (simp_all add: role_all_def)
  show "distinct role_all" by (simp add: role_all_def)
  show "role_as_str v = role_as_str w \<Longrightarrow> v = w" for v w by (cases v; cases w) simp_all
qed

interpretation notification_type_wire: wire_enum notification_type_all notification_type_as_str
proof
  show "v \<in> set notification_type_all" for v by (cases v) (simp_all add: notification_type_all_def)
  show "distinct notification_type_all" by (simp add: notification_type_all_def)
  show "notification_type_as_str v = notification_type_as_str w \<Longrightarrow> v = w" for v w by (cases v; cases w) simp_all
qed

interpretation income_source_wire: wire_enum income_source_all income_source_as_str
proof
  show "v \<in> set income_source_all" for v by (cases v) (simp_all add: income_source_all_def)
  show "distinct income_source_all" by (simp add: income_source_all_def)
  show "income_source_as_str v = income_source_as_str w \<Longrightarrow> v = w" for v w by (cases v; cases w) simp_all
qed

end
