(* ===== verification/Errors.thy ===== *)
theory Errors
  imports Prelude
begin

text \<open>
  The error type of the program (\<open>src/error/mod.rs\<close>) and the driver's errors it wraps. A driver
  error is the kind of failure with the name of the violated constraint, which is what the code
  inspects. \<open>status_of\<close> and \<open>message_of\<close> are \<open>IntoResponse\<close>: what a client sees.
\<close>

datatype sqlx_error =
    UniqueViolation string
  | ExclusionViolation string
  | CheckViolation string
  | ForeignKeyViolation string
  | NumericOutOfRange
  | RowNotFound
  | DecodeError string
  | DriverError string

datatype app_error =
    NotFound string
  | BadRequest string
  | Unauthorized
  | Forbidden string
  | Conflict string
  | Validation string
  | Database sqlx_error
  | Internal string

definition pg_unique_violation :: string where "pg_unique_violation = ''23505''"
definition pg_exclusion_violation :: string where "pg_exclusion_violation = ''23P01''"

fun sqlstate :: "sqlx_error \<Rightarrow> string option" where
  "sqlstate (UniqueViolation c) = Some ''23505''"
| "sqlstate (ExclusionViolation c) = Some ''23P01''"
| "sqlstate (CheckViolation c) = Some ''23514''"
| "sqlstate (ForeignKeyViolation c) = Some ''23503''"
| "sqlstate NumericOutOfRange = Some ''22003''"
| "sqlstate _ = None"

fun constraint_name :: "sqlx_error \<Rightarrow> string option" where
  "constraint_name (UniqueViolation c) = Some c"
| "constraint_name (ExclusionViolation c) = Some c"
| "constraint_name (CheckViolation c) = Some c"
| "constraint_name (ForeignKeyViolation c) = Some c"
| "constraint_name _ = None"

definition conflict_on_unique :: "string \<Rightarrow> sqlx_error \<Rightarrow> app_error" where
  "conflict_on_unique msg e =
    (if sqlstate e = Some pg_unique_violation then Conflict msg else Database e)"

definition conflict_on_exclusion :: "string \<Rightarrow> sqlx_error \<Rightarrow> app_error" where
  "conflict_on_exclusion msg e =
    (if sqlstate e = Some pg_exclusion_violation then Conflict msg else Database e)"

definition conflict_on_constraint :: "string \<Rightarrow> string \<Rightarrow> sqlx_error \<Rightarrow> app_error" where
  "conflict_on_constraint c msg e =
    (if sqlstate e = Some pg_unique_violation \<and> constraint_name e = Some c
     then Conflict msg else Database e)"

fun into_response :: "app_error \<Rightarrow> nat \<times> string" where
  "into_response (NotFound msg) = (404, msg)"
| "into_response (BadRequest msg) = (400, msg)"
| "into_response Unauthorized = (401, ''unauthorized'')"
| "into_response (Forbidden msg) = (403, msg)"
| "into_response (Conflict msg) = (409, msg)"
| "into_response (Validation msg) = (422, msg)"
| "into_response (Database e) =
    (if sqlstate e = Some pg_unique_violation then (409, ''resource already exists'')
     else if sqlstate e = Some pg_exclusion_violation
       then (409, ''resource overlaps with an existing one'')
     else (500, ''internal server error''))"
| "into_response (Internal e) = (500, ''internal server error'')"

definition status_of :: "app_error \<Rightarrow> nat" where
  "status_of e = fst (into_response e)"

text \<open>One field's message as the flattened JSON of the validation errors; no text here needs an escape.\<close>

definition field_error :: "string \<Rightarrow> string \<Rightarrow> app_error" where
  "field_error field msg = Validation (''{'' @ [CHR 0x22] @ field @ [CHR 0x22] @ '':['' @ [CHR 0x22] @ msg @
     [CHR 0x22] @ '']}'')"

lemmas conflict_defs = conflict_on_unique_def conflict_on_exclusion_def conflict_on_constraint_def
  pg_unique_violation_def pg_exclusion_violation_def

lemma conflict_on_unique_simps [simp]:
  "conflict_on_unique msg (UniqueViolation c) = Conflict msg"
  "conflict_on_unique msg (CheckViolation c) = Database (CheckViolation c)"
  "conflict_on_unique msg (ForeignKeyViolation c) = Database (ForeignKeyViolation c)"
  by (simp_all add: conflict_defs)

text \<open>
  Whatever the driver reports, the response never carries the name of a constraint nor a bound
  value.
\<close>

lemma database_response_opaque:
  "snd (into_response (Database e)) \<in>
    {''resource already exists'', ''resource overlaps with an existing one'', ''internal server error''}"
  by simp

lemma status_range: "status_of e \<in> {400, 401, 403, 404, 409, 422, 500}"
  by (cases e) (simp_all add: status_of_def)

end
