(* ===== verification/Events.thy ===== *)
theory Events
  imports Prelude
begin

text \<open>
  The domain events (\<open>src/kafka/events.rs\<close>): the payloads, the one specification per event that
  producer and consumer share, and the envelope. A payload is kept as the value the code serialises.
\<close>

definition orders_created :: string where "orders_created = ''dreamfly.orders.created''"
definition orders_status_changed :: string where "orders_status_changed = ''dreamfly.orders.status_changed''"
definition bookings_created :: string where "bookings_created = ''dreamfly.bookings.created''"
definition bookings_cancelled :: string where "bookings_cancelled = ''dreamfly.bookings.cancelled''"
definition users_registered :: string where "users_registered = ''dreamfly.users.registered''"
definition audit_log_topic :: string where "audit_log_topic = ''dreamfly.audit.log''"

record event_spec =
  es_topic :: string
  es_event_type :: string
  es_resource :: string
  es_id_field :: string

definition order_created_spec :: event_spec where
  "order_created_spec = \<lparr>es_topic = orders_created, es_event_type = ''order_created'',
     es_resource = ''order'', es_id_field = ''order_id''\<rparr>"

definition order_status_changed_spec :: event_spec where
  "order_status_changed_spec = \<lparr>es_topic = orders_status_changed,
     es_event_type = ''order_status_changed'', es_resource = ''order'', es_id_field = ''order_id''\<rparr>"

definition booking_created_spec :: event_spec where
  "booking_created_spec = \<lparr>es_topic = bookings_created, es_event_type = ''booking_created'',
     es_resource = ''booking'', es_id_field = ''booking_id''\<rparr>"

definition booking_cancelled_spec :: event_spec where
  "booking_cancelled_spec = \<lparr>es_topic = bookings_cancelled, es_event_type = ''booking_cancelled'',
     es_resource = ''booking'', es_id_field = ''booking_id''\<rparr>"

definition user_registered_spec :: event_spec where
  "user_registered_spec = \<lparr>es_topic = users_registered, es_event_type = ''user_registered'',
     es_resource = ''user'', es_id_field = ''user_id''\<rparr>"

definition all_specs :: "event_spec list" where
  "all_specs = [order_created_spec, order_status_changed_spec, booking_created_spec,
     booking_cancelled_spec, user_registered_spec]"

definition spec_for_event_type :: "string \<Rightarrow> event_spec option" where
  "spec_for_event_type t = List.find (\<lambda>s. es_event_type s = t) all_specs"

record order_created_payload =
  oc_order_id :: uuid
  oc_user_id :: uuid
  oc_order_number :: string
  oc_total_cents :: int
  oc_discount_cents :: int
  oc_coupon_code :: "string option"
  oc_points_used :: int
  oc_points_earned :: int

record order_status_changed_payload =
  os_order_id :: uuid
  os_user_id :: uuid
  os_status :: string

record booking_payload =
  bp_booking_id :: uuid
  bp_user_id :: uuid
  bp_time_slot_id :: uuid

record user_registered_payload =
  ur_user_id :: uuid
  ur_email :: string
  ur_name :: string

datatype domain_event =
    OrderCreated order_created_payload
  | OrderStatusChanged order_status_changed_payload
  | BookingCreated booking_payload
  | BookingCancelled booking_payload
  | UserRegistered user_registered_payload

fun event_spec_of :: "domain_event \<Rightarrow> event_spec" where
  "event_spec_of (OrderCreated _) = order_created_spec"
| "event_spec_of (OrderStatusChanged _) = order_status_changed_spec"
| "event_spec_of (BookingCreated _) = booking_created_spec"
| "event_spec_of (BookingCancelled _) = booking_cancelled_spec"
| "event_spec_of (UserRegistered _) = user_registered_spec"

fun event_resource_id :: "domain_event \<Rightarrow> uuid" where
  "event_resource_id (OrderCreated p) = oc_order_id p"
| "event_resource_id (OrderStatusChanged p) = os_order_id p"
| "event_resource_id (BookingCreated p) = bp_booking_id p"
| "event_resource_id (BookingCancelled p) = bp_booking_id p"
| "event_resource_id (UserRegistered p) = ur_user_id p"

definition kafka_key :: "domain_event \<Rightarrow> string" where
  "kafka_key e = show_nat (event_resource_id e)"

record kafka_event =
  ke_version :: nat
  ke_event_id :: uuid
  ke_event_type :: string
  ke_timestamp :: instant
  ke_correlation_id :: "string option"
  ke_data :: domain_event

definition current_envelope_version :: nat where "current_envelope_version = 1"

lemmas spec_defs = order_created_spec_def order_status_changed_spec_def booking_created_spec_def
  booking_cancelled_spec_def user_registered_spec_def all_specs_def spec_for_event_type_def

text \<open>Producer and consumer agree: the type string of any event leads back to its specification.\<close>

lemma spec_round_trip: "spec_for_event_type (es_event_type (event_spec_of e)) = Some (event_spec_of e)"
  by (cases e) (simp_all add: spec_defs)

lemma specs_distinct: "distinct (map es_event_type all_specs) \<and> distinct (map es_topic all_specs)"
  by (simp add: spec_defs orders_created_def orders_status_changed_def bookings_created_def
      bookings_cancelled_def users_registered_def)

end
