(* ===== verification/Schema.thy ===== *)
theory Schema
  imports Enums Errors Events Json
begin

text \<open>
  The tables the transactional code reads and writes, one record per row type of the code, and
  the database state \<open>db\<close> that holds them. Of the table \<open>roles\<close> the names are kept, and a row of
  \<open>user_roles\<close> names its role. A column the program only displays is kept; the column
  \<open>updated_at\<close>, written by a trigger and read by no code, is not.

  \<open>uuid_supply\<close> and \<open>uuid_pos\<close> are the stream of identifiers \<open>gen_random_uuid\<close> and
  \<open>Uuid::now_v7\<close> hand out; nothing is assumed about it, a repeated identifier is the primary key
  violation the database reports. \<open>db_now\<close> is the transaction's \<open>NOW()\<close>,
  \<open>db_wall\<close> what \<open>Utc::now()\<close> reads where a repository samples the process clock itself.
\<close>

type_synonym time_of_day = int
type_synonym day_of_week = int

record user =
  u_id :: uuid
  u_email :: string
  u_name :: string
  u_phone :: "string option"
  u_phone_verified :: bool
  u_avatar_url :: "string option"
  u_password_hash :: "string option"
  u_google_id :: "string option"
  u_is_active :: bool
  u_last_login :: "instant option"
  u_created_at :: instant
  u_points_balance :: int
  u_preferences :: "json option"
  u_birth_date :: "date option"

record refresh_token_row =
  rt_id :: uuid
  rt_user_id :: uuid
  rt_token_hash :: string
  rt_expires_at :: instant
  rt_revoked :: bool
  rt_created_at :: instant

record product =
  p_id :: uuid
  p_name :: string
  p_slug :: string
  p_product_type :: product_type
  p_description :: "string option"
  p_price_cents :: int
  p_original_price_cents :: "int option"
  p_features :: "string list"
  p_is_highlighted :: bool
  p_badge :: "string option"
  p_stock :: "int option"
  p_valid_days :: "int option"
  p_session_count :: "int option"
  p_is_active :: bool
  p_created_at :: instant

record course =
  c_id :: uuid
  c_name :: string
  c_slug :: string
  c_level :: course_level
  c_description :: "string option"
  c_duration_minutes :: int
  c_price_cents :: int
  c_max_students :: int
  c_min_age :: "int option"
  c_max_age :: "int option"
  c_features :: "string list"
  c_is_active :: bool
  c_coach_id :: "uuid option"
  c_category :: "string option"
  c_schedule_text :: "string option"
  c_is_highlighted :: bool
  c_created_at :: instant

record course_schedule_slot =
  ss_id :: uuid
  ss_course_id :: uuid
  ss_day_of_week :: day_of_week
  ss_start_time :: time_of_day
  ss_end_time :: time_of_day
  ss_venue :: "string option"
  ss_created_at :: instant

record course_session =
  cs_id :: uuid
  cs_course_id :: uuid
  cs_session_date :: date
  cs_start_time :: time_of_day
  cs_end_time :: time_of_day
  cs_venue :: "string option"
  cs_created_at :: instant

datatype line_target = TargetProduct uuid | TargetCourse uuid

record cart_item =
  ci_id :: uuid
  ci_user_id :: uuid
  ci_target :: line_target
  ci_quantity :: int
  ci_created_at :: instant

record coupon =
  co_id :: uuid
  co_code :: string
  co_discount_cents :: int
  co_is_active :: bool
  co_expires_at :: "instant option"
  co_created_at :: instant

record order_row =
  o_id :: uuid
  o_user_id :: uuid
  o_order_number :: string
  o_status :: order_status
  o_total_cents :: int
  o_discount_cents :: int
  o_coupon_code :: "string option"
  o_points_used :: int
  o_points_earned :: int
  o_payment_method :: "string option"
  o_paid_at :: "instant option"
  o_created_at :: instant

record order_item =
  oi_id :: uuid
  oi_order_id :: uuid
  oi_item_type :: cart_item_type
  oi_product_id :: "uuid option"
  oi_course_id :: "uuid option"
  oi_quantity :: int
  oi_unit_price_cents :: int
  oi_name :: string
  oi_stock_decremented :: bool
  oi_created_at :: instant

record idempotency_row =
  ik_user_id :: uuid
  ik_key :: string
  ik_order_id :: uuid
  ik_created_at :: instant

record ledger_row =
  l_id :: uuid
  l_user_id :: uuid
  l_delta :: int
  l_reason :: point_reason
  l_order_id :: "uuid option"
  l_created_at :: instant

record enrolment =
  e_id :: uuid
  e_user_id :: uuid
  e_course_id :: uuid
  e_order_id :: "uuid option"
  e_status :: enrolment_status
  e_enrolled_at :: instant
  e_created_at :: instant

record subscription =
  s_id :: uuid
  s_user_id :: uuid
  s_product_id :: uuid
  s_order_id :: "uuid option"
  s_status :: subscription_status
  s_started_at :: instant
  s_expires_at :: "instant option"
  s_total_sessions :: "int option"
  s_remaining_sessions :: "int option"
  s_price_cents :: int
  s_created_at :: instant

record reward =
  rw_id :: uuid
  rw_name :: string
  rw_description :: "string option"
  rw_points_cost :: int
  rw_stock :: "int option"
  rw_is_active :: bool
  rw_display_order :: int
  rw_created_at :: instant

record reward_redemption =
  rr_id :: uuid
  rr_reward_id :: uuid
  rr_user_id :: uuid
  rr_points_spent :: int
  rr_created_at :: instant

record leave_request =
  lr_id :: uuid
  lr_enrolment_id :: uuid
  lr_session_id :: uuid
  lr_reason :: "string option"
  lr_status :: leave_status
  lr_makeup_session_id :: "uuid option"
  lr_decided_by :: "uuid option"
  lr_decided_at :: "instant option"
  lr_created_at :: instant

record attendance_record =
  a_id :: uuid
  a_session_id :: uuid
  a_enrolment_id :: uuid
  a_status :: attendance_status
  a_marked_by :: "uuid option"
  a_marked_at :: instant

record time_slot =
  t_id :: uuid
  t_date :: date
  t_start_time :: time_of_day
  t_end_time :: time_of_day
  t_venue_id :: "uuid option"
  t_course_id :: "uuid option"
  t_capacity :: int
  t_is_closed :: bool
  t_price_cents :: int
  t_created_at :: instant

record booking =
  b_id :: uuid
  b_user_id :: uuid
  b_time_slot_id :: uuid
  b_status :: booking_status
  b_note :: "string option"
  b_price_cents :: int
  b_created_at :: instant

record waitlist_entry =
  w_id :: uuid
  w_user_id :: uuid
  w_course_id :: uuid
  w_status :: waitlist_status
  w_created_at :: instant

record coach =
  ch_id :: uuid
  ch_user_id :: uuid
  ch_title :: string
  ch_bio :: "string option"
  ch_experience :: "string option"
  ch_specialties :: "string list"
  ch_certifications :: "string list"
  ch_is_active :: bool
  ch_display_order :: int
  ch_slug :: "string option"
  ch_photo_url :: "string option"
  ch_created_at :: instant

record coach_schedule =
  sc_id :: uuid
  sc_coach_id :: uuid
  sc_day_of_week :: day_of_week
  sc_start_time :: time_of_day
  sc_end_time :: time_of_day
  sc_is_available :: bool
  sc_created_at :: instant

record clock_record =
  cr_id :: uuid
  cr_coach_id :: uuid
  cr_clock_in :: instant
  cr_clock_out :: "instant option"
  cr_note :: "string option"
  cr_created_at :: instant

record conversation =
  cv_id :: uuid
  cv_member_id :: uuid
  cv_coach_id :: uuid
  cv_created_at :: instant
  cv_last_message_at :: "instant option"

record message =
  mg_id :: uuid
  mg_conversation_id :: uuid
  mg_sender_id :: uuid
  mg_body :: string
  mg_created_at :: instant
  mg_read_at :: "instant option"

record notification =
  nt_id :: uuid
  nt_user_id :: uuid
  nt_type :: notification_type
  nt_title :: string
  nt_message :: string
  nt_is_read :: bool
  nt_metadata :: "json option"
  nt_created_at :: instant

record outbox_row =
  ob_id :: uuid
  ob_topic :: string
  ob_key :: string
  ob_payload :: kafka_event
  ob_created_at :: instant
  ob_published_at :: "instant option"
  ob_attempts :: int
  ob_last_error :: "string option"
  ob_next_attempt_at :: instant

record db =
  users :: "user list"
  refresh_tokens :: "refresh_token_row list"
  role_names :: "string list"
  user_roles :: "(uuid \<times> string) list"
  products :: "product list"
  courses :: "course list"
  schedule_slots :: "course_schedule_slot list"
  sessions :: "course_session list"
  cart_items :: "cart_item list"
  coupons :: "coupon list"
  orders :: "order_row list"
  order_items :: "order_item list"
  idempotency :: "idempotency_row list"
  point_ledger :: "ledger_row list"
  enrolments :: "enrolment list"
  subscriptions :: "subscription list"
  rewards :: "reward list"
  redemptions :: "reward_redemption list"
  leave_requests :: "leave_request list"
  attendance :: "attendance_record list"
  time_slots :: "time_slot list"
  bookings :: "booking list"
  waitlist :: "waitlist_entry list"
  coaches :: "coach list"
  coach_schedules :: "coach_schedule list"
  clock_records :: "clock_record list"
  conversations :: "conversation list"
  messages :: "message list"
  notifications :: "notification list"
  events_outbox :: "outbox_row list"
  uuid_supply :: "nat \<Rightarrow> uuid"
  uuid_pos :: nat
  db_now :: instant
  db_wall :: instant

type_synonym 'a sql = "(db, sqlx_error, 'a) tx"
type_synonym 'a app = "(db, app_error, 'a) tx"

definition fresh_uuid :: "(db, 'e, uuid) tx" where
  "fresh_uuid = (\<lambda>s. Inr (uuid_supply s (uuid_pos s), s\<lparr>uuid_pos := uuid_pos s + 1\<rparr>))"

definition db_try :: "('s, sqlx_error, 'a) tx \<Rightarrow> ('s, app_error, 'a) tx" where
  "db_try m = map_err_tx Database m"

text \<open>
  A handler runs transactions and reads against the pool. \<open>commit_tx\<close> is begin, run, commit: an error
  leaves the database as it was. \<open>after_commit\<close> is what a handler does once a transaction is
  committed: an error there is returned, and the committed change stays.
\<close>

type_synonym 'a handler = "db \<Rightarrow> (app_error + 'a) \<times> db"

definition commit_tx :: "('s, app_error, 'a) tx \<Rightarrow> 's \<Rightarrow> (app_error + 'a) \<times> 's" where
  "commit_tx m = (\<lambda>s. case m s of Inl e \<Rightarrow> (Inl e, s) | Inr (x, s') \<Rightarrow> (Inr x, s'))"

definition after_commit :: "'a handler \<Rightarrow> ('a \<Rightarrow> 'b app) \<Rightarrow> 'b handler" where
  "after_commit h f = (\<lambda>s. case h s of
     (Inl e, s') \<Rightarrow> (Inl e, s')
   | (Inr x, s') \<Rightarrow> commit_tx (f x) s')"

definition insert_row :: "string \<Rightarrow> bool \<Rightarrow> (db \<Rightarrow> db) \<Rightarrow> unit sql" where
  "insert_row key taken g = (if taken then fail_tx (UniqueViolation key) else put_tx g)"

text \<open>The empty database and rows with neutral columns, the starting points of the concrete runs.\<close>

definition empty_db :: db where
  "empty_db = \<lparr>users = [], refresh_tokens = [],
     role_names = [''admin'', ''coach'', ''member'', ''guest''], user_roles = [],
     products = [], courses = [], schedule_slots = [], sessions = [],
     cart_items = [], coupons = [], orders = [], order_items = [], idempotency = [],
     point_ledger = [], enrolments = [], subscriptions = [], rewards = [], redemptions = [],
     leave_requests = [], attendance = [], time_slots = [], bookings = [], waitlist = [], coaches = [],
     coach_schedules = [], clock_records = [], conversations = [], messages = [], notifications = [],
     events_outbox = [], uuid_supply = (\<lambda>n. 1000 + n), uuid_pos = 0, db_now = 0,
     db_wall = 0\<rparr>"

definition member :: "uuid \<Rightarrow> int \<Rightarrow> user" where
  "member i balance = \<lparr>u_id = i, u_email = [], u_name = [], u_phone = None,
     u_phone_verified = False, u_avatar_url = None, u_password_hash = None, u_google_id = None,
     u_is_active = True, u_last_login = None, u_created_at = 0, u_points_balance = balance,
     u_preferences = None, u_birth_date = None\<rparr>"

lemma insert_row_Inr [simp]:
  "insert_row key taken g s = Inr (x, s') \<longleftrightarrow> \<not> taken \<and> s' = g s"
  by (auto simp: insert_row_def)

lemma insert_row_Inl [simp]:
  "insert_row key taken g s = Inl e \<longleftrightarrow> taken \<and> e = UniqueViolation key"
  by (auto simp: insert_row_def)

lemma db_try_Inr [simp]: "db_try m s = Inr r \<longleftrightarrow> m s = Inr r"
  by (simp add: db_try_def)

lemma db_try_Inl: "db_try m s = Inl e \<longleftrightarrow> (\<exists>e'. m s = Inl e' \<and> e = Database e')"
  by (simp add: db_try_def map_err_tx_Inl)

lemma db_try_ok [simp]: "m s = Inr r \<Longrightarrow> db_try m s = Inr r"
  by simp

lemma db_try_err [simp]: "m s = Inl e \<Longrightarrow> db_try m s = Inl (Database e)"
  by (simp add: db_try_def)

lemma keeps_db_try [keeps_intros]: "keeps P m \<Longrightarrow> keeps P (db_try m)"
  by (simp add: db_try_def keeps_map_err)

lemma leaves_db_try [leaves_intros]: "leaves g m \<Longrightarrow> leaves g (db_try m)"
  by (simp add: db_try_def leaves_map_err)

lemma fresh_uuid_run [simp]:
  "fresh_uuid s = Inr (uuid_supply s (uuid_pos s), s\<lparr>uuid_pos := uuid_pos s + 1\<rparr>)"
  by (simp add: fresh_uuid_def)

lemma commit_tx_ok [simp]: "m s = Inr (x, s') \<Longrightarrow> commit_tx m s = (Inr x, s')"
  by (simp add: commit_tx_def)

lemma commit_tx_rollback [simp]: "m s = Inl e \<Longrightarrow> commit_tx m s = (Inl e, s)"
  by (simp add: commit_tx_def)

lemma commit_tx_cases:
  obtains e where "m s = Inl e" "commit_tx m s = (Inl e, s)"
  | x s' where "m s = Inr (x, s')" "commit_tx m s = (Inr x, s')"
  by (cases "m s") auto

lemma commit_tx_state:
  "snd (commit_tx m s) = (case m s of Inl e \<Rightarrow> s | Inr (x, s') \<Rightarrow> s')"
  by (simp add: commit_tx_def split: sum.splits)

lemma after_commit_state:
  assumes "\<And>x. leaves (\<lambda>s. s) (f x)"
  shows "snd (after_commit h f s) = snd (h s)"
  using assms by (auto simp: after_commit_def commit_tx_def leaves_def split: prod.splits sum.splits)

lemma leaves_fresh [leaves_intros]: "(\<And>s n. g (s\<lparr>uuid_pos := n\<rparr>) = g s) \<Longrightarrow> leaves g fresh_uuid"
  by (simp add: leaves_def)

lemma keeps_fresh [keeps_intros]: "(\<And>s n. P s \<Longrightarrow> P (s\<lparr>uuid_pos := n\<rparr>)) \<Longrightarrow> keeps P fresh_uuid"
  by (simp add: keeps_def)

lemma leaves_insert_row [leaves_intros]: "(\<And>s. h (g s) = h s) \<Longrightarrow> leaves h (insert_row key b g)"
  by (simp add: leaves_def)

lemma keeps_insert_row [keeps_intros]:
  "(\<And>s. \<not> b \<Longrightarrow> P s \<Longrightarrow> P (g s)) \<Longrightarrow> keeps P (insert_row key b g)"
  by (simp add: keeps_def)

end
