(* ===== verification/Clock.thy ===== *)
theory Clock
  imports Schema
begin

text \<open>
  The studio clock (\<open>src/utils/studio_clock.rs\<close>): naive dates and times mean what the studio's
  wall clock shows. The time zone database is a crate outside the repository, so a zone is a
  parameter: a record of the two conversions the code calls. The locale \<open>zone\<close> states what the
  conversions promise (a local time resolved to one instant is what the clock shows at that
  instant, and every instant is among the candidates of its own local time); it is interpreted on the
  zones with a fixed offset, Asia/Taipei among them, where no local time is ambiguous.

  A day number counts from 1970-01-01; a time of day is in microseconds after midnight.
\<close>

datatype local_result = LocalNone | LocalSingle instant | LocalAmbiguous instant instant

record tz =
  tz_local :: "instant \<Rightarrow> date \<times> time_of_day"
  tz_from_local :: "date \<Rightarrow> time_of_day \<Rightarrow> local_result"

record studio_now =
  sn_tz :: tz
  sn_now :: instant

fun single :: "local_result \<Rightarrow> instant option" where
  "single (LocalSingle i) = Some i"
| "single _ = None"

definition today :: "tz \<Rightarrow> instant \<Rightarrow> date" where
  "today z now = fst (tz_local z now)"

definition studio_today :: "studio_now \<Rightarrow> date" where
  "studio_today at = today (sn_tz at) (sn_now at)"

definition to_utc :: "tz \<Rightarrow> date \<Rightarrow> time_of_day \<Rightarrow> instant option" where
  "to_utc z d t = single (tz_from_local z d t)"

definition to_utc_checked :: "tz \<Rightarrow> date \<Rightarrow> time_of_day \<Rightarrow> string \<Rightarrow> app_error + instant" where
  "to_utc_checked z d t noun =
    (case to_utc z d t of
       None \<Rightarrow> Inl (BadRequest (noun @ '' falls on an ambiguous local time''))
     | Some i \<Rightarrow> Inr i)"

definition require_not_started ::
  "tz \<Rightarrow> instant \<Rightarrow> date \<Rightarrow> time_of_day \<Rightarrow> string \<Rightarrow> app_error \<Rightarrow> app_error + unit" where
  "require_not_started z now d t noun started =
    (case to_utc_checked z d t noun of
       Inl e \<Rightarrow> Inl e
     | Inr i \<Rightarrow> if i \<le> now then Inl started else Inr ())"

definition require_started ::
  "tz \<Rightarrow> instant \<Rightarrow> date \<Rightarrow> time_of_day \<Rightarrow> string \<Rightarrow> app_error \<Rightarrow> app_error + unit" where
  "require_started z now d t noun not_started =
    (case to_utc_checked z d t noun of
       Inl e \<Rightarrow> Inl e
     | Inr i \<Rightarrow> if i > now then Inl not_started else Inr ())"

definition has_started :: "tz \<Rightarrow> instant \<Rightarrow> date \<Rightarrow> time_of_day \<Rightarrow> bool option" where
  "has_started z now d t = map_option (\<lambda>utc. utc \<le> now) (to_utc z d t)"

definition has_ended :: "tz \<Rightarrow> instant \<Rightarrow> date \<Rightarrow> time_of_day \<Rightarrow> bool option" where
  "has_ended z now d t = map_option (\<lambda>utc. utc \<le> now) (to_utc z d t)"

definition validate_time_window :: "time_of_day \<Rightarrow> time_of_day \<Rightarrow> app_error + unit" where
  "validate_time_window s e =
    (if e \<le> s then Inl (Validation ''end_time must be after start_time'') else Inr ())"

text \<open>Parsing a date or a time of day with a format string is chrono's: a parameter.\<close>

record chrono =
  naive_date_from_str :: "string \<Rightarrow> string \<Rightarrow> date option"
  naive_time_from_str :: "string \<Rightarrow> string \<Rightarrow> time_of_day option"

definition parse_date :: "chrono \<Rightarrow> string \<Rightarrow> date option" where
  "parse_date ch x = naive_date_from_str ch x ''%Y-%m-%d''"

definition parse_time_of_day :: "chrono \<Rightarrow> string \<Rightarrow> time_of_day option" where
  "parse_time_of_day ch x = (case naive_time_from_str ch x ''%H:%M'' of
     Some t \<Rightarrow> Some t
   | None \<Rightarrow> naive_time_from_str ch x ''%H:%M:%S'')"

section \<open>Civil dates\<close>

definition is_leap :: "int \<Rightarrow> bool" where
  "is_leap y = (y mod 4 = 0 \<and> (y mod 100 \<noteq> 0 \<or> y mod 400 = 0))"

definition days_in_month :: "int \<Rightarrow> int \<Rightarrow> int" where
  "days_in_month y m =
    (if m = 2 then (if is_leap y then 29 else 28)
     else if m = 4 \<or> m = 6 \<or> m = 9 \<or> m = 11 then 30 else 31)"

text \<open>The day number of the first of March of year \<open>y\<close> starts the count of a civil year.\<close>

definition day_number :: "int \<Rightarrow> int \<Rightarrow> int \<Rightarrow> date" where
  "day_number y m d =
    (let y' = (if m \<le> 2 then y - 1 else y);
         m' = (m + 9) mod 12
     in 365 * y' + y' div 4 - y' div 100 + y' div 400 + (153 * m' + 2) div 5 + (d - 1) - 719468)"

definition from_ymd_opt :: "int \<Rightarrow> int \<Rightarrow> int \<Rightarrow> date option" where
  "from_ymd_opt y m d =
    (if -262143 \<le> y \<and> y \<le> 262142 \<and> 1 \<le> m \<and> m \<le> 12 \<and> 1 \<le> d \<and> d \<le> days_in_month y m
     then Some (day_number y m d) else None)"

definition pred_opt :: "date \<Rightarrow> date option" where
  "pred_opt d = (if d = day_number (-262143) 1 1 then None else Some (d - 1))"

definition month_bounds :: "int \<Rightarrow> int \<Rightarrow> (date \<times> date) option" where
  "month_bounds y m =
    (case from_ymd_opt y m 1 of
       None \<Rightarrow> None
     | Some first_day \<Rightarrow>
         (case (if m = 12
                then (if in_i32 (y + 1) then from_ymd_opt (y + 1) 1 1 else None)
                else from_ymd_opt y (m + 1) 1) of
            None \<Rightarrow> None
          | Some next_month_first \<Rightarrow>
              (case pred_opt next_month_first of
                 None \<Rightarrow> None
               | Some last_day \<Rightarrow> Some (first_day, last_day))))"

definition extract_dow :: "date \<Rightarrow> day_of_week" where
  "extract_dow d = (d + 4) mod 7"

section \<open>What a zone promises\<close>

locale zone =
  fixes z :: tz
  assumes single_local: "tz_from_local z d t = LocalSingle i \<Longrightarrow> tz_local z i = (d, t)"
    and ambiguous_local: "tz_from_local z d t = LocalAmbiguous i j \<Longrightarrow>
      tz_local z i = (d, t) \<and> tz_local z j = (d, t) \<and> i \<noteq> j"
    and local_found: "tz_local z i = (d, t) \<Longrightarrow>
      tz_from_local z d t = LocalSingle i \<or>
      (\<exists>j. tz_from_local z d t = LocalAmbiguous i j \<or> tz_from_local z d t = LocalAmbiguous j i)"
begin

lemma to_utc_local: "to_utc z d t = Some i \<Longrightarrow> tz_local z i = (d, t)"
  unfolding to_utc_def by (cases "tz_from_local z d t") (auto dest: single_local)

lemma to_utc_today: "to_utc z d t = Some i \<Longrightarrow> today z i = d"
  by (simp add: today_def to_utc_local)

lemma to_utc_inj: "to_utc z d t = Some i \<Longrightarrow> to_utc z d' t' = Some i \<Longrightarrow> d = d' \<and> t = t'"
  by (metis Pair_inject to_utc_local)

lemma to_utc_unique: "to_utc z d t = Some i \<Longrightarrow> tz_local z j = (d, t) \<Longrightarrow> j = i"
  unfolding to_utc_def using local_found [of j d t]
  by (cases "tz_from_local z d t") auto

end

definition fixed_zone :: "int \<Rightarrow> tz" where
  "fixed_zone off = \<lparr>
     tz_local = (\<lambda>i. ((i + off) div micros_per_day, (i + off) mod micros_per_day)),
     tz_from_local = (\<lambda>d t. if 0 \<le> t \<and> t < micros_per_day
                             then LocalSingle (d * micros_per_day + t - off) else LocalNone)\<rparr>"

definition taipei :: tz where
  "taipei = fixed_zone (8 * micros_per_hour)"

interpretation fixed: zone "fixed_zone off" for off
proof
  show "tz_from_local (fixed_zone off) d t = LocalSingle i \<Longrightarrow> tz_local (fixed_zone off) i = (d, t)"
    for d t i by (auto simp: fixed_zone_def split: if_splits)
  show "tz_from_local (fixed_zone off) d t = LocalAmbiguous i j \<Longrightarrow>
      tz_local (fixed_zone off) i = (d, t) \<and> tz_local (fixed_zone off) j = (d, t) \<and> i \<noteq> j"
    for d t i j by (auto simp: fixed_zone_def split: if_splits)
  show "tz_local (fixed_zone off) i = (d, t) \<Longrightarrow>
      tz_from_local (fixed_zone off) d t = LocalSingle i \<or>
      (\<exists>j. tz_from_local (fixed_zone off) d t = LocalAmbiguous i j \<or>
           tz_from_local (fixed_zone off) d t = LocalAmbiguous j i)"
    for i d t by (auto simp: fixed_zone_def)
qed

section \<open>A month's bounds\<close>

lemma div_mod_step:
  assumes "0 \<le> r" "r < (k :: int)"
  shows "(q * k + r + 1) div k = q + (if r = k - 1 then 1 else 0)"
    and "(q * k + r + 1) mod k = (if r = k - 1 then 0 else r + 1)"
proof -
  have k: "k \<noteq> 0" using assms by simp
  have eq: "q * k + r + 1 = (if r = k - 1 then 0 else r + 1) + (q + (if r = k - 1 then 1 else 0)) * k"
    by (simp add: algebra_simps)
  have small: "0 \<le> (if r = k - 1 then 0 else r + 1)" "(if r = k - 1 then 0 else r + 1) < k"
    using assms by simp_all
  show "(q * k + r + 1) div k = q + (if r = k - 1 then 1 else 0)"
    unfolding eq div_mult_self1 [OF k] using small by (simp only: div_pos_pos_trivial add_0_right)
  show "(q * k + r + 1) mod k = (if r = k - 1 then 0 else r + 1)"
    unfolding eq mod_mult_self1 using small by (simp only: mod_pos_pos_trivial)
qed

lemma div_step:
  fixes y :: int
  assumes "0 < k"
  shows "(y + 1) div k = y div k + (if (y + 1) mod k = 0 then 1 else 0)"
proof -
  have "0 \<le> y mod k" using assms by simp
  then have "y mod k + 1 \<noteq> 0" by linarith
  then show ?thesis using div_mod_step [of "y mod k" k "y div k"] assms by simp
qed

lemma leap_count:
  "(c \<Longrightarrow> b) \<Longrightarrow> (b \<Longrightarrow> a) \<Longrightarrow> (if a \<and> (\<not> b \<or> c) then 29 else 28 :: int) =
    28 + (if a then 1 else 0) - (if b then 1 else 0) + (if c then 1 else 0)"
  by (cases a; cases b; cases c; simp)

lemma leap_difference:
  fixes y :: int
  shows "x = 365 * y + a - b + c - 719468 \<Longrightarrow>
    x' = 365 * (y - 1) + a' - b' + c' + 337 - 719468 \<Longrightarrow> n = 28 + i - j + k \<Longrightarrow>
    a = a' + i \<Longrightarrow> b = b' + j \<Longrightarrow> c = c' + k \<Longrightarrow> x - x' = n"
  by simp

lemma month_length:
  assumes "1 \<le> m" "m \<le> 12"
  shows "(if m = 12 then day_number (y + 1) 1 1 else day_number y (m + 1) 1) - day_number y m 1
    = days_in_month y m"
proof -
  have div4: "y div 4 = (y - 1) div 4 + (if y mod 4 = 0 then 1 else 0)"
    and div100: "y div 100 = (y - 1) div 100 + (if y mod 100 = 0 then 1 else 0)"
    and div400: "y div 400 = (y - 1) div 400 + (if y mod 400 = 0 then 1 else 0)"
    using div_step [of 4 "y - 1"] div_step [of 100 "y - 1"] div_step [of 400 "y - 1"]
    unfolding diff_add_cancel by (simp_all only: zero_less_numeral)
  have "(100 :: int) dvd 400" "(4 :: int) dvd 100" by simp_all
  then have nested: "y mod 400 = 0 \<Longrightarrow> y mod 100 = 0" "y mod 100 = 0 \<Longrightarrow> y mod 4 = 0"
    unfolding mod_eq_0_iff_dvd by (metis dvd_trans)+
  have "m = 1 \<or> m = 2 \<or> m = 3 \<or> m = 4 \<or> m = 5 \<or> m = 6 \<or> m = 7 \<or> m = 8 \<or> m = 9 \<or>
    m = 10 \<or> m = 11 \<or> m = 12" using assms by presburger
  moreover have ?thesis if m: "m = 2"
  proof -
    have march: "day_number y 3 1 = 365 * y + y div 4 - y div 100 + y div 400 - 719468"
      by (simp add: day_number_def Let_def)
    have february: "day_number y 2 1 =
        365 * (y - 1) + (y - 1) div 4 - (y - 1) div 100 + (y - 1) div 400 + 337 - 719468"
      by (simp add: day_number_def Let_def)
    have days: "days_in_month y 2 = 28 + (if y mod 4 = 0 then 1 else 0)
        - (if y mod 100 = 0 then 1 else 0) + (if y mod 400 = 0 then 1 else 0)"
      unfolding days_in_month_def is_leap_def using leap_count [OF nested] by simp
    show ?thesis
      using leap_difference [OF march february days div4 div100 div400] by (simp add: m)
  qed
  ultimately show ?thesis
    by (elim disjE) (simp_all add: day_number_def days_in_month_def Let_def)
qed

lemma from_ymd_optD:
  "from_ymd_opt y m d = Some i \<Longrightarrow> i = day_number y m d \<and> 1 \<le> m \<and> m \<le> 12 \<and> -262143 \<le> y \<and> y \<le> 262142"
  by (simp add: from_ymd_opt_def split: if_splits)

lemma month_bounds_length:
  assumes "month_bounds y m = Some (a, b)"
  shows "a = day_number y m 1 \<and> b - a + 1 = days_in_month y m \<and> 1 \<le> m \<and> m \<le> 12"
  using assms month_length [of m y]
  by (auto simp: month_bounds_def pred_opt_def split: option.splits if_splits dest!: from_ymd_optD)

section \<open>Facts about the gates\<close>

lemma has_ended_has_started: "has_ended z now d t = has_started z now d t"
  by (simp add: has_ended_def has_started_def)

lemma gates_complementary:
  "require_not_started z now d t noun e = Inr () \<Longrightarrow> require_started z now d t noun e' = Inl e'"
  "require_not_started z now d t noun e = Inl e \<Longrightarrow> to_utc z d t = Some i \<Longrightarrow>
    require_started z now d t noun e' = Inr ()"
  by (auto simp: require_not_started_def require_started_def to_utc_checked_def
           split: option.splits sum.splits if_splits)

lemma require_started_iff:
  "require_started z now d t noun e = Inr () \<longleftrightarrow> has_started z now d t = Some True"
  by (auto simp: require_started_def has_started_def to_utc_checked_def split: option.splits)

lemma require_not_started_iff:
  "require_not_started z now d t noun e = Inr () \<longleftrightarrow> has_started z now d t = Some False"
  by (auto simp: require_not_started_def has_started_def to_utc_checked_def split: option.splits)

lemma started_monotone:
  "has_started z now d t = Some True \<Longrightarrow> now \<le> now' \<Longrightarrow> has_started z now' d t = Some True"
  by (auto simp: has_started_def)

end
