(* ===== verification/Paging.thy ===== *)
theory Paging
  imports Schema
begin

text \<open>
  Pagination (\<open>src/extractors/pagination.rs\<close>). Page and page size are \<open>u32\<close> in the code and
  32-bit words here: \<open>offset\<close> multiplies them without a check, so in a release build it wraps.
\<close>

record pagination_params =
  page :: "32 word"
  per_page :: "32 word"

record page_meta =
  pm_total :: int
  pm_page :: "32 word"
  pm_per_page :: "32 word"

definition default_page :: "32 word" where "default_page = 1"
definition default_per_page :: "32 word" where "default_per_page = 20"

definition default_params :: pagination_params where
  "default_params = \<lparr>page = default_page, per_page = default_per_page\<rparr>"

definition saturating_sub32 :: "32 word \<Rightarrow> 32 word \<Rightarrow> 32 word" where
  "saturating_sub32 a b = (if b \<le> a then a - b else 0)"

definition limit :: "pagination_params \<Rightarrow> 32 word" where
  "limit p = min 100 (max 1 (per_page p))"

definition offset :: "pagination_params \<Rightarrow> 32 word" where
  "offset p = saturating_sub32 (max (page p) 1) 1 * limit p"

definition meta :: "pagination_params \<Rightarrow> int \<Rightarrow> page_meta" where
  "meta p n = \<lparr>pm_total = n, pm_page = max (page p) 1, pm_per_page = limit p\<rparr>"

definition page_rows :: "pagination_params \<Rightarrow> 'r list \<Rightarrow> 'r list" where
  "page_rows p rows = take (unat (limit p)) (drop (unat (offset p)) rows)"

lemma limit_range: "1 \<le> unat (limit p) \<and> unat (limit p) \<le> 100"
proof -
  have "1 \<le> limit p" "limit p \<le> 100"
    unfolding limit_def by (simp_all add: min_le_iff_disj le_max_iff_disj)
  then show ?thesis by (simp add: word_le_nat_alt)
qed

lemma unat_page_index: "unat (saturating_sub32 (max (page p) 1) 1) = unat (max (page p) 1) - 1"
  by (simp add: saturating_sub32_def word_le_nat_alt max_def unat_sub)

lemma offset_exact:
  assumes "(unat (max (page p) 1) - 1) * unat (limit p) < 2 ^ 32"
  shows "unat (offset p) = (unat (max (page p) 1) - 1) * unat (limit p)"
  using assms unfolding offset_def by (simp add: unat_word_ariths unat_page_index)

text \<open>Past the bound the product wraps: a page far beyond the end shows rows from the beginning again.\<close>

lemma offset_wraps:
  "offset \<lparr>page = 42949674, per_page = 100\<rparr> = 4"
  by code_simp

end
