(* ===== verification/Points.thy ===== *)
theory Points
  imports Clock Paging "HOL-Library.Product_Lexorder"
begin

text \<open>
  Points (\<open>src/modules/points\<close>): the balance of a member and the ledger of every change to it.
  \<open>apply_delta_tx\<close> is the only write: one balance update and one ledger row. The locale
  \<open>double_entry\<close> states that contract for a balance and a journal of postings; its lemmas give the
  conservation of the difference of the two over any sequence of postings, and it is interpreted on
  \<open>apply_delta_tx\<close>.
\<close>

section \<open>Ledger deltas\<close>

record ledger_delta =
  ld_delta :: int
  ld_reason :: point_reason
  ld_order_id :: "uuid option"

definition checkout_earn :: "int \<Rightarrow> uuid \<Rightarrow> ledger_delta" where
  "checkout_earn magnitude order_id =
    \<lparr>ld_delta = magnitude, ld_reason = PR_CheckoutEarn, ld_order_id = Some order_id\<rparr>"

definition checkout_redeem :: "int \<Rightarrow> uuid \<Rightarrow> ledger_delta" where
  "checkout_redeem magnitude order_id =
    \<lparr>ld_delta = wrap64 (- magnitude), ld_reason = PR_CheckoutRedeem, ld_order_id = Some order_id\<rparr>"

definition redeem :: "int \<Rightarrow> ledger_delta" where
  "redeem magnitude =
    \<lparr>ld_delta = wrap64 (- magnitude), ld_reason = PR_Redeem, ld_order_id = None\<rparr>"

definition refund_restore :: "int \<Rightarrow> uuid \<Rightarrow> ledger_delta" where
  "refund_restore magnitude order_id =
    \<lparr>ld_delta = magnitude, ld_reason = PR_RefundRestore, ld_order_id = Some order_id\<rparr>"

definition refund_clawback :: "int \<Rightarrow> uuid \<Rightarrow> ledger_delta" where
  "refund_clawback magnitude order_id =
    \<lparr>ld_delta = wrap64 (- magnitude), ld_reason = PR_RefundClawback, ld_order_id = Some order_id\<rparr>"

definition admin_adjust :: "int \<Rightarrow> ledger_delta" where
  "admin_adjust signed_delta =
    \<lparr>ld_delta = signed_delta, ld_reason = PR_AdminAdjust, ld_order_id = None\<rparr>"

record order_points_flow =
  earned :: int
  redeemed :: int

definition reversal_deltas :: "order_points_flow \<Rightarrow> uuid \<Rightarrow> ledger_delta list" where
  "reversal_deltas flow order_id =
    (if redeemed flow > 0 then [refund_restore (redeemed flow) order_id] else []) @
    (if earned flow > 0 then [refund_clawback (earned flow) order_id] else [])"

section \<open>Tiers\<close>

fun floor_of :: "points_tier \<Rightarrow> int" where
  "floor_of Tier_Regular = 0"
| "floor_of Tier_Bronze = 500"
| "floor_of Tier_Silver = 2000"
| "floor_of Tier_Gold = 5000"

definition from_balance :: "int \<Rightarrow> points_tier" where
  "from_balance balance =
    (case List.find (\<lambda>t. floor_of t \<le> balance) (rev points_tier_all) of
       Some t \<Rightarrow> t | None \<Rightarrow> Tier_Regular)"

instantiation points_tier :: linorder
begin

definition less_eq_points_tier :: "points_tier \<Rightarrow> points_tier \<Rightarrow> bool" where
  "less_eq_points_tier a b = (floor_of a \<le> floor_of b)"

definition less_points_tier :: "points_tier \<Rightarrow> points_tier \<Rightarrow> bool" where
  "less_points_tier a b = (floor_of a < floor_of b)"

instance
proof
  fix x y z :: points_tier
  show "x < y \<longleftrightarrow> x \<le> y \<and> \<not> y \<le> x" "x \<le> x" "x \<le> y \<or> y \<le> x"
    by (auto simp: less_eq_points_tier_def less_points_tier_def)
  show "x \<le> y \<Longrightarrow> y \<le> z \<Longrightarrow> x \<le> z" by (simp add: less_eq_points_tier_def)
  show "x \<le> y \<Longrightarrow> y \<le> x \<Longrightarrow> x = y"
    by (cases x; cases y) (simp_all add: less_eq_points_tier_def)
qed

end

section \<open>Repository\<close>

definition user_by_id :: "uuid \<Rightarrow> db \<Rightarrow> user option" where
  "user_by_id uid s = fetch_by (\<lambda>u. u_id u = uid) (users s)"

definition find_balance :: "uuid \<Rightarrow> int option sql" where
  "find_balance uid = get_tx (\<lambda>s. map_option u_points_balance (user_by_id uid s))"

definition lock_balance_row :: "uuid \<Rightarrow> int option sql" where
  "lock_balance_row uid = get_tx (\<lambda>s. map_option u_points_balance (user_by_id uid s))"

definition adjust_balance_tx :: "uuid \<Rightarrow> int \<Rightarrow> int option sql" where
  "adjust_balance_tx uid delta = (\<lambda>s.
    case user_by_id uid s of
      None \<Rightarrow> Inr (None, s)
    | Some u \<Rightarrow>
        (let balance = u_points_balance u + delta in
         if \<not> in_i64 balance then Inl NumericOutOfRange
         else if balance < 0 then Inl (CheckViolation ''users_points_balance_check'')
         else Inr (Some balance,
           s\<lparr>users := update_where (\<lambda>r. u_id r = uid)
                        (\<lambda>r. r\<lparr>u_points_balance := balance\<rparr>) (users s)\<rparr>)))"

definition refund_once :: "uuid option \<Rightarrow> point_reason \<Rightarrow> ledger_row list \<Rightarrow> bool" where
  "refund_once order_id reason rows =
    (order_id \<noteq> None \<and> reason \<in> {PR_RefundRestore, PR_RefundClawback} \<and>
     (\<exists>r \<in> set rows. l_order_id r = order_id \<and> l_reason r = reason))"

definition insert_ledger_tx ::
  "uuid \<Rightarrow> int \<Rightarrow> point_reason \<Rightarrow> uuid option \<Rightarrow> instant \<Rightarrow> unit sql" where
  "insert_ledger_tx uid delta reason order_id now =
    bind_tx fresh_uuid (\<lambda>i s.
      if i \<in> l_id ` set (point_ledger s) then Inl (UniqueViolation ''point_ledger_pkey'')
      else if refund_once order_id reason (point_ledger s)
      then Inl (UniqueViolation ''uniq_point_ledger_refund_once'')
      else Inr ((), s\<lparr>point_ledger := point_ledger s @
        [\<lparr>l_id = i, l_user_id = uid, l_delta = delta, l_reason = reason,
          l_order_id = order_id, l_created_at = now\<rparr>]\<rparr>))"

definition cast_bigint :: "int \<Rightarrow> int sql" where
  "cast_bigint x = of_option_tx NumericOutOfRange (checked64 x)"

definition order_sum :: "uuid \<Rightarrow> point_reason \<Rightarrow> db \<Rightarrow> int" where
  "order_sum order_id reason s =
    sum_where (\<lambda>r. l_order_id r = Some order_id \<and> l_reason r = reason) l_delta (point_ledger s)"

definition find_order_flow_sums_tx :: "uuid \<Rightarrow> order_points_flow sql" where
  "find_order_flow_sums_tx order_id =
    bind_tx (get_tx (order_sum order_id PR_CheckoutEarn)) (\<lambda>e.
    bind_tx (get_tx (order_sum order_id PR_CheckoutRedeem)) (\<lambda>r.
    bind_tx (cast_bigint e) (\<lambda>e.
    bind_tx (cast_bigint (- r)) (\<lambda>r.
    return_tx \<lparr>earned = e, redeemed = r\<rparr>))))"

record point_ledger_entry =
  pe_row :: ledger_row
  pe_balance_after :: int

definition newest_first :: "ledger_row list \<Rightarrow> ledger_row list" where
  "newest_first rows = rev (sort_key (\<lambda>r. (l_created_at r, l_id r)) rows)"

definition with_balance_after :: "int \<Rightarrow> ledger_row list \<Rightarrow> point_ledger_entry list" where
  "with_balance_after balance rows =
    map (\<lambda>i. \<lparr>pe_row = rows ! i,
              pe_balance_after = balance - sum_list (map l_delta (take i rows))\<rparr>)
        [0..<length rows]"

definition find_ledger_by_user ::
  "uuid \<Rightarrow> pagination_params \<Rightarrow> point_ledger_entry list sql" where
  "find_ledger_by_user uid p = (\<lambda>s.
    let rows = newest_first (filter (\<lambda>r. l_user_id r = uid) (point_ledger s)) in
    case user_by_id uid s of
      None \<Rightarrow> if rows = [] then Inr ([], s) else Inl (DecodeError ''balance_after'')
    | Some u \<Rightarrow> Inr (page_rows p (with_balance_after (u_points_balance u) rows), s))"

definition count_ledger_by_user :: "uuid \<Rightarrow> int sql" where
  "count_ledger_by_user uid =
    get_tx (\<lambda>s. int (count_where (\<lambda>r. l_user_id r = uid) (point_ledger s)))"

text \<open>
  The month of an instant in the studio's zone: the calendar month that \<open>date_trunc\<close> keeps of a
  local date. It is a function of the local date, a parameter of the query.
\<close>

definition sum_earned_in_studio_month :: "(date \<Rightarrow> int \<times> int) \<Rightarrow> uuid \<Rightarrow> studio_now \<Rightarrow> int sql" where
  "sum_earned_in_studio_month month_of uid at =
    bind_tx (get_tx (\<lambda>s. sum_where (\<lambda>r. l_user_id r = uid \<and> l_reason r = PR_CheckoutEarn \<and>
        month_of (today (sn_tz at) (l_created_at r)) = month_of (studio_today at))
      l_delta (point_ledger s))) cast_bigint"

section \<open>Service\<close>

record balance_lock =
  bl_user_id :: uuid
  bl_balance :: int

definition insufficient_points :: string where
  "insufficient_points = utf8 [233, 187, 158, 230, 149, 184, 228, 184, 141, 232, 182, 179]"

definition lock_balance_tx :: "uuid \<Rightarrow> balance_lock app" where
  "lock_balance_tx uid =
    bind_tx (db_try (lock_balance_row uid)) (\<lambda>b.
    bind_tx (of_option_tx (NotFound ''user not found'') b) (\<lambda>balance.
    return_tx \<lparr>bl_user_id = uid, bl_balance = balance\<rparr>))"

definition balance_error :: "sqlx_error \<Rightarrow> app_error" where
  "balance_error e =
    (if e = CheckViolation ''users_points_balance_check'' then Conflict insufficient_points
     else Database e)"

definition apply_delta_tx :: "balance_lock \<Rightarrow> ledger_delta \<Rightarrow> instant \<Rightarrow> int app" where
  "apply_delta_tx lock ld now =
    (let uid = bl_user_id lock; delta = ld_delta ld in
     bind_tx (ensure_tx (delta \<noteq> 0) (Validation ''delta must be non-zero'')) (\<lambda>_.
     bind_tx (map_err_tx balance_error (adjust_balance_tx uid delta)) (\<lambda>b.
     bind_tx (of_option_tx (Internal (''users row '' @ show_nat uid @
                '' missing under its BalanceLock'')) b) (\<lambda>balance_after.
     bind_tx (db_try (insert_ledger_tx uid delta (ld_reason ld) (ld_order_id ld) now)) (\<lambda>_.
     return_tx balance_after)))))"

definition try_spend_tx :: "uuid \<Rightarrow> int \<Rightarrow> instant \<Rightarrow> int app" where
  "try_spend_tx uid cost now =
    bind_tx (ensure_tx (0 < cost) (Validation ''cost must be positive'')) (\<lambda>_.
    bind_tx (lock_balance_tx uid) (\<lambda>lock.
    bind_tx (ensure_tx (cost \<le> bl_balance lock) (Conflict insufficient_points)) (\<lambda>_.
    apply_delta_tx lock (redeem cost) now)))"

definition reverse_order_tx :: "balance_lock \<Rightarrow> uuid \<Rightarrow> instant \<Rightarrow> unit app" where
  "reverse_order_tx lock order_id now =
    bind_tx (db_try (find_order_flow_sums_tx order_id)) (\<lambda>flow.
    bind_tx (for_tx (\<lambda>ld. apply_delta_tx lock ld now) (reversal_deltas flow order_id)) (\<lambda>_.
    return_tx ()))"

record points_me_response =
  pm_balance :: int
  pm_earned_this_month :: int
  pm_ledger :: "point_ledger_entry list"
  pm_meta :: page_meta

definition get_my_points ::
  "(date \<Rightarrow> int \<times> int) \<Rightarrow> uuid \<Rightarrow> pagination_params \<Rightarrow> studio_now \<Rightarrow> points_me_response app" where
  "get_my_points month_of uid p at =
    bind_tx (db_try (find_balance uid)) (\<lambda>b.
    bind_tx (of_option_tx (NotFound ''user not found'') b) (\<lambda>balance.
    bind_tx (db_try (find_ledger_by_user uid p)) (\<lambda>entries.
    bind_tx (db_try (count_ledger_by_user uid)) (\<lambda>n.
    bind_tx (db_try (sum_earned_in_studio_month month_of uid at)) (\<lambda>month.
    return_tx \<lparr>pm_balance = balance, pm_earned_this_month = month, pm_ledger = entries,
               pm_meta = meta p n\<rparr>)))))"

record adjust_points_request =
  ap_user_id :: uuid
  ap_delta :: int
  ap_expected_balance :: int

definition validate_nonzero_delta :: "int \<Rightarrow> bool" where
  "validate_nonzero_delta delta = (delta \<noteq> 0)"

definition adjust_points :: "adjust_points_request \<Rightarrow> instant \<Rightarrow> (uuid \<times> int) app" where
  "adjust_points req now =
    bind_tx (lock_balance_tx (ap_user_id req)) (\<lambda>lock.
    bind_tx (ensure_tx (bl_balance lock = ap_expected_balance req)
      (Conflict (''balance mismatch: expected '' @ show_int (ap_expected_balance req) @
                 '', actual '' @ show_int (bl_balance lock)))) (\<lambda>_.
    bind_tx (apply_delta_tx lock (admin_adjust (ap_delta req)) now) (\<lambda>balance.
    return_tx (ap_user_id req, balance))))"

section \<open>Abstract view: a balance and its journal\<close>

definition user_balance :: "db \<Rightarrow> uuid \<Rightarrow> int option" where
  "user_balance s uid = map_option u_points_balance (user_by_id uid s)"

definition ledger_sum :: "db \<Rightarrow> uuid \<Rightarrow> int" where
  "ledger_sum s uid = sum_where (\<lambda>r. l_user_id r = uid) l_delta (point_ledger s)"

text \<open>
  The gap between the balance and the sum of the ledger. It is zero for a member whose every change
  went through \<open>apply_delta_tx\<close>; whatever it is, no operation of the program changes it.
\<close>

definition ledger_gap :: "db \<Rightarrow> uuid \<Rightarrow> int option" where
  "ledger_gap s uid = map_option (\<lambda>b. b - ledger_sum s uid) (user_balance s uid)"

locale double_entry =
  fixes bal :: "'s \<Rightarrow> 'k \<Rightarrow> int option"
    and journal :: "'s \<Rightarrow> 'k \<Rightarrow> int"
    and post :: "'l \<Rightarrow> 'd \<Rightarrow> ('s, 'e, int) tx"
    and holder :: "'l \<Rightarrow> 'k"
    and amount :: "'d \<Rightarrow> int"
  assumes post_bal: "post l d s = Inr (b, s') \<Longrightarrow>
      \<exists>b\<^sub>0. bal s (holder l) = Some b\<^sub>0 \<and> b = b\<^sub>0 + amount d \<and> bal s' = (bal s)(holder l \<mapsto> b)"
    and post_journal: "post l d s = Inr (b, s') \<Longrightarrow>
      journal s' k = journal s k + (if k = holder l then amount d else 0)"
    and post_nonneg: "post l d s = Inr (b, s') \<Longrightarrow> 0 \<le> b"
begin

lemma post_gap:
  assumes "post l d s = Inr (b, s')"
  shows "map_option (\<lambda>x. x - journal s' k) (bal s' k) = map_option (\<lambda>x. x - journal s k) (bal s k)"
  using post_bal [OF assms] post_journal [OF assms, of k] by auto

lemma posts_gap:
  "for_tx (post l) ds s = Inr (bs, s') \<Longrightarrow>
    map_option (\<lambda>x. x - journal s' k) (bal s' k) = map_option (\<lambda>x. x - journal s k) (bal s k)"
proof (induction ds arbitrary: s bs)
  case (Cons d ds)
  then obtain b t cs where "post l d s = Inr (b, t)" "for_tx (post l) ds t = Inr (cs, s')"
    by (auto simp: bind_tx_Inr)
  then show ?case using Cons.IH post_gap by metis
qed simp

lemma posts_journal:
  "for_tx (post l) ds s = Inr (bs, s') \<Longrightarrow>
    journal s' k = journal s k + (if k = holder l then sum_list (map amount ds) else 0)"
proof (induction ds arbitrary: s bs)
  case (Cons d ds)
  then obtain b t cs where "post l d s = Inr (b, t)" "for_tx (post l) ds t = Inr (cs, s')"
    by (auto simp: bind_tx_Inr)
  then show ?case using Cons.IH [of t cs] post_journal [of l d s b t k] by auto
qed simp

lemma posts_bal:
  "for_tx (post l) ds s = Inr (bs, s') \<Longrightarrow>
    bal s' k = (if k = holder l then map_option (\<lambda>b. b + sum_list (map amount ds)) (bal s k) else bal s k)"
proof (induction ds arbitrary: s bs)
  case (Cons d ds)
  then obtain b t cs where "post l d s = Inr (b, t)" "for_tx (post l) ds t = Inr (cs, s')"
    by (auto simp: bind_tx_Inr)
  then show ?case using Cons.IH [of t cs] post_bal [of l d s b t] by auto
qed (auto simp: option.map_ident)

lemma posts_never_overdraw:
  "for_tx (post l) ds s = Inr (bs, s') \<Longrightarrow> \<forall>b \<in> set bs. 0 \<le> b"
proof (induction ds arbitrary: s bs)
  case (Cons d ds)
  then show ?case using post_nonneg by (auto simp: bind_tx_Inr)
qed simp

end

lemma user_balance_update:
  "user_balance (s\<lparr>users := update_where (\<lambda>r. u_id r = uid) (\<lambda>r. r\<lparr>u_points_balance := b\<rparr>) (users s)\<rparr>) k
    = (if k = uid then map_option (\<lambda>_. b) (user_balance s k) else user_balance s k)"
proof -
  have "fetch_by (\<lambda>u. u_id u = k)
      (update_where (\<lambda>r. u_id r = uid) (\<lambda>r. r\<lparr>u_points_balance := b\<rparr>) (users s))
    = map_option (\<lambda>r. if u_id r = uid then r\<lparr>u_points_balance := b\<rparr> else r)
        (fetch_by (\<lambda>u. u_id u = k) (users s))"
    by (rule fetch_by_update_where) simp
  then show ?thesis
    by (cases "fetch_by (\<lambda>u. u_id u = k) (users s)")
      (auto simp: user_balance_def user_by_id_def dest: fetch_by_Some)
qed

lemma insert_ledger_tx_Inr:
  assumes "insert_ledger_tx uid d reason oid now s = Inr (x, s')"
  shows "s' = s\<lparr>uuid_pos := uuid_pos s + 1, point_ledger := point_ledger s @
      [\<lparr>l_id = uuid_supply s (uuid_pos s), l_user_id = uid, l_delta = d, l_reason = reason,
        l_order_id = oid, l_created_at = now\<rparr>]\<rparr> \<and>
    \<not> refund_once oid reason (point_ledger s) \<and>
    uuid_supply s (uuid_pos s) \<notin> l_id ` set (point_ledger s)"
  using assms by (simp add: insert_ledger_tx_def split: if_splits)

lemma apply_delta_tx_Inr:
  assumes "apply_delta_tx lock ld now s = Inr (b, s')"
  obtains b\<^sub>0 where "user_balance s (bl_user_id lock) = Some b\<^sub>0" "b = b\<^sub>0 + ld_delta ld"
    "ld_delta ld \<noteq> 0" "0 \<le> b" "in_i64 b"
    "\<not> refund_once (ld_order_id ld) (ld_reason ld) (point_ledger s)"
    "s' = s\<lparr>users := update_where (\<lambda>r. u_id r = bl_user_id lock) (\<lambda>r. r\<lparr>u_points_balance := b\<rparr>) (users s),
      uuid_pos := uuid_pos s + 1, point_ledger := point_ledger s @
      [\<lparr>l_id = uuid_supply s (uuid_pos s), l_user_id = bl_user_id lock, l_delta = ld_delta ld,
        l_reason = ld_reason ld, l_order_id = ld_order_id ld, l_created_at = now\<rparr>]\<rparr>"
  using assms unfolding apply_delta_tx_def Let_def adjust_balance_tx_def
  by (auto simp: bind_tx_Inr user_balance_def split: option.splits if_splits
           dest!: insert_ledger_tx_Inr)

lemma apply_delta_tx_balance:
  assumes "apply_delta_tx lock ld now s = Inr (b, s')"
  shows "user_balance s' = (user_balance s)(bl_user_id lock \<mapsto> b)"
proof
  fix k
  obtain b\<^sub>0 where "user_balance s (bl_user_id lock) = Some b\<^sub>0"
    using assms by (rule apply_delta_tx_Inr)
  moreover have "user_balance s' k = user_balance (s\<lparr>users := update_where
      (\<lambda>r. u_id r = bl_user_id lock) (\<lambda>r. r\<lparr>u_points_balance := b\<rparr>) (users s)\<rparr>) k"
    using assms by (rule apply_delta_tx_Inr) (simp add: user_balance_def user_by_id_def)
  ultimately show "user_balance s' k = ((user_balance s)(bl_user_id lock \<mapsto> b)) k"
    by (simp add: user_balance_update)
qed

interpretation ledger: double_entry user_balance ledger_sum "\<lambda>lock ld. apply_delta_tx lock ld now"
  bl_user_id ld_delta for now
proof
  fix l d s b s' k
  assume a: "apply_delta_tx l d now s = Inr (b, s')"
  show "\<exists>b\<^sub>0. user_balance s (bl_user_id l) = Some b\<^sub>0 \<and> b = b\<^sub>0 + ld_delta d \<and>
      user_balance s' = (user_balance s)(bl_user_id l \<mapsto> b)"
    using a apply_delta_tx_balance [OF a] by (elim apply_delta_tx_Inr) blast
  show "ledger_sum s' k = ledger_sum s k + (if k = bl_user_id l then ld_delta d else 0)"
    using a by (elim apply_delta_tx_Inr) (simp add: ledger_sum_def)
  show "0 \<le> b" using a by (elim apply_delta_tx_Inr)
qed

lemma apply_delta_tx_gap:
  "apply_delta_tx lock ld now s = Inr (b, s') \<Longrightarrow> ledger_gap s' u = ledger_gap s u"
  unfolding ledger_gap_def by (rule ledger.post_gap)

lemma gap_kept_by_deltas [keeps_intros]:
  "keeps (\<lambda>s. ledger_gap s u = g) (apply_delta_tx lock ld now)"
  by (rule keepsI) (simp add: apply_delta_tx_gap)

section \<open>Frames and invariants of the operations\<close>

lemma apply_delta_tx_leaves [leaves_intros]:
  assumes "\<And>s us rows n. g (s\<lparr>users := us, uuid_pos := n, point_ledger := rows\<rparr>) = g s"
  shows "leaves g (apply_delta_tx lock ld now)"
  using assms by (intro leavesI) (elim apply_delta_tx_Inr, simp)

lemma lock_balance_tx_Inr [simp]:
  "lock_balance_tx uid s = Inr (l, s') \<longleftrightarrow>
    s' = s \<and> bl_user_id l = uid \<and> user_balance s uid = Some (bl_balance l)"
  unfolding lock_balance_tx_def lock_balance_row_def user_balance_def
  by (cases l) (auto simp: bind_tx_Inr)

lemma lock_balance_tx_missing:
  "lock_balance_tx uid s = Inl e \<longleftrightarrow> user_balance s uid = None \<and> e = NotFound ''user not found''"
  unfolding lock_balance_tx_def lock_balance_row_def user_balance_def
  by (auto simp: bind_tx_Inl db_try_def map_err_tx_def)

lemma lock_balance_tx_keeps [keeps_intros]: "keeps P (lock_balance_tx uid)"
  by (auto intro: keepsI)

lemma lock_balance_tx_leaves [leaves_intros]: "leaves g (lock_balance_tx uid)"
  by (auto intro: leavesI)

lemma cast_bigint_Inr [simp]: "cast_bigint x s = Inr (y, s') \<longleftrightarrow> y = x \<and> in_i64 x \<and> s' = s"
  by (auto simp: cast_bigint_def)

lemma find_order_flow_sums_tx_Inr:
  "find_order_flow_sums_tx oid s = Inr (flow, s') \<longleftrightarrow> s' = s \<and>
    flow = \<lparr>earned = order_sum oid PR_CheckoutEarn s, redeemed = - order_sum oid PR_CheckoutRedeem s\<rparr> \<and>
    in_i64 (order_sum oid PR_CheckoutEarn s) \<and> in_i64 (- order_sum oid PR_CheckoutRedeem s)"
  by (auto simp: find_order_flow_sums_tx_def bind_tx_Inr)

lemma reads_keep [keeps_intros]:
  "keeps P (find_order_flow_sums_tx oid)" "keeps P (find_balance uid)"
  "keeps P (find_ledger_by_user uid p)" "keeps P (count_ledger_by_user uid)"
  "keeps P (sum_earned_in_studio_month mo uid at)"
  by (auto intro!: keepsI simp: find_order_flow_sums_tx_Inr find_balance_def find_ledger_by_user_def
      count_ledger_by_user_def sum_earned_in_studio_month_def bind_tx_Inr Let_def
      split: option.splits if_splits)

lemma reads_leave [leaves_intros]:
  "leaves g (find_order_flow_sums_tx oid)" "leaves g (find_balance uid)"
  "leaves g (find_ledger_by_user uid p)" "leaves g (count_ledger_by_user uid)"
  by (auto intro!: leavesI simp: find_order_flow_sums_tx_Inr find_balance_def find_ledger_by_user_def
      count_ledger_by_user_def Let_def split: option.splits if_splits)

lemma try_spend_tx_gap [keeps_intros]:
  "keeps (\<lambda>s. ledger_gap s u = g) (try_spend_tx uid cost now)"
  unfolding try_spend_tx_def by (intro keeps_intros)

lemma reverse_order_tx_gap [keeps_intros]:
  "keeps (\<lambda>s. ledger_gap s u = g) (reverse_order_tx lock oid now)"
  unfolding reverse_order_tx_def by (intro keeps_intros)

lemma adjust_points_gap [keeps_intros]:
  "keeps (\<lambda>s. ledger_gap s u = g) (adjust_points req now)"
  unfolding adjust_points_def by (intro keeps_intros)

lemma reverse_order_tx_leaves [leaves_intros]:
  assumes "\<And>s us rows n. g (s\<lparr>users := us, uuid_pos := n, point_ledger := rows\<rparr>) = g s"
  shows "leaves g (reverse_order_tx lock oid now)"
  unfolding reverse_order_tx_def by (intro leaves_intros assms)

lemma try_spend_tx_leaves [leaves_intros]:
  assumes "\<And>s us rows n. g (s\<lparr>users := us, uuid_pos := n, point_ledger := rows\<rparr>) = g s"
  shows "leaves g (try_spend_tx uid cost now)"
  unfolding try_spend_tx_def by (intro leaves_intros assms)

text \<open>
  The deltas of a reversal add up to what the order redeemed minus what it earned, and a delta of
  the wrong sign is never written.
\<close>

lemma wrap64_neg [simp]: "0 \<le> m \<Longrightarrow> in_i64 m \<Longrightarrow> wrap64 (- m) = - m"
  by (rule wrap64_id) (simp add: in_i64_def)

lemma reversal_deltas_sum:
  assumes "in_i64 (earned flow)" "in_i64 (redeemed flow)" "0 \<le> earned flow" "0 \<le> redeemed flow"
  shows "sum_list (map ld_delta (reversal_deltas flow oid)) = redeemed flow - earned flow"
  using assms by (auto simp: reversal_deltas_def refund_restore_def refund_clawback_def)

definition reason_sign :: "point_reason \<Rightarrow> int \<Rightarrow> bool" where
  "reason_sign reason d =
    (case reason of
       PR_CheckoutEarn \<Rightarrow> 0 \<le> d | PR_RefundRestore \<Rightarrow> 0 \<le> d
     | PR_CheckoutRedeem \<Rightarrow> d \<le> 0 | PR_Redeem \<Rightarrow> d \<le> 0 | PR_RefundClawback \<Rightarrow> d \<le> 0
     | PR_AdminAdjust \<Rightarrow> True)"

definition signed_ledger :: "db \<Rightarrow> bool" where
  "signed_ledger s = (\<forall>r \<in> set (point_ledger s). reason_sign (l_reason r) (l_delta r))"

lemma apply_delta_tx_signed:
  assumes "reason_sign (ld_reason ld) (ld_delta ld)"
  shows "keeps signed_ledger (apply_delta_tx lock ld now)"
  using assms by (intro keepsI) (elim apply_delta_tx_Inr, auto simp: signed_ledger_def)

lemma constructors_signed [simp]:
  "0 \<le> m \<Longrightarrow> in_i64 m \<Longrightarrow> reason_sign (ld_reason (checkout_earn m oid)) (ld_delta (checkout_earn m oid))"
  "0 \<le> m \<Longrightarrow> in_i64 m \<Longrightarrow> reason_sign (ld_reason (checkout_redeem m oid)) (ld_delta (checkout_redeem m oid))"
  "0 \<le> m \<Longrightarrow> in_i64 m \<Longrightarrow> reason_sign (ld_reason (redeem m)) (ld_delta (redeem m))"
  "0 \<le> m \<Longrightarrow> in_i64 m \<Longrightarrow> reason_sign (ld_reason (refund_restore m oid)) (ld_delta (refund_restore m oid))"
  "0 \<le> m \<Longrightarrow> in_i64 m \<Longrightarrow> reason_sign (ld_reason (refund_clawback m oid)) (ld_delta (refund_clawback m oid))"
  by (simp_all add: reason_sign_def checkout_earn_def checkout_redeem_def redeem_def
      refund_restore_def refund_clawback_def)

lemma admin_adjust_signed [simp]: "reason_sign (ld_reason (admin_adjust d)) (ld_delta (admin_adjust d))"
  by (simp add: reason_sign_def admin_adjust_def)

lemma signed_flow_nonneg:
  "signed_ledger s \<Longrightarrow> 0 \<le> order_sum oid PR_CheckoutEarn s \<and> order_sum oid PR_CheckoutRedeem s \<le> 0"
proof -
  have "(\<forall>r \<in> set rows. reason_sign (l_reason r) (l_delta r)) \<Longrightarrow>
      0 \<le> sum_where (\<lambda>r. l_order_id r = Some oid \<and> l_reason r = PR_CheckoutEarn) l_delta rows \<and>
      sum_where (\<lambda>r. l_order_id r = Some oid \<and> l_reason r = PR_CheckoutRedeem) l_delta rows \<le> 0"
    for rows by (induction rows) (auto simp: reason_sign_def)
  then show "signed_ledger s \<Longrightarrow> ?thesis" by (simp add: signed_ledger_def order_sum_def)
qed

section \<open>Properties\<close>

text \<open>
  C9. Points are conserved: no operation on points (applying a delta, spending, reversing an order,
  an administrator's adjustment) changes, for any member, the difference between the balance and the
  sum of the member's ledger rows.
\<close>

theorem points_conserved:
  "keeps (\<lambda>s. ledger_gap s u = g) (apply_delta_tx lock ld now) \<and>
   keeps (\<lambda>s. ledger_gap s u = g) (try_spend_tx uid cost now) \<and>
   keeps (\<lambda>s. ledger_gap s u = g) (reverse_order_tx lock oid now) \<and>
   keeps (\<lambda>s. ledger_gap s u = g) (adjust_points req now)"
  by (intro conjI keeps_intros)

lemma try_spend_tx_Inr:
  assumes "try_spend_tx uid cost now s = Inr (b, s')"
  obtains b\<^sub>0 where "user_balance s uid = Some b\<^sub>0" "0 < cost" "cost \<le> b\<^sub>0"
    "b = b\<^sub>0 + wrap64 (- cost)" "user_balance s' = (user_balance s)(uid \<mapsto> b)"
proof -
  obtain l where l: "bl_user_id l = uid" "user_balance s uid = Some (bl_balance l)" "0 < cost"
    "cost \<le> bl_balance l" and run: "apply_delta_tx l (redeem cost) now s = Inr (b, s')"
    using assms unfolding try_spend_tx_def by (auto simp: bind_tx_Inr)
  from run have "b = bl_balance l + wrap64 (- cost)"
    by (rule apply_delta_tx_Inr) (use l in \<open>simp add: redeem_def\<close>)
  then show ?thesis using that l apply_delta_tx_balance [OF run] by simp
qed

lemma reverse_order_tx_Inr:
  assumes "reverse_order_tx lock oid now s = Inr (x, s')" "signed_ledger s"
  obtains flow bs where "flow = \<lparr>earned = order_sum oid PR_CheckoutEarn s,
      redeemed = - order_sum oid PR_CheckoutRedeem s\<rparr>"
    "0 \<le> earned flow" "0 \<le> redeemed flow" "in_i64 (earned flow)" "in_i64 (redeemed flow)"
    "for_tx (\<lambda>ld. apply_delta_tx lock ld now) (reversal_deltas flow oid) s = Inr (bs, s')"
  using assms signed_flow_nonneg [OF assms(2), of oid] unfolding reverse_order_tx_def
  by (auto simp: bind_tx_Inr find_order_flow_sums_tx_Inr)

lemma for_tx_keeps_on:
  "(\<And>x. x \<in> set xs \<Longrightarrow> keeps P (f x)) \<Longrightarrow> keeps P (for_tx f xs)"
  by (induction xs) (auto intro!: keeps_intros)

lemma reverse_order_effect_spec:
  assumes "signed_ledger s" and "reverse_order_tx lock oid now s = Inr (x, s')"
  shows "user_balance s' k =
      (if k = bl_user_id lock
       then map_option (\<lambda>b. b - order_sum oid PR_CheckoutRedeem s - order_sum oid PR_CheckoutEarn s)
         (user_balance s k)
       else user_balance s k) \<and> signed_ledger s'"
proof -
  obtain flow bs where flow: "flow = \<lparr>earned = order_sum oid PR_CheckoutEarn s,
      redeemed = - order_sum oid PR_CheckoutRedeem s\<rparr>"
    and nn: "0 \<le> earned flow" "0 \<le> redeemed flow" "in_i64 (earned flow)" "in_i64 (redeemed flow)"
    and run: "for_tx (\<lambda>ld. apply_delta_tx lock ld now) (reversal_deltas flow oid) s = Inr (bs, s')"
    using reverse_order_tx_Inr [OF assms(2,1)] by blast
  have "keeps signed_ledger (for_tx (\<lambda>ld. apply_delta_tx lock ld now) (reversal_deltas flow oid))"
    using nn by (intro for_tx_keeps_on apply_delta_tx_signed)
      (auto simp: reversal_deltas_def split: if_splits)
  then have "signed_ledger s'" using assms(1) run by (rule keepsD)
  moreover have total: "sum_list (map ld_delta (reversal_deltas flow oid)) =
      - order_sum oid PR_CheckoutRedeem s - order_sum oid PR_CheckoutEarn s"
    using reversal_deltas_sum [OF nn(3,4,1,2)] by (simp add: flow)
  ultimately show ?thesis
    using ledger.posts_bal [OF run, of k, unfolded total] by (simp add: algebra_simps)
qed

text \<open>
  Reversing an order's points gives the member back what the checkout redeemed and takes what it
  earned, touches no other member, leaves every ledger row with the sign its reason fixes, and the
  final balance is never negative.
\<close>

theorem reverse_order_effect:
  assumes "signed_ledger s" and "reverse_order_tx lock oid now s = Inr (x, s')"
  shows "user_balance s' k =
      (if k = bl_user_id lock
       then map_option (\<lambda>b. b - order_sum oid PR_CheckoutRedeem s - order_sum oid PR_CheckoutEarn s)
         (user_balance s k)
       else user_balance s k) \<and> signed_ledger s'"
  using assms by (rule reverse_order_effect_spec)

definition refund_example :: db where
  "refund_example = empty_db\<lparr>users := [member 11 60, member 12 5], point_ledger :=
     [\<lparr>l_id = 10, l_user_id = 11, l_delta = -30, l_reason = PR_CheckoutRedeem,
       l_order_id = Some 7, l_created_at = 0\<rparr>,
      \<lparr>l_id = 11, l_user_id = 11, l_delta = 50, l_reason = PR_CheckoutEarn,
       l_order_id = Some 7, l_created_at = 0\<rparr>]\<rparr>"

lemma reverse_order_effect_witness:
  "\<exists>s'. reverse_order_tx \<lparr>bl_user_id = 11, bl_balance = 60\<rparr> 7 99 refund_example = Inr ((), s') \<and>
    user_balance s' 11 = Some 40 \<and> user_balance s' 12 = Some 5"
proof -
  have "succeeds (reverse_order_tx \<lparr>bl_user_id = 11, bl_balance = 60\<rparr> 7 99 refund_example)"
    by code_simp
  then obtain s' where run:
    "reverse_order_tx \<lparr>bl_user_id = 11, bl_balance = 60\<rparr> 7 99 refund_example = Inr ((), s')"
    by (auto elim: succeedsE)
  have signed: "signed_ledger refund_example" by code_simp
  have sums: "order_sum 7 PR_CheckoutRedeem refund_example = -30"
    "order_sum 7 PR_CheckoutEarn refund_example = 50"
    "user_balance refund_example 11 = Some 60" "user_balance refund_example 12 = Some 5"
    by code_simp+
  show ?thesis
    using reverse_order_effect [OF signed run, of 11] reverse_order_effect [OF signed run, of 12] run
    by (simp add: sums)
qed

lemma posts_ledger:
  "for_tx (\<lambda>ld. apply_delta_tx lock ld now) ds s = Inr (bs, s') \<Longrightarrow>
    \<exists>rows. point_ledger s' = point_ledger s @ rows \<and>
      map (\<lambda>r. (l_user_id r, l_delta r, l_reason r, l_order_id r)) rows =
      map (\<lambda>d. (bl_user_id lock, ld_delta d, ld_reason d, ld_order_id d)) ds"
proof (induction ds arbitrary: s bs)
  case (Cons d ds)
  then obtain b t cs where d: "apply_delta_tx lock d now s = Inr (b, t)"
    and ds: "for_tx (\<lambda>ld. apply_delta_tx lock ld now) ds t = Inr (cs, s')"
    by (auto simp: bind_tx_Inr)
  obtain r where "point_ledger t = point_ledger s @ [r]"
    "l_user_id r = bl_user_id lock" "l_delta r = ld_delta d" "l_reason r = ld_reason d"
    "l_order_id r = ld_order_id d"
    using d by (rule apply_delta_tx_Inr) simp
  moreover obtain rows where "point_ledger s' = point_ledger t @ rows"
    "map (\<lambda>r. (l_user_id r, l_delta r, l_reason r, l_order_id r)) rows =
      map (\<lambda>d. (bl_user_id lock, ld_delta d, ld_reason d, ld_order_id d)) ds"
    using Cons.IH [OF ds] by blast
  ultimately show ?case by (intro exI [of _ "r # rows"]) simp
qed simp

lemma reversed_ledger:
  assumes "reverse_order_tx lock oid now s = Inr (x, s')" "signed_ledger s"
  shows "order_sum oid PR_CheckoutEarn s' = order_sum oid PR_CheckoutEarn s"
    and "order_sum oid PR_CheckoutRedeem s' = order_sum oid PR_CheckoutRedeem s"
    and "order_sum oid PR_CheckoutRedeem s \<noteq> 0 \<Longrightarrow>
      refund_once (Some oid) PR_RefundRestore (point_ledger s')"
    and "order_sum oid PR_CheckoutEarn s \<noteq> 0 \<Longrightarrow>
      refund_once (Some oid) PR_RefundClawback (point_ledger s')"
proof -
  obtain flow bs where flow: "flow = \<lparr>earned = order_sum oid PR_CheckoutEarn s,
      redeemed = - order_sum oid PR_CheckoutRedeem s\<rparr>" "0 \<le> earned flow" "0 \<le> redeemed flow"
    and run: "for_tx (\<lambda>ld. apply_delta_tx lock ld now) (reversal_deltas flow oid) s = Inr (bs, s')"
    using reverse_order_tx_Inr [OF assms] by blast
  obtain rows where rows: "point_ledger s' = point_ledger s @ rows"
    and tags: "map (\<lambda>r. (l_user_id r, l_delta r, l_reason r, l_order_id r)) rows =
      map (\<lambda>d. (bl_user_id lock, ld_delta d, ld_reason d, ld_order_id d)) (reversal_deltas flow oid)"
    using posts_ledger [OF run] by blast
  have reasons: "map (\<lambda>r. (l_reason r, l_order_id r)) rows =
      map (\<lambda>d. (ld_reason d, ld_order_id d)) (reversal_deltas flow oid)"
    using arg_cong [OF tags, of "map (\<lambda>(u, d, r, i). (r, i))"] by (simp add: comp_def)
  have none: "l_reason r \<in> {PR_RefundRestore, PR_RefundClawback}" if "r \<in> set rows" for r
  proof -
    have "(l_reason r, l_order_id r) \<in> set (map (\<lambda>d. (ld_reason d, ld_order_id d)) (reversal_deltas flow oid))"
      unfolding reasons [symmetric] using that by force
    then show ?thesis
      by (auto simp: reversal_deltas_def refund_restore_def refund_clawback_def split: if_splits)
  qed
  have "sum_where (\<lambda>r. l_order_id r = Some oid \<and> l_reason r = c) l_delta rows = 0"
    if "c \<notin> {PR_RefundRestore, PR_RefundClawback}" for c
  proof -
    have "filter (\<lambda>r. l_order_id r = Some oid \<and> l_reason r = c) rows = []"
      using none that by (auto simp: filter_empty_conv)
    then show ?thesis by (simp add: sum_where_def)
  qed
  then show "order_sum oid PR_CheckoutEarn s' = order_sum oid PR_CheckoutEarn s"
    "order_sum oid PR_CheckoutRedeem s' = order_sum oid PR_CheckoutRedeem s"
    by (simp_all add: order_sum_def rows)
  have tagged: "\<exists>r \<in> set rows. l_order_id r = Some oid \<and> l_reason r = c"
    if "(c, Some oid) \<in> set (map (\<lambda>d. (ld_reason d, ld_order_id d)) (reversal_deltas flow oid))" for c
    using that unfolding reasons [symmetric] by auto
  show "order_sum oid PR_CheckoutRedeem s \<noteq> 0 \<Longrightarrow>
      refund_once (Some oid) PR_RefundRestore (point_ledger s')"
    using flow tagged [of PR_RefundRestore]
    by (auto simp: refund_once_def rows reversal_deltas_def refund_restore_def)
  show "order_sum oid PR_CheckoutEarn s \<noteq> 0 \<Longrightarrow>
      refund_once (Some oid) PR_RefundClawback (point_ledger s')"
    using flow tagged [of PR_RefundClawback]
    by (auto simp: refund_once_def rows reversal_deltas_def refund_clawback_def)
qed

text \<open>
  An order's points are reversed at most once: after a reversal that moved points, a second one
  of the same order fails, whoever holds the lock and whenever it runs.
\<close>

theorem reverse_order_once:
  assumes "signed_ledger s" and "reverse_order_tx lock oid now s = Inr (x, s')"
    and "order_sum oid PR_CheckoutRedeem s \<noteq> 0 \<or> order_sum oid PR_CheckoutEarn s \<noteq> 0"
  shows "\<exists>e. reverse_order_tx lock' oid now' s' = Inl e"
proof (rule ccontr)
  assume "\<not> ?thesis"
  then obtain y s'' where again: "reverse_order_tx lock' oid now' s' = Inr (y, s'')"
    by (cases "reverse_order_tx lock' oid now' s'") auto
  have signed: "signed_ledger s'" using reverse_order_effect_spec [OF assms(1,2)] by blast
  obtain flow bs where flow: "flow = \<lparr>earned = order_sum oid PR_CheckoutEarn s',
      redeemed = - order_sum oid PR_CheckoutRedeem s'\<rparr>" "0 \<le> earned flow" "0 \<le> redeemed flow"
    and run: "for_tx (\<lambda>ld. apply_delta_tx lock' ld now') (reversal_deltas flow oid) s' = Inr (bs, s'')"
    using reverse_order_tx_Inr [OF again signed] by blast
  note kept = reversed_ledger [OF assms(2,1)]
  show False
  proof (cases "order_sum oid PR_CheckoutRedeem s = 0")
    case True
    then have "reversal_deltas flow oid = [refund_clawback (earned flow) oid]"
      using assms(3) flow kept by (auto simp: reversal_deltas_def)
    then have "succeeds (apply_delta_tx lock' (refund_clawback (earned flow) oid) now' s')"
      using run by (auto simp: bind_tx_Inr succeeds_def)
    then show False using kept(4) assms(3) True
      by (auto elim!: succeedsE apply_delta_tx_Inr simp: refund_clawback_def)
  next
    case False
    then obtain ds where "reversal_deltas flow oid = refund_restore (redeemed flow) oid # ds"
      using flow kept by (auto simp: reversal_deltas_def)
    then have "succeeds (apply_delta_tx lock' (refund_restore (redeemed flow) oid) now' s')"
      using run by (auto simp: bind_tx_Inr succeeds_def)
    then show False using kept(3) False
      by (auto elim!: succeedsE apply_delta_tx_Inr simp: refund_restore_def)
  qed
qed

lemma reverse_order_once_witness:
  "\<exists>s' e. reverse_order_tx \<lparr>bl_user_id = 11, bl_balance = 60\<rparr> 7 99 refund_example = Inr ((), s') \<and>
    reverse_order_tx \<lparr>bl_user_id = 11, bl_balance = 40\<rparr> 7 100 s' = Inl e"
proof -
  have "succeeds (reverse_order_tx \<lparr>bl_user_id = 11, bl_balance = 60\<rparr> 7 99 refund_example)"
    by code_simp
  then obtain s' where run:
    "reverse_order_tx \<lparr>bl_user_id = 11, bl_balance = 60\<rparr> 7 99 refund_example = Inr ((), s')"
    by (auto elim: succeedsE)
  have signed: "signed_ledger refund_example" by code_simp
  have "order_sum 7 PR_CheckoutRedeem refund_example \<noteq> 0 \<or> order_sum 7 PR_CheckoutEarn refund_example \<noteq> 0"
    by code_simp
  then show ?thesis using reverse_order_once [OF signed run] run by blast
qed

lemma with_balance_after_nth:
  assumes "i < length rows"
  shows "with_balance_after b rows ! i =
    \<lparr>pe_row = rows ! i, pe_balance_after = b - sum_list (map l_delta (take i rows))\<rparr>"
  using assms by (simp add: with_balance_after_def)

lemma length_with_balance_after [simp]: "length (with_balance_after b rows) = length rows"
  by (simp add: with_balance_after_def)

lemma with_balance_after_step:
  assumes "Suc i < length rows"
  shows "pe_balance_after (with_balance_after b rows ! Suc i) =
    pe_balance_after (with_balance_after b rows ! i) - l_delta (pe_row (with_balance_after b rows ! i))"
  using assms by (simp add: with_balance_after_nth take_Suc_conv_app_nth)

lemma find_ledger_by_user_Inr:
  assumes "find_ledger_by_user uid p s = Inr (es, s')" "es \<noteq> []"
  obtains u where "user_by_id uid s = Some u"
    "es = page_rows p (with_balance_after (u_points_balance u)
            (newest_first (filter (\<lambda>r. l_user_id r = uid) (point_ledger s))))"
  using assms by (auto simp: find_ledger_by_user_def Let_def split: option.splits if_splits)

text \<open>
  C4. The ledger a member reads is a chain: on every page each row's \<open>balance_after\<close> minus its own
  delta is the \<open>balance_after\<close> of the next older row, and the first row of the first page shows the
  member's current balance.
\<close>

theorem ledger_page_chain:
  assumes "find_ledger_by_user uid p s = Inr (es, s')"
  shows "(\<forall>i. Suc i < length es \<longrightarrow>
      pe_balance_after (es ! Suc i) = pe_balance_after (es ! i) - l_delta (pe_row (es ! i))) \<and>
    (offset p = 0 \<longrightarrow> es \<noteq> [] \<longrightarrow> Some (pe_balance_after (es ! 0)) = user_balance s uid)"
proof (cases "es = []")
  case False
  then obtain u where u: "user_by_id uid s = Some u"
    and es: "es = page_rows p (with_balance_after (u_points_balance u)
            (newest_first (filter (\<lambda>r. l_user_id r = uid) (point_ledger s))))"
    using assms by (auto elim: find_ledger_by_user_Inr)
  show ?thesis
    using False unfolding es page_rows_def user_balance_def u
    by (auto simp: with_balance_after_nth take_Suc_conv_app_nth)
qed simp

lemma ledger_page_chain_witness:
  "\<exists>es. find_ledger_by_user 11 default_params refund_example = Inr (es, refund_example) \<and>
    pe_balance_after (es ! 1) = pe_balance_after (es ! 0) - l_delta (pe_row (es ! 0))"
proof -
  obtain es where es: "find_ledger_by_user 11 default_params refund_example = Inr (es, refund_example)"
    "Suc 0 < length es"
    by (simp add: find_ledger_by_user_def user_by_id_def refund_example_def empty_db_def member_def
        newest_first_def with_balance_after_def page_rows_def default_params_def limit_def offset_def
        default_page_def default_per_page_def saturating_sub32_def)
  then show ?thesis using ledger_page_chain [OF es(1)] by auto
qed

end
