(* ===== verification/Locking.thy ===== *)
theory Locking
  imports Schema "HOL-Library.Multiset"
begin

text \<open>
  The contract of a lock witness (\<open>ProductLocks\<close>, \<open>CourseLocks\<close>): given the lines a caller wants to
  write, it returns every one of them, ordered by the id of the row each writes, and it refuses a
  line whose row it does not cover. The consequence the lock protocol relies on is
  \<open>same_direction\<close>: two walks through such witnesses never visit two rows in opposite orders, so
  two transactions cannot wait for each other on them.
\<close>

locale lock_order =
  fixes good :: "'w \<Rightarrow> bool"
    and covers :: "'w \<Rightarrow> uuid \<Rightarrow> bool"
    and order :: "'w \<Rightarrow> ('a \<Rightarrow> uuid) \<Rightarrow> 'a list \<Rightarrow> app_error + 'a list"
  assumes order_covered: "good w \<Longrightarrow> (\<And>x. x \<in> set xs \<Longrightarrow> covers w (f x)) \<Longrightarrow>
      \<exists>ys. order w f xs = Inr ys \<and> mset ys = mset xs \<and> sorted (map f ys)"
    and order_uncovered: "good w \<Longrightarrow> x \<in> set xs \<Longrightarrow> \<not> covers w (f x) \<Longrightarrow>
      \<exists>m. order w f xs = Inl (Internal m)"
begin

lemma ordered_lines:
  assumes "good w" "order w f xs = Inr ys"
  shows "mset ys = mset xs" "sorted (map f ys)" "\<And>x. x \<in> set xs \<Longrightarrow> covers w (f x)"
proof -
  show c: "covers w (f x)" if "x \<in> set xs" for x
    using order_uncovered [OF assms(1) that] assms(2) by fastforce
  have "\<exists>zs. order w f xs = Inr zs \<and> mset zs = mset xs \<and> sorted (map f zs)"
    by (rule order_covered [OF assms(1) c])
  then show "mset ys = mset xs" "sorted (map f ys)"
    using assms(2) by auto
qed

lemma order_only_internal:
  assumes "good w" "order w f xs = Inl e"
  shows "\<exists>m. e = Internal m"
proof (cases "\<forall>x \<in> set xs. covers w (f x)")
  case True
  then show ?thesis using order_covered [OF assms(1), of xs f] assms(2) by auto
next
  case False
  then show ?thesis using order_uncovered [OF assms(1)] assms(2) by fastforce
qed

lemma same_direction:
  assumes "good w" "order w f xs = Inr ys" "good w'" "order w' f xs' = Inr ys'"
    and "i < j" "j < length ys" "i' < j'" "j' < length ys'"
    and "f (ys ! i) = f (ys' ! j')" "f (ys ! j) = f (ys' ! i')"
  shows "f (ys ! i) = f (ys ! j)"
proof -
  have "f (ys ! i) \<le> f (ys ! j)"
    using sorted_nth_mono [OF ordered_lines(2) [OF assms(1,2)], of i j] assms(5,6) by simp
  moreover have "f (ys' ! i') \<le> f (ys' ! j')"
    using sorted_nth_mono [OF ordered_lines(2) [OF assms(3,4)], of i' j'] assms(7,8) by simp
  ultimately show ?thesis using assms(9,10) by simp
qed

end

section \<open>Binary search in the locked rows\<close>

text \<open>The search of a row by its key in rows ascending by that key, between two indices.\<close>

function bin_search :: "('r \<Rightarrow> nat) \<Rightarrow> nat \<Rightarrow> 'r list \<Rightarrow> nat \<Rightarrow> nat \<Rightarrow> 'r option" where
  "bin_search key k rows lo hi =
    (if hi \<le> lo then None
     else let mid = lo + (hi - lo) div 2 in
       if key (rows ! mid) = k then Some (rows ! mid)
       else if key (rows ! mid) < k then bin_search key k rows (Suc mid) hi
       else bin_search key k rows lo mid)"
  by pat_completeness auto
termination by (relation "measure (\<lambda>(key, k, rows, lo, hi). hi - lo)") auto

declare bin_search.simps [simp del]

lemma bin_search_sound:
  "bin_search key k rows lo hi = Some r \<Longrightarrow> hi \<le> length rows \<Longrightarrow> r \<in> set rows \<and> key r = k"
proof (induction key k rows lo hi rule: bin_search.induct)
  case (1 key k rows lo hi)
  define mid where "mid = lo + (hi - lo) div 2"
  show ?case
  proof (cases "hi \<le> lo")
    case False
    then have "mid < length rows" "mid \<le> hi" using 1(4) by (simp_all add: mid_def)
    then show ?thesis using 1 False
      by (subst (asm) (3) bin_search.simps) (auto simp: Let_def mid_def [symmetric] split: if_splits)
  qed (use 1(3) in \<open>simp add: bin_search.simps\<close>)
qed

lemma bin_search_complete:
  "sorted (map key rows) \<Longrightarrow> hi \<le> length rows \<Longrightarrow> lo \<le> i \<Longrightarrow> i < hi \<Longrightarrow> key (rows ! i) = k \<Longrightarrow>
    bin_search key k rows lo hi \<noteq> None"
proof (induction key k rows lo hi rule: bin_search.induct)
  case (1 key k rows lo hi)
  define mid where "mid = lo + (hi - lo) div 2"
  have nle: "\<not> hi \<le> lo" using 1(5,6) by simp
  then have mid: "lo \<le> mid" "mid < hi" by (simp_all add: mid_def)
  have mono: "key (rows ! a) \<le> key (rows ! b)" if "a \<le> b" "b < length rows" for a b
    using sorted_nth_mono [OF 1(3), of a b] that by simp
  consider "key (rows ! mid) = k" | "key (rows ! mid) < k" | "k < key (rows ! mid)" by linarith
  then show ?case
  proof cases
    case 1
    then show ?thesis using nle by (subst bin_search.simps) (simp add: Let_def mid_def [symmetric])
  next
    case 2
    then have "mid < i" using mono [of i mid] 1(4,7) mid by (cases "i \<le> mid") auto
    then show ?thesis using 1(1) [OF nle mid_def] 2 1(3-7) nle
      by (subst bin_search.simps) (simp add: Let_def mid_def [symmetric])
  next
    case 3
    then have "i < mid" using mono [of mid i] 1(4,6,7) mid by (cases "mid \<le> i") auto
    then show ?thesis using 1(2) [OF nle mid_def] 3 1(3-7) nle mid
      by (subst bin_search.simps) (simp add: Let_def mid_def [symmetric])
  qed
qed

end
