(* ===== verification/Products.thy ===== *)
theory Products
  imports Points Locking
begin

text \<open>
  Products (\<open>src/modules/products\<close>): the purchase rules of a line, the lock witness
  \<open>ProductLocks\<close> and the reservation and restoration of stock. \<open>ProductLocks\<close>
  is an interpretation of the lock witness contract \<open>lock_order\<close>.
\<close>

section \<open>Text helpers\<close>

fun split_on :: "char \<Rightarrow> string \<Rightarrow> string list" where
  "split_on c [] = [[]]"
| "split_on c (x # xs) =
    (case split_on c xs of
       [] \<Rightarrow> [[x]]
     | w # ws \<Rightarrow> if x = c then [] # w # ws else (x # w) # ws)"

fun join :: "string \<Rightarrow> string list \<Rightarrow> string" where
  "join sep [] = []"
| "join sep [w] = w"
| "join sep (w # ws) = w @ sep @ join sep ws"

definition is_ascii_alphanumeric :: "char \<Rightarrow> bool" where
  "is_ascii_alphanumeric c = (let n = of_char c :: nat in
     (48 \<le> n \<and> n \<le> 57) \<or> (65 \<le> n \<and> n \<le> 90) \<or> (97 \<le> n \<and> n \<le> 122))"

definition slugify :: "string \<Rightarrow> string" where
  "slugify input =
    join ''-'' (filter (\<lambda>w. w \<noteq> [])
      (split_on (CHR ''-'')
        (map (\<lambda>c. if is_ascii_alphanumeric c then c else CHR ''-'') (to_lowercase input))))"

section \<open>The rules of a product line\<close>

definition max_line_quantity :: int where "max_line_quantity = 999"

definition quantity_range_msg :: string where
  "quantity_range_msg = ''quantity must be between 1 and '' @ show_int max_line_quantity"

definition ensure_quantity_in_range :: "int \<Rightarrow> app_error + unit" where
  "ensure_quantity_in_range quantity =
    (if \<not> (1 \<le> quantity \<and> quantity \<le> max_line_quantity)
     then Inl (BadRequest quantity_range_msg) else Inr ())"

definition is_time_based_entitlement :: "product \<Rightarrow> bool" where
  "is_time_based_entitlement p =
    ((p_product_type p = PT_Membership \<or> p_product_type p = PT_Ticket) \<and>
     p_session_count p = None \<and> p_valid_days p \<noteq> None)"

definition ensure_line_quantity :: "product \<Rightarrow> int \<Rightarrow> app_error + unit" where
  "ensure_line_quantity p quantity =
    (case ensure_quantity_in_range quantity of
       Inl e \<Rightarrow> Inl e
     | Inr _ \<Rightarrow>
         if is_time_based_entitlement p \<and> quantity \<noteq> 1
         then Inl (Validation ''time-based subscription quantity must be 1'') else Inr ())"

definition ensure_purchasable :: "product \<Rightarrow> int \<Rightarrow> app_error + unit" where
  "ensure_purchasable p quantity =
    (if \<not> p_is_active p then Inl (BadRequest ''product is not available'')
     else case ensure_line_quantity p quantity of
       Inl e \<Rightarrow> Inl e
     | Inr _ \<Rightarrow>
         (case p_stock p of
            None \<Rightarrow> Inr ()
          | Some stock \<Rightarrow>
              if quantity > stock
              then Inl (Conflict (''insufficient stock: only '' @ show_int stock @ '' available''))
              else Inr ()))"

definition parse_product_type :: "string \<Rightarrow> app_error + product_type" where
  "parse_product_type s =
    (case product_type_from_str s of
       None \<Rightarrow> Inl (Validation (''invalid product_type: '' @ s))
     | Some t \<Rightarrow> Inr t)"

section \<open>The lock witness\<close>

record product_locks =
  pl_rows :: "product list"

definition locked_row :: "product_locks \<Rightarrow> uuid \<Rightarrow> product option" where
  "locked_row locks pid = bin_search p_id pid (pl_rows locks) 0 (length (pl_rows locks))"

definition not_covered_product :: "uuid \<Rightarrow> app_error" where
  "not_covered_product pid =
    Internal (''product '' @ show_nat pid @ '' is not covered by ProductLocks'')"

primrec pair_rows ::
  "product_locks \<Rightarrow> ('a \<Rightarrow> uuid) \<Rightarrow> 'a list \<Rightarrow> app_error + (product \<times> 'a) list" where
  "pair_rows locks f [] = Inr []"
| "pair_rows locks f (x # xs) =
    (case locked_row locks (f x) of
       None \<Rightarrow> Inl (not_covered_product (f x))
     | Some row \<Rightarrow>
         (case pair_rows locks f xs of Inl e \<Rightarrow> Inl e | Inr pairs \<Rightarrow> Inr ((row, x) # pairs)))"

definition rows_in_lock_order ::
  "product_locks \<Rightarrow> ('a \<Rightarrow> uuid) \<Rightarrow> 'a list \<Rightarrow> app_error + (product \<times> 'a) list" where
  "rows_in_lock_order locks f items =
    (case pair_rows locks f items of
       Inl e \<Rightarrow> Inl e
     | Inr pairs \<Rightarrow> Inr (sort_key (\<lambda>(row, _). p_id row) pairs))"

definition in_lock_order ::
  "product_locks \<Rightarrow> ('a \<Rightarrow> uuid) \<Rightarrow> 'a list \<Rightarrow> app_error + 'a list" where
  "in_lock_order locks f items =
    (case rows_in_lock_order locks f items of
       Inl e \<Rightarrow> Inl e
     | Inr pairs \<Rightarrow> Inr (map snd pairs))"

section \<open>Repository\<close>

definition product_by_id :: "uuid \<Rightarrow> db \<Rightarrow> product option" where
  "product_by_id pid s = fetch_by (\<lambda>p. p_id p = pid) (products s)"

definition find_by_id :: "uuid \<Rightarrow> product option sql" where
  "find_by_id pid = get_tx (product_by_id pid)"

definition find_active_by_id :: "uuid \<Rightarrow> product option sql" where
  "find_active_by_id pid =
    get_tx (\<lambda>s. fetch_by (\<lambda>p. p_id p = pid \<and> p_is_active p) (products s))"

definition find_by_slug :: "string \<Rightarrow> product option sql" where
  "find_by_slug slug =
    get_tx (\<lambda>s. fetch_by (\<lambda>p. to_lowercase (p_slug p) = to_lowercase slug) (products s))"

definition find_active_by_slug :: "string \<Rightarrow> product option sql" where
  "find_active_by_slug slug = get_tx (\<lambda>s.
    fetch_by (\<lambda>p. to_lowercase (p_slug p) = to_lowercase slug \<and> p_is_active p) (products s))"

definition count_active :: "product_type option \<Rightarrow> int sql" where
  "count_active t = get_tx (\<lambda>s.
    int (count_where (\<lambda>p. p_is_active p \<and> (t = None \<or> t = Some (p_product_type p))) (products s)))"

definition lock_products_rows :: "uuid list \<Rightarrow> product list sql" where
  "lock_products_rows ids =
    get_tx (\<lambda>s. sort_key p_id (filter (\<lambda>p. p_id p \<in> set ids) (products s)))"

definition set_product :: "uuid \<Rightarrow> product \<Rightarrow> db \<Rightarrow> db" where
  "set_product pid p s = s\<lparr>products := update_where (\<lambda>r. p_id r = pid) (\<lambda>_. p) (products s)\<rparr>"

definition try_decrement_stock_tx :: "uuid \<Rightarrow> int \<Rightarrow> product option sql" where
  "try_decrement_stock_tx pid quantity = (\<lambda>s.
    case product_by_id pid s of
      None \<Rightarrow> Inr (None, s)
    | Some p \<Rightarrow>
        (case p_stock p of
           None \<Rightarrow> Inr (Some p, s)
         | Some stock \<Rightarrow>
             if \<not> quantity \<le> stock then Inr (None, s)
             else if \<not> in_i32 (stock - quantity) then Inl NumericOutOfRange
             else let p' = p\<lparr>p_stock := Some (stock - quantity)\<rparr>
                  in Inr (Some p', set_product pid p' s)))"

definition restore_stock_tx :: "uuid \<Rightarrow> int \<Rightarrow> product option sql" where
  "restore_stock_tx pid quantity = (\<lambda>s.
    case product_by_id pid s of
      None \<Rightarrow> Inr (None, s)
    | Some p \<Rightarrow>
        (case p_stock p of
           None \<Rightarrow> Inr (Some p, s)
         | Some stock \<Rightarrow>
             if \<not> in_i32 (stock + quantity) then Inl NumericOutOfRange
             else if stock + quantity < 0 then Inl (CheckViolation ''products_stock_nonneg'')
             else let p' = p\<lparr>p_stock := Some (stock + quantity)\<rparr>
                  in Inr (Some p', set_product pid p' s)))"

record order_stock_trace =
  st_target :: line_target
  st_quantity :: int
  st_stock_decremented :: bool

text \<open>The decoding of a stored line target: exactly the two shapes of the union are accepted.\<close>

fun decode_target :: "cart_item_type \<Rightarrow> uuid option \<Rightarrow> uuid option \<Rightarrow> sqlx_error + line_target" where
  "decode_target CI_Product (Some i) None = Inr (TargetProduct i)"
| "decode_target CI_Course None (Some i) = Inr (TargetCourse i)"
| "decode_target _ _ _ = Inl (DecodeError ''line target mismatch'')"

definition stock_trace :: "order_item \<Rightarrow> order_stock_trace sql" where
  "stock_trace r =
    bind_tx (of_result_tx (decode_target (oi_item_type r) (oi_product_id r) (oi_course_id r))) (\<lambda>t.
    return_tx \<lparr>st_target = t, st_quantity = oi_quantity r,
               st_stock_decremented = oi_stock_decremented r\<rparr>)"

definition find_stock_traces_by_order_tx :: "uuid \<Rightarrow> order_stock_trace list sql" where
  "find_stock_traces_by_order_tx order_id =
    bind_tx (get_tx (\<lambda>s. sort_key oi_created_at
      (filter (\<lambda>r. oi_order_id r = order_id \<and> oi_item_type r = CI_Product) (order_items s))))
    (for_tx stock_trace)"

section \<open>Service\<close>

definition lock_products_tx :: "uuid list \<Rightarrow> product_locks app" where
  "lock_products_tx ids =
    bind_tx (db_try (lock_products_rows ids)) (\<lambda>rows. return_tx \<lparr>pl_rows = rows\<rparr>)"

primrec reserve_lines ::
  "(product \<times> uuid \<times> int \<times> string) list \<Rightarrow> (uuid \<Rightarrow> product option) \<Rightarrow>
    (uuid \<Rightarrow> product option) app" where
  "reserve_lines [] reserved = return_tx reserved"
| "reserve_lines (x # xs) reserved =
    (case x of (_, pid, quantity, name) \<Rightarrow>
      bind_tx (db_try (try_decrement_stock_tx pid quantity)) (\<lambda>r.
      bind_tx (of_option_tx (Conflict (''insufficient stock for product '' @ name)) r) (\<lambda>p.
      reserve_lines xs (reserved(pid \<mapsto> p)))))"

definition reserve_stock_tx ::
  "product_locks \<Rightarrow> (uuid \<times> int \<times> string) list \<Rightarrow> (uuid \<Rightarrow> product option) app" where
  "reserve_stock_tx locks lines =
    bind_tx (of_result_tx (rows_in_lock_order locks fst lines)) (\<lambda>ordered.
    bind_tx (for_tx (\<lambda>(row, _, quantity, _). of_result_tx (ensure_line_quantity row quantity)) ordered) (\<lambda>_.
    reserve_lines ordered Map.empty))"

fun restock_line :: "order_stock_trace \<Rightarrow> (uuid \<times> int) list" where
  "restock_line tr =
    (case st_target tr of
       TargetProduct pid \<Rightarrow> if st_stock_decremented tr then [(pid, st_quantity tr)] else []
     | TargetCourse _ \<Rightarrow> [])"

definition restock_lines :: "order_stock_trace list \<Rightarrow> (uuid \<times> int) list" where
  "restock_lines traces = concat (map restock_line traces)"

record restock_locks =
  rl_locks :: product_locks
  rl_lines :: "(uuid \<times> int) list"

definition lock_restock_for_order_tx :: "uuid \<Rightarrow> restock_locks app" where
  "lock_restock_for_order_tx order_id =
    bind_tx (db_try (find_stock_traces_by_order_tx order_id)) (\<lambda>traces.
    let lines = restock_lines traces in
    bind_tx (lock_products_tx (map fst lines)) (\<lambda>locks.
    return_tx \<lparr>rl_locks = locks, rl_lines = lines\<rparr>))"

definition restore_line :: "uuid \<times> int \<Rightarrow> unit app" where
  "restore_line l =
    bind_tx (db_try (restore_stock_tx (fst l) (snd l))) (\<lambda>r.
    bind_tx (of_option_tx (Internal (''restore_stock_tx: product '' @ show_nat (fst l) @
      '' not found'')) r) (\<lambda>_. return_tx ()))"

definition restore_for_order_tx :: "restock_locks \<Rightarrow> unit app" where
  "restore_for_order_tx restock =
    bind_tx (of_result_tx (in_lock_order (rl_locks restock) fst (rl_lines restock))) (\<lambda>lines.
    bind_tx (for_tx restore_line lines) (\<lambda>_. return_tx ()))"

section \<open>The witness honours the lock contract\<close>

definition product_locks_ok :: "product_locks \<Rightarrow> bool" where
  "product_locks_ok locks = sorted (map p_id (pl_rows locks))"

definition product_covered :: "product_locks \<Rightarrow> uuid \<Rightarrow> bool" where
  "product_covered locks pid = (pid \<in> set (map p_id (pl_rows locks)))"

lemma locked_row_Some: "locked_row locks pid = Some r \<Longrightarrow> r \<in> set (pl_rows locks) \<and> p_id r = pid"
  unfolding locked_row_def by (rule bin_search_sound) auto

lemma locked_row_None:
  "product_locks_ok locks \<Longrightarrow> locked_row locks pid = None \<longleftrightarrow> \<not> product_covered locks pid"
proof
  assume ok: "product_locks_ok locks" and none: "locked_row locks pid = None"
  show "\<not> product_covered locks pid"
  proof
    assume "product_covered locks pid"
    then obtain i where "i < length (pl_rows locks)" "p_id (pl_rows locks ! i) = pid"
      by (auto simp: product_covered_def in_set_conv_nth)
    then have "bin_search p_id pid (pl_rows locks) 0 (length (pl_rows locks)) \<noteq> None"
      using ok by (intro bin_search_complete) (auto simp: product_locks_ok_def)
    then show False using none by (simp add: locked_row_def)
  qed
next
  assume "\<not> product_covered locks pid"
  then show "locked_row locks pid = None"
    using locked_row_Some by (cases "locked_row locks pid") (auto simp: product_covered_def)
qed

lemma pair_rows_Inr:
  "pair_rows locks f xs = Inr pairs \<Longrightarrow>
    map snd pairs = xs \<and> (\<forall>(row, x) \<in> set pairs. locked_row locks (f x) = Some row)"
  by (induction xs arbitrary: pairs) (auto split: option.splits sum.splits)

lemma pair_rows_covered:
  "(\<forall>x \<in> set xs. locked_row locks (f x) \<noteq> None) \<Longrightarrow> \<exists>pairs. pair_rows locks f xs = Inr pairs"
  by (induction xs) auto

lemma pair_rows_uncovered:
  "x \<in> set xs \<Longrightarrow> locked_row locks (f x) = None \<Longrightarrow> \<exists>m. pair_rows locks f xs = Inl (Internal m)"
  by (induction xs) (auto simp: not_covered_product_def split: option.splits)

lemma rows_in_lock_order_Inr:
  assumes "rows_in_lock_order locks f xs = Inr ordered"
  shows "mset (map snd ordered) = mset xs" "sorted (map f (map snd ordered))"
    and "(row, x) \<in> set ordered \<Longrightarrow> locked_row locks (f x) = Some row \<and> p_id row = f x"
proof -
  obtain pairs where pairs: "pair_rows locks f xs = Inr pairs"
    and ordered: "ordered = sort_key (\<lambda>(row, _). p_id row) pairs"
    using assms by (auto simp: rows_in_lock_order_def split: sum.splits)
  have row: "locked_row locks (f x) = Some row" "p_id row = f x" if "(row, x) \<in> set ordered" for row x
    using pair_rows_Inr [OF pairs] that locked_row_Some by (fastforce simp: ordered)+
  show "mset (map snd ordered) = mset xs"
    using pair_rows_Inr [OF pairs] unfolding ordered mset_map mset_sort by (simp flip: mset_map)
  have "map f (map snd ordered) = map (\<lambda>(row, _). p_id row) ordered"
    using row by (auto simp: split_beta)
  moreover have "sorted (map (\<lambda>(row, _). p_id row) ordered)"
    unfolding ordered by (rule sorted_sort_key)
  ultimately show "sorted (map f (map snd ordered))" by (simp only:)
  show "(row, x) \<in> set ordered \<Longrightarrow> locked_row locks (f x) = Some row \<and> p_id row = f x"
    using row by blast
qed

interpretation product_order: lock_order product_locks_ok product_covered in_lock_order
proof
  fix w and f :: "'a \<Rightarrow> uuid" and xs :: "'a list"
  assume good: "product_locks_ok w"
  {
    assume "\<And>x. x \<in> set xs \<Longrightarrow> product_covered w (f x)"
    then have "\<forall>x \<in> set xs. locked_row w (f x) \<noteq> None" using locked_row_None [OF good] by simp
    then obtain pairs where "pair_rows w f xs = Inr pairs" using pair_rows_covered by blast
    then obtain ordered where o: "rows_in_lock_order w f xs = Inr ordered"
      by (simp add: rows_in_lock_order_def)
    then have "in_lock_order w f xs = Inr (map snd ordered)" by (simp add: in_lock_order_def)
    then show "\<exists>ys. in_lock_order w f xs = Inr ys \<and> mset ys = mset xs \<and> sorted (map f ys)"
      using rows_in_lock_order_Inr(1,2) [OF o] by blast
  }
  fix x
  assume "x \<in> set xs" "\<not> product_covered w (f x)"
  then show "\<exists>m. in_lock_order w f xs = Inl (Internal m)"
    using pair_rows_uncovered [of x xs w f] locked_row_None [OF good]
    by (auto simp: in_lock_order_def rows_in_lock_order_def)
qed

section \<open>Stock\<close>

definition stock_of :: "db \<Rightarrow> uuid \<Rightarrow> int option option" where
  "stock_of s pid = map_option p_stock (product_by_id pid s)"

definition line_sum :: "uuid \<Rightarrow> (uuid \<times> int) list \<Rightarrow> int" where
  "line_sum pid lines = sum_list (map snd (filter (\<lambda>l. fst l = pid) lines))"

definition stock_ok :: "db \<Rightarrow> bool" where
  "stock_ok s = (\<forall>p \<in> set (products s). case p_stock p of None \<Rightarrow> True | Some k \<Rightarrow> 0 \<le> k \<and> in_i32 k)"

lemma line_sum_simps [simp]:
  "line_sum pid [] = 0"
  "line_sum pid (l # ls) = (if fst l = pid then snd l else 0) + line_sum pid ls"
  by (simp_all add: line_sum_def)

lemma line_sum_mset:
  assumes "mset xs = mset ys"
  shows "line_sum pid xs = line_sum pid ys"
proof -
  have "mset (map snd (filter (\<lambda>l. fst l = pid) xs)) = mset (map snd (filter (\<lambda>l. fst l = pid) ys))"
    using assms by simp
  then have "sum_mset (mset (map snd (filter (\<lambda>l. fst l = pid) xs))) =
      sum_mset (mset (map snd (filter (\<lambda>l. fst l = pid) ys)))" by (simp only:)
  then show ?thesis by (simp only: line_sum_def sum_mset_sum_list)
qed

lemma product_by_id_id: "product_by_id pid s = Some p \<Longrightarrow> p_id p = pid"
  unfolding product_by_id_def by (auto dest: fetch_by_Some)

lemma product_by_id_set_product:
  assumes "product_by_id pid s = Some p\<^sub>0" "p_id p = pid"
  shows "product_by_id k (set_product pid p s) = (if k = pid then Some p else product_by_id k s)"
proof -
  have "fetch_by (\<lambda>r. p_id r = k) (update_where (\<lambda>r. p_id r = pid) (\<lambda>_. p) (products s)) =
      map_option (\<lambda>r. if p_id r = pid then p else r) (fetch_by (\<lambda>r. p_id r = k) (products s))"
    by (rule fetch_by_update_where) (use assms in auto)
  then show ?thesis using assms
    by (cases "fetch_by (\<lambda>r. p_id r = k) (products s)")
      (auto simp: product_by_id_def set_product_def dest: fetch_by_Some)
qed

lemma set_product_frame:
  "set_product pid p s = s\<lparr>products := products (set_product pid p s)\<rparr>"
  unfolding set_product_def by (cases s) simp

lemma stock_ok_set_product:
  "stock_ok s \<Longrightarrow> (case p_stock p of None \<Rightarrow> True | Some k \<Rightarrow> 0 \<le> k \<and> in_i32 k) \<Longrightarrow>
    stock_ok (set_product pid p s)"
  unfolding stock_ok_def set_product_def by (auto simp: set_update_where)

lemma stock_ok_frame: "products s' = products s \<Longrightarrow> stock_ok s' = stock_ok s"
  by (simp add: stock_ok_def)

lemma try_decrement_stock_tx_Inr:
  assumes "try_decrement_stock_tx pid q s = Inr (Some p, s')"
  obtains p\<^sub>0 where "product_by_id pid s = Some p\<^sub>0" "p = p\<^sub>0\<lparr>p_stock := map_option (\<lambda>k. k - q) (p_stock p\<^sub>0)\<rparr>"
    "\<And>k. p_stock p\<^sub>0 = Some k \<Longrightarrow> q \<le> k \<and> in_i32 (k - q)"
    "\<And>k. product_by_id k s' = (if k = pid then Some p else product_by_id k s)"
    "s' = s\<lparr>products := products s'\<rparr>"
    "stock_ok s \<Longrightarrow> stock_ok s'"
proof (cases "product_by_id pid s")
  case (Some p\<^sub>0)
  show thesis
  proof (cases "p_stock p\<^sub>0")
    case None
    then have "p = p\<^sub>0" "s' = s" using assms Some by (auto simp: try_decrement_stock_tx_def)
    then show thesis using that [of p\<^sub>0] Some None by (auto simp: )
  next
    case (Some k)
    note k = this
    have r: "q \<le> k" "in_i32 (k - q)" "p = p\<^sub>0\<lparr>p_stock := Some (k - q)\<rparr>" "s' = set_product pid p s"
      using assms k \<open>product_by_id pid s = Some p\<^sub>0\<close>
      by (auto simp: try_decrement_stock_tx_def Let_def split: if_splits)
    have "p_id p = pid" using product_by_id_id [OF \<open>product_by_id pid s = Some p\<^sub>0\<close>] r(3) by simp
    note look = product_by_id_set_product [OF \<open>product_by_id pid s = Some p\<^sub>0\<close> this]
    show thesis
    proof (rule that [OF \<open>product_by_id pid s = Some p\<^sub>0\<close>])
      show "s' = s\<lparr>products := products s'\<rparr>" unfolding r(4) by (rule set_product_frame)
      show "stock_ok s \<Longrightarrow> stock_ok s'" unfolding r(4) using r
        by (intro stock_ok_set_product) simp_all
    qed (use k r look in simp_all)
  qed
qed (use assms in \<open>simp add: try_decrement_stock_tx_def\<close>)

lemma restore_stock_tx_Inr:
  assumes "restore_stock_tx pid q s = Inr (Some p, s')"
  obtains p\<^sub>0 where "product_by_id pid s = Some p\<^sub>0" "p = p\<^sub>0\<lparr>p_stock := map_option (\<lambda>k. k + q) (p_stock p\<^sub>0)\<rparr>"
    "\<And>k. p_stock p\<^sub>0 = Some k \<Longrightarrow> 0 \<le> k + q \<and> in_i32 (k + q)"
    "\<And>k. product_by_id k s' = (if k = pid then Some p else product_by_id k s)"
    "s' = s\<lparr>products := products s'\<rparr>"
    "stock_ok s \<Longrightarrow> stock_ok s'"
proof (cases "product_by_id pid s")
  case (Some p\<^sub>0)
  show thesis
  proof (cases "p_stock p\<^sub>0")
    case None
    then have "p = p\<^sub>0" "s' = s" using assms Some by (auto simp: restore_stock_tx_def)
    then show thesis using that [of p\<^sub>0] Some None by (auto simp: )
  next
    case (Some k)
    note k = this
    have r: "0 \<le> k + q" "in_i32 (k + q)" "p = p\<^sub>0\<lparr>p_stock := Some (k + q)\<rparr>" "s' = set_product pid p s"
      using assms k \<open>product_by_id pid s = Some p\<^sub>0\<close>
      by (auto simp: restore_stock_tx_def Let_def split: if_splits)
    have "p_id p = pid" using product_by_id_id [OF \<open>product_by_id pid s = Some p\<^sub>0\<close>] r(3) by simp
    note look = product_by_id_set_product [OF \<open>product_by_id pid s = Some p\<^sub>0\<close> this]
    show thesis
    proof (rule that [OF \<open>product_by_id pid s = Some p\<^sub>0\<close>])
      show "s' = s\<lparr>products := products s'\<rparr>" unfolding r(4) by (rule set_product_frame)
      show "stock_ok s \<Longrightarrow> stock_ok s'" unfolding r(4) using r
        by (intro stock_ok_set_product) simp_all
    qed (use k r look in simp_all)
  qed
qed (use assms in \<open>simp add: restore_stock_tx_def\<close>)

text \<open>What a change of stock leaves of every product: all but the stock.\<close>

definition but_stock :: "db \<Rightarrow> uuid \<Rightarrow> product option" where
  "but_stock s pid = map_option (\<lambda>p. p\<lparr>p_stock := None\<rparr>) (product_by_id pid s)"

lemma try_decrement_stock_tx_effect:
  assumes "try_decrement_stock_tx pid q s = Inr (Some p, s')"
  shows "stock_of s' k = (if k = pid then map_option (map_option (\<lambda>n. n - q)) (stock_of s k) else stock_of s k)"
    and "but_stock s' k = but_stock s k" and "product_by_id pid s' = Some p"
    and "stock_of s pid = Some (Some n) \<Longrightarrow> q \<le> n"
proof -
  obtain p\<^sub>0 where p: "product_by_id pid s = Some p\<^sub>0" "p = p\<^sub>0\<lparr>p_stock := map_option (\<lambda>k. k - q) (p_stock p\<^sub>0)\<rparr>"
    "\<And>k. p_stock p\<^sub>0 = Some k \<Longrightarrow> q \<le> k \<and> in_i32 (k - q)"
    "\<And>k. product_by_id k s' = (if k = pid then Some p else product_by_id k s)"
    using assms by (rule try_decrement_stock_tx_Inr) blast
  then show "stock_of s' k = (if k = pid then map_option (map_option (\<lambda>n. n - q)) (stock_of s k) else stock_of s k)"
    "but_stock s' k = but_stock s k" "product_by_id pid s' = Some p"
    "stock_of s pid = Some (Some n) \<Longrightarrow> q \<le> n"
    by (simp_all add: stock_of_def but_stock_def)
qed

lemma restore_stock_tx_effect:
  assumes "restore_stock_tx pid q s = Inr (Some p, s')"
  shows "stock_of s' k = (if k = pid then map_option (map_option (\<lambda>n. n + q)) (stock_of s k) else stock_of s k)"
    and "but_stock s' k = but_stock s k"
proof -
  obtain p\<^sub>0 where p: "product_by_id pid s = Some p\<^sub>0" "p = p\<^sub>0\<lparr>p_stock := map_option (\<lambda>k. k + q) (p_stock p\<^sub>0)\<rparr>"
    "\<And>k. product_by_id k s' = (if k = pid then Some p else product_by_id k s)"
    using assms by (rule restore_stock_tx_Inr) blast
  then show "stock_of s' k = (if k = pid then map_option (map_option (\<lambda>n. n + q)) (stock_of s k) else stock_of s k)"
    "but_stock s' k = but_stock s k"
    by (simp_all add: stock_of_def but_stock_def)
qed

definition line_pairs :: "(product \<times> uuid \<times> int \<times> string) list \<Rightarrow> (uuid \<times> int) list" where
  "line_pairs xs = map (\<lambda>(_, pid, q, _). (pid, q)) xs"

lemma reserve_lines_Cons:
  assumes "reserve_lines ((row, pid, q, name) # xs) acc s = Inr (m, s')"
  obtains p t where "try_decrement_stock_tx pid q s = Inr (Some p, t)"
    "reserve_lines xs (acc(pid \<mapsto> p)) t = Inr (m, s')"
  using assms by (auto simp: bind_tx_Inr)

lemma map_option_minus_twice:
  "map_option (map_option (\<lambda>n. n - a)) (map_option (map_option (\<lambda>n. n - b)) x) =
    map_option (map_option (\<lambda>n. n - (b + a :: int))) x"
  by (simp add: option.map_comp comp_def algebra_simps)

lemma map_option_id_int [simp]: "map_option (map_option (\<lambda>n. n)) x = x"
  by (cases x) (simp_all add: option.map_ident)

lemma reserve_lines_stock:
  "reserve_lines xs acc s = Inr (m, s') \<Longrightarrow>
    stock_of s' k = map_option (map_option (\<lambda>n. n - line_sum k (line_pairs xs))) (stock_of s k)"
proof (induction xs arbitrary: acc s)
  case (Cons x xs)
  obtain row pid q name where x: "x = (row, pid, q, name)" by (cases x)
  obtain p t where "try_decrement_stock_tx pid q s = Inr (Some p, t)"
    and "reserve_lines xs (acc(pid \<mapsto> p)) t = Inr (m, s')"
    using Cons.prems unfolding x by (rule reserve_lines_Cons)
  then show ?case using Cons.IH try_decrement_stock_tx_effect(1) [of pid q s p t k]
    by (simp add: x line_pairs_def map_option_minus_twice)
qed (simp add: line_pairs_def)

lemma reserve_lines_frame:
  "reserve_lines xs acc s = Inr (m, s') \<Longrightarrow>
    s' = s\<lparr>products := products s'\<rparr> \<and> (stock_ok s \<longrightarrow> stock_ok s') \<and> but_stock s' k = but_stock s k \<and>
    dom m = dom acc \<union> fst ` set (line_pairs xs)"
proof (induction xs arbitrary: acc s)
  case (Cons x xs)
  obtain row pid q name where x: "x = (row, pid, q, name)" by (cases x)
  obtain p t where d: "try_decrement_stock_tx pid q s = Inr (Some p, t)"
    and r: "reserve_lines xs (acc(pid \<mapsto> p)) t = Inr (m, s')"
    using Cons.prems unfolding x by (rule reserve_lines_Cons)
  have t: "t = s\<lparr>products := products t\<rparr>" "stock_ok s \<Longrightarrow> stock_ok t"
    using d by (rule try_decrement_stock_tx_Inr, blast)+
  have s': "s' = t\<lparr>products := products s'\<rparr>" "stock_ok t \<longrightarrow> stock_ok s'"
    "but_stock s' k = but_stock t k" "dom m = dom (acc(pid \<mapsto> p)) \<union> fst ` set (line_pairs xs)"
    using Cons.IH [OF r] by blast+
  have "s' = s\<lparr>products := products s'\<rparr>" by (subst s'(1), subst t(1)) simp
  then show ?case using t(2) s' try_decrement_stock_tx_effect(2) [OF d, of k]
    by (auto simp: x line_pairs_def)
qed (simp add: line_pairs_def)

lemma reserve_lines_rows:
  "reserve_lines xs acc s = Inr (m, s') \<Longrightarrow> (\<forall>k p. acc k = Some p \<longrightarrow> product_by_id k s = Some p) \<Longrightarrow>
    m k = Some p \<Longrightarrow> product_by_id k s' = Some p"
proof (induction xs arbitrary: acc s)
  case (Cons x xs)
  obtain row pid q name where x: "x = (row, pid, q, name)" by (cases x)
  obtain p' t where d: "try_decrement_stock_tx pid q s = Inr (Some p', t)"
    and r: "reserve_lines xs (acc(pid \<mapsto> p')) t = Inr (m, s')"
    using Cons.prems(1) unfolding x by (rule reserve_lines_Cons)
  have "product_by_id j t = (if j = pid then Some p' else product_by_id j s)" for j
    using d by (rule try_decrement_stock_tx_Inr) blast
  then have "\<forall>j q. (acc(pid \<mapsto> p')) j = Some q \<longrightarrow> product_by_id j t = Some q"
    using Cons.prems(2) by auto
  then show ?case using Cons.IH [OF r _ Cons.prems(3)] by blast
qed simp

lemma for_tx_pure:
  "for_tx f xs s = Inr (ys, s') \<Longrightarrow> (\<And>x s y s'. f x s = Inr (y, s') \<Longrightarrow> s' = s \<and> P x) \<Longrightarrow>
    s' = s \<and> (\<forall>x \<in> set xs. P x)"
proof (induction xs arbitrary: ys)
  case (Cons x xs)
  obtain y t ys' where "f x s = Inr (y, t)" "for_tx f xs t = Inr (ys', s')"
    using Cons.prems(1) by (auto simp: bind_tx_Inr)
  then show ?case using Cons.IH Cons.prems(2) by (metis list.set_intros(1) set_ConsD)
qed simp

lemma reserve_stock_tx_Inr:
  assumes "reserve_stock_tx locks lines s = Inr (m, s')"
  obtains ordered where "rows_in_lock_order locks fst lines = Inr ordered"
    "\<forall>(row, pid, q, name) \<in> set ordered. ensure_line_quantity row q = Inr ()"
    "reserve_lines ordered Map.empty s = Inr (m, s')"
proof -
  obtain ordered ys t where o: "rows_in_lock_order locks fst lines = Inr ordered"
    and f: "for_tx (\<lambda>(row, _, quantity, _). of_result_tx (ensure_line_quantity row quantity)) ordered s = Inr (ys, t)"
    and r: "reserve_lines ordered Map.empty t = Inr (m, s')"
    using assms by (auto simp: reserve_stock_tx_def bind_tx_Inr)
  have ok: "t = s \<and> (\<forall>(row, pid, q, name) \<in> set ordered. ensure_line_quantity row q = Inr ())"
    by (rule for_tx_pure [OF f]) auto
  then show thesis using that [OF o] r by simp
qed

lemma ensure_line_quantity_ok:
  "ensure_line_quantity p q = Inr () \<longleftrightarrow>
    1 \<le> q \<and> q \<le> 999 \<and> (is_time_based_entitlement p \<longrightarrow> q = 1)"
  by (auto simp: ensure_line_quantity_def ensure_quantity_in_range_def max_line_quantity_def)

definition quantities :: "(uuid \<times> int \<times> string) list \<Rightarrow> (uuid \<times> int) list" where
  "quantities lines = map (\<lambda>(pid, q, _). (pid, q)) lines"

lemma reserve_stock_effect_spec:
  assumes "stock_ok s" and "reserve_stock_tx locks lines s = Inr (m, s')"
  shows "(\<forall>pid. stock_of s' pid =
        map_option (map_option (\<lambda>n. n - line_sum pid (quantities lines))) (stock_of s pid)) \<and>
    stock_ok s' \<and> (\<forall>pid. but_stock s' pid = but_stock s pid) \<and> s' = s\<lparr>products := products s'\<rparr> \<and>
    (\<forall>(pid, q, _) \<in> set lines. 1 \<le> q \<and> q \<le> max_line_quantity) \<and>
    dom m = fst ` set lines \<and> (\<forall>pid p. m pid = Some p \<longrightarrow> product_by_id pid s' = Some p)"
proof -
  obtain ordered where o: "rows_in_lock_order locks fst lines = Inr ordered"
    and ok: "\<forall>(row, pid, q, name) \<in> set ordered. ensure_line_quantity row q = Inr ()"
    and r: "reserve_lines ordered Map.empty s = Inr (m, s')"
    using assms(2) by (rule reserve_stock_tx_Inr)
  note same = rows_in_lock_order_Inr(1) [OF o]
  have pairs: "line_pairs ordered = quantities (map snd ordered)"
    by (auto simp: line_pairs_def quantities_def)
  have "mset (quantities (map snd ordered)) = mset (quantities lines)"
    using arg_cong [OF same, of "image_mset (\<lambda>(pid, q, _). (pid, q))"]
    unfolding quantities_def mset_map .
  then have sums: "line_sum pid (line_pairs ordered) = line_sum pid (quantities lines)" for pid
    unfolding pairs by (rule line_sum_mset)
  have sets: "set (map snd ordered) = set lines" using same by (metis set_mset_mset)
  have "fst ` set (line_pairs ordered) = fst ` set (map snd ordered)"
    by (force simp: line_pairs_def)
  then have dom: "dom m = fst ` set lines"
    using reserve_lines_frame [OF r] unfolding sets by simp
  have "\<forall>(pid, q, _) \<in> set (map snd ordered). 1 \<le> q \<and> q \<le> max_line_quantity"
    using ok by (auto simp: ensure_line_quantity_ok max_line_quantity_def)
  then have range: "\<forall>(pid, q, _) \<in> set lines. 1 \<le> q \<and> q \<le> max_line_quantity"
    unfolding sets .
  have stock: "\<forall>pid. stock_of s' pid =
      map_option (map_option (\<lambda>n. n - line_sum pid (quantities lines))) (stock_of s pid)"
    using reserve_lines_stock [OF r] unfolding sums by blast
  have rows: "\<forall>pid p. m pid = Some p \<longrightarrow> product_by_id pid s' = Some p"
    using reserve_lines_rows [OF r] by simp
  have frame: "stock_ok s'" "\<forall>pid. but_stock s' pid = but_stock s pid" "s' = s\<lparr>products := products s'\<rparr>"
    using reserve_lines_frame [OF r] assms(1) by blast+
  show ?thesis using stock frame range dom rows by blast
qed

text \<open>
  A reservation takes exactly what was ordered: every line's quantity is legal for its product, a
  product with finite stock ends with its stock less the quantities of its lines and never below
  zero, unlimited stock stays unlimited, nothing else of a product and no other table changes, and
  the returned map holds exactly the reserved products as they are afterwards.
\<close>

theorem reserve_stock_effect:
  assumes "stock_ok s" and "reserve_stock_tx locks lines s = Inr (m, s')"
  shows "(\<forall>pid. stock_of s' pid =
        map_option (map_option (\<lambda>n. n - line_sum pid (quantities lines))) (stock_of s pid)) \<and>
    stock_ok s' \<and> (\<forall>pid. but_stock s' pid = but_stock s pid) \<and> s' = s\<lparr>products := products s'\<rparr> \<and>
    (\<forall>(pid, q, _) \<in> set lines. 1 \<le> q \<and> q \<le> max_line_quantity) \<and>
    dom m = fst ` set lines \<and> (\<forall>pid p. m pid = Some p \<longrightarrow> product_by_id pid s' = Some p)"
  using assms by (rule reserve_stock_effect_spec)

definition sample_product :: "uuid \<Rightarrow> int \<Rightarrow> int option \<Rightarrow> product" where
  "sample_product i price stock = \<lparr>p_id = i, p_name = ''Mat'', p_slug = ''mat'',
     p_product_type = PT_Merchandise, p_description = None, p_price_cents = price,
     p_original_price_cents = None, p_features = [], p_is_highlighted = False, p_badge = None,
     p_stock = stock, p_valid_days = None, p_session_count = None, p_is_active = True,
     p_created_at = 0\<rparr>"

definition shop_example :: db where
  "shop_example = empty_db\<lparr>products :=
     [sample_product 22 50000 (Some 5), sample_product 21 30000 None]\<rparr>"

definition shop_locks :: product_locks where
  "shop_locks = \<lparr>pl_rows = [sample_product 21 30000 None, sample_product 22 50000 (Some 5)]\<rparr>"

lemma reserve_stock_effect_witness:
  "\<exists>m s'. reserve_stock_tx shop_locks [(22, 3, ''Mat''), (21, 2, ''Mat'')] shop_example = Inr (m, s') \<and>
    stock_of s' 22 = Some (Some 2) \<and> stock_of s' 21 = Some None"
proof -
  have "succeeds (reserve_stock_tx shop_locks [(22, 3, ''Mat''), (21, 2, ''Mat'')] shop_example)"
    by code_simp
  then obtain m s' where run:
    "reserve_stock_tx shop_locks [(22, 3, ''Mat''), (21, 2, ''Mat'')] shop_example = Inr (m, s')"
    by (auto elim: succeedsE)
  have ok: "stock_ok shop_example" by code_simp
  have "stock_of shop_example 22 = Some (Some 5)" "stock_of shop_example 21 = Some None"
    by code_simp+
  then show ?thesis using reserve_stock_effect [OF ok run] run by (simp add: quantities_def)
qed

section \<open>Restoring what a refund takes back\<close>

lemma restore_line_Inr:
  "restore_line l s = Inr (x, s') \<longleftrightarrow> (\<exists>p. restore_stock_tx (fst l) (snd l) s = Inr (Some p, s'))"
  by (auto simp: restore_line_def bind_tx_Inr)

lemma restore_lines_effect:
  "for_tx restore_line ls s = Inr (x, s') \<Longrightarrow>
    stock_of s' k = map_option (map_option (\<lambda>n. n + line_sum k ls)) (stock_of s k) \<and>
    but_stock s' k = but_stock s k \<and> (stock_ok s \<longrightarrow> stock_ok s') \<and> s' = s\<lparr>products := products s'\<rparr>"
proof (induction ls arbitrary: s x)
  case (Cons l ls)
  obtain p t y where d: "restore_stock_tx (fst l) (snd l) s = Inr (Some p, t)"
    and r: "for_tx restore_line ls t = Inr (y, s')"
    using Cons.prems by (auto simp: bind_tx_Inr restore_line_Inr)
  have t: "t = s\<lparr>products := products t\<rparr>" "stock_ok s \<Longrightarrow> stock_ok t"
    using d by (rule restore_stock_tx_Inr, blast)+
  note ih = Cons.IH [OF r]
  have s': "s' = t\<lparr>products := products s'\<rparr>" using ih by blast
  have "s' = s\<lparr>products := products s'\<rparr>" by (subst s', subst t(1)) simp
  moreover have "stock_of s' k = map_option (map_option (\<lambda>n. n + line_sum k (l # ls))) (stock_of s k)"
    using ih restore_stock_tx_effect(1) [OF d, of k]
    by (auto simp: option.map_comp comp_def algebra_simps)
  moreover have "but_stock s' k = but_stock s k" "stock_ok s \<longrightarrow> stock_ok s'"
    using ih restore_stock_tx_effect(2) [OF d, of k] t(2) by auto
  ultimately show ?case by blast
qed simp

lemma line_sum_nonneg: "(\<forall>l \<in> set ls. 0 \<le> snd l) \<Longrightarrow> 0 \<le> line_sum k ls"
  by (induction ls) auto

lemma restore_lines_succeed:
  "(\<forall>l \<in> set ls. 0 \<le> snd l) \<Longrightarrow>
    (\<forall>l \<in> set ls. \<exists>n. stock_of s (fst l) = Some (Some n) \<and> 0 \<le> n \<and> in_i32 (n + line_sum (fst l) ls)) \<Longrightarrow>
    succeeds (for_tx restore_line ls s)"
proof (induction ls arbitrary: s)
  case (Cons l ls)
  obtain n where n: "stock_of s (fst l) = Some (Some n)" "0 \<le> n" "in_i32 (n + line_sum (fst l) (l # ls))"
    using Cons.prems(2) by auto
  have nn: "0 \<le> snd l" "0 \<le> line_sum (fst l) ls" using Cons.prems(1) line_sum_nonneg by auto
  then have "in_i32 (n + snd l)" using n by (auto simp: in_i32_def)
  then obtain p t where d: "restore_stock_tx (fst l) (snd l) s = Inr (Some p, t)"
    using n nn by (auto simp: restore_stock_tx_def stock_of_def Let_def)
  have "succeeds (for_tx restore_line ls t)"
  proof (rule Cons.IH)
    show "\<forall>l \<in> set ls. 0 \<le> snd l" using Cons.prems(1) by simp
    show "\<forall>l' \<in> set ls. \<exists>n. stock_of t (fst l') = Some (Some n) \<and> 0 \<le> n \<and> in_i32 (n + line_sum (fst l') ls)"
    proof
      fix l' assume l': "l' \<in> set ls"
      then obtain m where "stock_of s (fst l') = Some (Some m)" "0 \<le> m"
        "in_i32 (m + line_sum (fst l') (l # ls))"
        using Cons.prems(2) by auto
      then show "\<exists>n. stock_of t (fst l') = Some (Some n) \<and> 0 \<le> n \<and> in_i32 (n + line_sum (fst l') ls)"
        using restore_stock_tx_effect(1) [OF d, of "fst l'"] nn(1)
        by (cases "fst l' = fst l") (auto simp: add.assoc)
    qed
  qed
  moreover have "restore_line l s = Inr ((), t)" using d by (simp add: restore_line_Inr)
  ultimately show ?case by (auto simp: succeeds_def bind_tx_def split: sum.splits)
qed (simp add: succeeds_def)

lemma lock_products_tx_Inr [simp]:
  "lock_products_tx ids s = Inr (locks, s') \<longleftrightarrow>
    s' = s \<and> pl_rows locks = sort_key p_id (filter (\<lambda>p. p_id p \<in> set ids) (products s))"
  by (cases locks) (auto simp: lock_products_tx_def lock_products_rows_def bind_tx_Inr)

lemma lock_products_tx_good:
  assumes "lock_products_tx ids s = Inr (locks, s')"
  shows "product_locks_ok locks"
    and "product_covered locks pid \<longleftrightarrow> pid \<in> set ids \<and> product_by_id pid s \<noteq> None"
  using assms by (auto simp: product_locks_ok_def product_covered_def product_by_id_def fetch_by_None)

lemma restore_for_order_tx_Inr:
  assumes "restore_for_order_tx restock s = Inr (x, s')" "product_locks_ok (rl_locks restock)"
  obtains ls y where "in_lock_order (rl_locks restock) fst (rl_lines restock) = Inr ls"
    "mset ls = mset (rl_lines restock)" "for_tx restore_line ls s = Inr (y, s')"
  using assms product_order.ordered_lines(1)
  by (fastforce simp: restore_for_order_tx_def bind_tx_Inr)

lemma restore_for_order_tx_effect:
  assumes "restore_for_order_tx restock s = Inr (x, s')" "product_locks_ok (rl_locks restock)"
  shows "stock_of s' k = map_option (map_option (\<lambda>n. n + line_sum k (rl_lines restock))) (stock_of s k)"
    and "but_stock s' k = but_stock s k" and "stock_ok s \<Longrightarrow> stock_ok s'"
    and "s' = s\<lparr>products := products s'\<rparr>"
proof -
  obtain ls y where "mset ls = mset (rl_lines restock)" "for_tx restore_line ls s = Inr (y, s')"
    using assms by (rule restore_for_order_tx_Inr)
  then show "stock_of s' k = map_option (map_option (\<lambda>n. n + line_sum k (rl_lines restock))) (stock_of s k)"
    "but_stock s' k = but_stock s k" "stock_ok s \<Longrightarrow> stock_ok s'" "s' = s\<lparr>products := products s'\<rparr>"
    using restore_lines_effect [of ls s y s' k] line_sum_mset [of ls "rl_lines restock" k]
    by (auto intro: line_sum_mset)
qed

definition finite_lines :: "db \<Rightarrow> (uuid \<times> int) list \<Rightarrow> (uuid \<times> int) list" where
  "finite_lines s ls = filter (\<lambda>l. \<exists>n \<in> set_option (stock_of s (fst l)). n \<noteq> None) ls"

lemma finite_lines_iff: "l \<in> set (finite_lines s ls) \<longleftrightarrow> l \<in> set ls \<and> (\<exists>n. stock_of s (fst l) = Some (Some n))"
  by (auto simp: finite_lines_def)

lemma finite_lines_sum:
  "stock_of s k = Some (Some n) \<Longrightarrow> line_sum k (finite_lines s ls) = line_sum k ls"
  by (induction ls) (auto simp: finite_lines_def)

lemma stock_ok_bounds:
  "stock_ok s \<Longrightarrow> stock_of s k = Some (Some n) \<Longrightarrow> 0 \<le> n \<and> in_i32 n"
  by (auto simp: stock_ok_def stock_of_def product_by_id_def dest!: fetch_by_Some split: option.splits)

lemma restore_undoes_reserve_spec:
  assumes "stock_ok s" and "reserve_stock_tx locks lines s = Inr (m, s')"
    and "lock_products_tx (map fst (finite_lines s (quantities lines))) s' = Inr (locks', s')"
  shows "\<exists>s''. restore_for_order_tx
      \<lparr>rl_locks = locks', rl_lines = finite_lines s (quantities lines)\<rparr> s' = Inr ((), s'') \<and>
    (\<forall>pid. stock_of s'' pid = stock_of s pid \<and> but_stock s'' pid = but_stock s pid)"
proof -
  let ?ls = "finite_lines s (quantities lines)"
  let ?restock = "\<lparr>rl_locks = locks', rl_lines = ?ls\<rparr>"
  note res = reserve_stock_effect_spec [OF assms(1,2)]
  have stock': "stock_of s' k = map_option (map_option (\<lambda>n. n - line_sum k (quantities lines))) (stock_of s k)" for k
    using res by blast
  have good: "product_locks_ok locks'" using lock_products_tx_good(1) [OF assms(3)] .
  have cov: "product_covered locks' (fst l)" if "l \<in> set ?ls" for l
  proof -
    have "stock_of s' (fst l) \<noteq> None" using that stock' [of "fst l"] by (auto simp: finite_lines_iff)
    then show ?thesis using that lock_products_tx_good(2) [OF assms(3)]
      by (auto simp: stock_of_def)
  qed
  have "\<exists>ls. in_lock_order locks' fst ?ls = Inr ls \<and> mset ls = mset ?ls \<and> sorted (map fst ls)"
    by (rule product_order.order_covered [OF good cov])
  then obtain ls where o: "in_lock_order locks' fst ?ls = Inr ls" "mset ls = mset ?ls" by blast
  have sets: "set ls = set ?ls" using o(2) by (metis set_mset_mset)
  have sums: "line_sum k ls = line_sum k ?ls" for k using o(2) by (rule line_sum_mset)
  have "succeeds (for_tx restore_line ls s')"
  proof (rule restore_lines_succeed)
    show "\<forall>l \<in> set ls. 0 \<le> snd l"
      using res unfolding sets by (force simp: finite_lines_iff quantities_def)
    show "\<forall>l \<in> set ls. \<exists>n. stock_of s' (fst l) = Some (Some n) \<and> 0 \<le> n \<and> in_i32 (n + line_sum (fst l) ls)"
    proof
      fix l assume "l \<in> set ls"
      then obtain n where n: "stock_of s (fst l) = Some (Some n)" unfolding sets finite_lines_iff by blast
      then have n': "stock_of s' (fst l) = Some (Some (n - line_sum (fst l) (quantities lines)))"
        using stock' by simp
      moreover have "line_sum (fst l) ls = line_sum (fst l) (quantities lines)"
        unfolding sums using n by (rule finite_lines_sum)
      ultimately show "\<exists>n. stock_of s' (fst l) = Some (Some n) \<and> 0 \<le> n \<and> in_i32 (n + line_sum (fst l) ls)"
        using stock_ok_bounds [OF assms(1) n] stock_ok_bounds [OF _ n'] res by simp
    qed
  qed
  then obtain y s'' where "for_tx restore_line ls s' = Inr (y, s'')" by (rule succeedsE)
  then have run: "restore_for_order_tx ?restock s' = Inr ((), s'')"
    using o(1) by (simp add: restore_for_order_tx_def)
  have "stock_of s'' k = stock_of s k \<and> but_stock s'' k = but_stock s k" for k
  proof -
    have "but_stock s' k = but_stock s k" using res by blast
    moreover have "stock_of s'' k = stock_of s k"
    proof (cases "\<exists>n. stock_of s k = Some (Some n)")
      case True
      then obtain n where n: "stock_of s k = Some (Some n)" by blast
      then show ?thesis
        using restore_for_order_tx_effect(1) [OF run, of k] good stock' [of k] finite_lines_sum [OF n] by simp
    next
      case False
      then have "stock_of s k = None \<or> stock_of s k = Some None" by (cases "stock_of s k") auto
      then show ?thesis
        using restore_for_order_tx_effect(1) [OF run, of k] good stock' [of k] by auto
    qed
    ultimately show ?thesis using restore_for_order_tx_effect(2) [OF run, of k] good by simp
  qed
  then show ?thesis using run by blast
qed

text \<open>
  A refund's restoration is the inverse of the checkout's reservation: restoring, under the locks
  the refund takes, the lines that decremented a finite stock always succeeds and gives every
  product its stock back.
\<close>

theorem restore_undoes_reserve:
  assumes "stock_ok s" and "reserve_stock_tx locks lines s = Inr (m, s')"
    and "lock_products_tx (map fst (finite_lines s (quantities lines))) s' = Inr (locks', s')"
  shows "\<exists>s''. restore_for_order_tx
      \<lparr>rl_locks = locks', rl_lines = finite_lines s (quantities lines)\<rparr> s' = Inr ((), s'') \<and>
    (\<forall>pid. stock_of s'' pid = stock_of s pid \<and> but_stock s'' pid = but_stock s pid)"
  using assms by (rule restore_undoes_reserve_spec)

lemma restore_undoes_reserve_witness:
  "\<exists>m s' s'' locks'. reserve_stock_tx shop_locks [(22, 3, ''Mat''), (21, 2, ''Mat'')] shop_example = Inr (m, s') \<and>
    restore_for_order_tx \<lparr>rl_locks = locks', rl_lines = [(22, 3)]\<rparr> s' = Inr ((), s'') \<and>
    stock_of s'' 22 = Some (Some 5)"
proof -
  have "succeeds (reserve_stock_tx shop_locks [(22, 3, ''Mat''), (21, 2, ''Mat'')] shop_example)"
    by code_simp
  then obtain m s' where run:
    "reserve_stock_tx shop_locks [(22, 3, ''Mat''), (21, 2, ''Mat'')] shop_example = Inr (m, s')"
    by (auto elim: succeedsE)
  have ok: "stock_ok shop_example" by code_simp
  have ls: "finite_lines shop_example (quantities [(22, 3, ''Mat''), (21, 2, ''Mat'')]) = [(22, 3)]"
    by code_simp
  obtain locks' where l: "lock_products_tx [22] s' = Inr (locks', s')"
    using that [of "\<lparr>pl_rows = sort_key p_id (filter (\<lambda>p. p_id p \<in> {22}) (products s'))\<rparr>"] by simp
  have "stock_of shop_example 22 = Some (Some 5)" by code_simp
  then show ?thesis using restore_undoes_reserve [OF ok run, of locks'] l run unfolding ls by auto
qed

text \<open>
  Two walks over product rows (a checkout's reservation and a refund's restoration, or two
  checkouts) never visit two different products in opposite orders, so they cannot deadlock on them.
\<close>

theorem product_walks_same_direction:
  assumes "lock_products_tx ids s = Inr (locks, t)" and "lock_products_tx ids' s' = Inr (locks', t')"
    and "in_lock_order locks fst (ls :: (uuid \<times> int) list) = Inr walk"
    and "in_lock_order locks' fst (ls' :: (uuid \<times> int) list) = Inr walk'"
  shows "\<not> (\<exists>i j i' j'. i < j \<and> j < length walk \<and> i' < j' \<and> j' < length walk' \<and>
    fst (walk ! i) = fst (walk' ! j') \<and> fst (walk ! j) = fst (walk' ! i') \<and>
    fst (walk ! i) \<noteq> fst (walk ! j))"
  using product_order.same_direction [where f = "fst :: uuid \<times> int \<Rightarrow> uuid", OF lock_products_tx_good(1) [OF assms(1)] assms(3)
      lock_products_tx_good(1) [OF assms(2)] assms(4)] by blast

lemma product_walks_same_direction_witness:
  "\<exists>locks walk walk'. lock_products_tx [22, 21] shop_example = Inr (locks, shop_example) \<and>
    in_lock_order locks fst [(22 :: uuid, 1 :: int), (21, 2)] = Inr walk \<and>
    in_lock_order locks fst [(21 :: uuid, 4 :: int), (22, 1)] = Inr walk' \<and>
    \<not> (\<exists>i j i' j'. i < j \<and> j < length walk \<and> i' < j' \<and> j' < length walk' \<and>
      fst (walk ! i) = fst (walk' ! j') \<and> fst (walk ! j) = fst (walk' ! i') \<and>
      fst (walk ! i) \<noteq> fst (walk ! j))"
proof -
  have l: "lock_products_tx [22, 21] shop_example = Inr (shop_locks, shop_example)"
    by (simp add: shop_locks_def shop_example_def empty_db_def sample_product_def)
  have "succeeds (in_lock_order shop_locks fst [(22 :: uuid, 1 :: int), (21, 2)])"
    "succeeds (in_lock_order shop_locks fst [(21 :: uuid, 4 :: int), (22, 1)])"
    by code_simp+
  then obtain walk walk' where "in_lock_order shop_locks fst [(22 :: uuid, 1 :: int), (21, 2)] = Inr walk"
    "in_lock_order shop_locks fst [(21 :: uuid, 4 :: int), (22, 1)] = Inr walk'"
    by (auto simp: succeeds_def split: sum.splits)
  then show ?thesis using product_walks_same_direction [OF l l] l by blast
qed

lemma split_on_not_Nil [simp]: "split_on c s \<noteq> []"
  by (induction s) (auto split: list.splits)

lemma split_on_words: "w \<in> set (split_on c s) \<Longrightarrow> x \<in> set w \<Longrightarrow> x \<in> set s \<and> x \<noteq> c"
proof (induction s arbitrary: w)
  case (Cons a s)
  obtain v vs where v: "split_on c s = v # vs" by (cases "split_on c s") simp
  have ih: "x \<in> set s \<and> x \<noteq> c" if "u \<in> set (v # vs)" "x \<in> set u" for u
    using Cons.IH that unfolding v by blast
  show ?case using ih [of v] ih [of w] Cons.prems v by (auto split: if_splits)
qed simp

lemma split_on_word: "c \<notin> set w \<Longrightarrow> split_on c w = [w]"
  by (induction w) auto

lemma split_on_append: "c \<notin> set w \<Longrightarrow> split_on c (w @ c # s) = w # split_on c s"
  by (induction w) (auto split: list.splits)

lemma split_on_join:
  "ws \<noteq> [] \<Longrightarrow> (\<forall>w \<in> set ws. c \<notin> set w) \<Longrightarrow> split_on c (join [c] ws) = ws"
  by (induction "[c]" ws rule: join.induct) (auto simp: split_on_word split_on_append)

lemma set_join: "set (join sep ws) \<subseteq> (\<Union>w \<in> set ws. set w) \<union> set sep"
  by (induction sep ws rule: join.induct) auto

lemma ascii_lower_idem [simp]: "ascii_lower (ascii_lower c) = ascii_lower c"
  by (simp add: ascii_lower_def Let_def)

definition slug_char :: "char \<Rightarrow> char" where
  "slug_char c = (if is_ascii_alphanumeric (ascii_lower c) then ascii_lower c else CHR ''-'')"

lemma slugify_alt:
  "slugify s = join ''-'' (filter (\<lambda>w. w \<noteq> []) (split_on (CHR ''-'') (map slug_char s)))"
  by (simp add: slugify_def to_lowercase_def slug_char_def [abs_def] comp_def)

lemma slug_char_idem [simp]: "slug_char (slug_char c) = slug_char c"
proof -
  have "slug_char (CHR ''-'') = CHR ''-''" by code_simp
  then show ?thesis by (auto simp: slug_char_def)
qed

definition slug_words :: "string \<Rightarrow> string list" where
  "slug_words s = filter (\<lambda>w. w \<noteq> []) (split_on (CHR ''-'') (map slug_char s))"

lemma slug_words_clean:
  "w \<in> set (slug_words s) \<Longrightarrow> w \<noteq> [] \<and> (\<forall>x \<in> set w. slug_char x = x \<and> x \<noteq> CHR ''-'')"
  by (auto simp: slug_words_def dest!: split_on_words)

text \<open>
  Slugs are canonical: a slug is made of non-empty words of lowercase ASCII letters and digits
  joined by single hyphens, and slugifying a slug changes nothing.
\<close>

theorem slugify_canonical:
  "slugify (slugify s) = slugify s \<and>
   slugify s = join ''-'' (slug_words s) \<and>
   (\<forall>w \<in> set (slug_words s). w \<noteq> [] \<and> (\<forall>c \<in> set w. is_ascii_alphanumeric c \<and> ascii_lower c = c))"
proof -
  let ?ws = "slug_words s"
  have form: "slugify s = join ''-'' ?ws" by (simp add: slugify_alt slug_words_def)
  have "slug_char c = c" if "c \<in> set (join ''-'' ?ws)" for c
  proof -
    have "slug_char (CHR ''-'') = CHR ''-''" by code_simp
    then show ?thesis using that set_join [of "''-''" ?ws] slug_words_clean by fastforce
  qed
  then have same: "map slug_char (join ''-'' ?ws) = join ''-'' ?ws" by (intro map_idI) simp
  have "slugify (join ''-'' ?ws) = join ''-'' ?ws"
  proof (cases "?ws = []")
    case True
    then show ?thesis by (simp add: slugify_alt)
  next
    case False
    then have "split_on (CHR ''-'') (join ''-'' ?ws) = ?ws"
      using slug_words_clean by (intro split_on_join) auto
    moreover have "filter (\<lambda>w. w \<noteq> []) ?ws = ?ws" by (simp add: slug_words_def)
    ultimately show ?thesis by (simp add: slugify_alt same)
  qed
  moreover have "is_ascii_alphanumeric c \<and> ascii_lower c = c" if "slug_char c = c" "c \<noteq> CHR ''-''" for c
    using that by (metis ascii_lower_idem slug_char_def)
  ultimately show ?thesis using form slug_words_clean by auto
qed

theorem slugify_canonical_witness:
  "slugify ''Kids  Flow!'' = ''kids-flow'' \<and> slugify (slugify ''Kids  Flow!'') = slugify ''Kids  Flow!'' \<and>
   [] \<notin> set (slug_words ''Kids  Flow!'')"
proof -
  have "slugify ''Kids  Flow!'' = ''kids-flow''" by code_simp
  then show ?thesis using slugify_canonical [of "''Kids  Flow!''"] by blast
qed

end
