(* ===== verification/Carts.thy ===== *)
theory Carts
  imports Products
begin

text \<open>
  The cart (\<open>src/modules/cart\<close>): adding a product merges into the line that is there and judges the
  merged quantity, a course is in the cart at most once, and checkout reads the whole cart, the
  delisted lines included.
\<close>

section \<open>Lines\<close>

fun item_type_of :: "line_target \<Rightarrow> cart_item_type" where
  "item_type_of (TargetProduct _) = CI_Product"
| "item_type_of (TargetCourse _) = CI_Course"

fun product_id_of :: "line_target \<Rightarrow> uuid option" where
  "product_id_of (TargetProduct i) = Some i"
| "product_id_of (TargetCourse _) = None"

fun course_id_of :: "line_target \<Rightarrow> uuid option" where
  "course_id_of (TargetProduct _) = None"
| "course_id_of (TargetCourse i) = Some i"

fun target_id :: "line_target \<Rightarrow> uuid" where
  "target_id (TargetProduct i) = i"
| "target_id (TargetCourse i) = i"

record checkout_line =
  cl_target :: line_target
  cl_quantity :: int
  cl_price_cents :: int
  cl_name :: string
  cl_is_active :: bool

record checkout_targets =
  ct_product_ids :: "uuid list"
  ct_course_ids :: "uuid list"

record cart_item_joined =
  cj_item :: cart_item
  cj_name :: string
  cj_slug :: string
  cj_price_cents :: int
  cj_is_active :: bool

definition checked_line_subtotal :: "int \<Rightarrow> int \<Rightarrow> int option" where
  "checked_line_subtotal price_cents quantity = checked_mul64 price_cents quantity"

record cart_item_response =
  cr_id :: uuid
  cr_item_type :: cart_item_type
  cr_item_id :: uuid
  cr_name :: string
  cr_slug :: string
  cr_quantity :: int
  cr_unit_price_cents :: int
  cr_subtotal_cents :: int
  cr_is_active :: bool

record cart_response =
  cart_response_items :: "cart_item_response list"
  cart_response_total :: int

definition item_response :: "cart_item_joined \<Rightarrow> int \<Rightarrow> cart_item_response" where
  "item_response j subtotal = (let i = cj_item j in
    \<lparr>cr_id = ci_id i, cr_item_type = item_type_of (ci_target i), cr_item_id = target_id (ci_target i),
     cr_name = cj_name j, cr_slug = cj_slug j, cr_quantity = ci_quantity i,
     cr_unit_price_cents = cj_price_cents j, cr_subtotal_cents = subtotal,
     cr_is_active = cj_is_active j\<rparr>)"

primrec from_items_loop ::
  "cart_item_joined list \<Rightarrow> int \<Rightarrow> cart_item_response list \<Rightarrow> app_error + cart_response" where
  "from_items_loop [] tot acc =
    Inr \<lparr>cart_response_items = rev acc, cart_response_total = tot\<rparr>"
| "from_items_loop (j # js) tot acc =
    (case checked_line_subtotal (cj_price_cents j) (ci_quantity (cj_item j)) of
       None \<Rightarrow> Inl (Validation ''cart subtotal overflow'')
     | Some subtotal \<Rightarrow>
         (case checked_add64 tot subtotal of
            None \<Rightarrow> Inl (Validation ''cart total overflow'')
          | Some tot' \<Rightarrow> from_items_loop js tot' (item_response j subtotal # acc)))"

definition from_items :: "cart_item_joined list \<Rightarrow> app_error + cart_response" where
  "from_items items = from_items_loop items 0 []"

section \<open>The course rules a cart asks for\<close>

definition course_line_quantity :: "int \<Rightarrow> app_error + unit" where
  "course_line_quantity quantity =
    (if quantity \<noteq> 1 then Inl (Validation ''course quantity must be 1'') else Inr ())"

definition course_purchasable :: "course \<Rightarrow> app_error + unit" where
  "course_purchasable c =
    (if \<not> c_is_active c then Inl (BadRequest ''course is not available'') else Inr ())"

definition course_by_id :: "uuid \<Rightarrow> db \<Rightarrow> course option" where
  "course_by_id cid s = fetch_by (\<lambda>c. c_id c = cid) (courses s)"

section \<open>Repository\<close>

definition in_cart :: "uuid \<Rightarrow> line_target \<Rightarrow> cart_item \<Rightarrow> bool" where
  "in_cart uid t i = (ci_user_id i = uid \<and> ci_target i = t)"

definition join_item :: "db \<Rightarrow> cart_item \<Rightarrow> cart_item_joined option" where
  "join_item s i =
    (case ci_target i of
       TargetProduct pid \<Rightarrow> map_option (\<lambda>p. \<lparr>cj_item = i, cj_name = p_name p, cj_slug = p_slug p,
         cj_price_cents = p_price_cents p, cj_is_active = p_is_active p\<rparr>) (product_by_id pid s)
     | TargetCourse cid \<Rightarrow> map_option (\<lambda>c. \<lparr>cj_item = i, cj_name = c_name c, cj_slug = c_slug c,
         cj_price_cents = c_price_cents c, cj_is_active = c_is_active c\<rparr>) (course_by_id cid s))"

definition user_cart :: "uuid \<Rightarrow> db \<Rightarrow> cart_item list" where
  "user_cart uid s = sort_key ci_created_at (filter (\<lambda>i. ci_user_id i = uid) (cart_items s))"

definition find_cart_by_user :: "uuid \<Rightarrow> cart_item_joined list sql" where
  "find_cart_by_user uid =
    bind_tx (get_tx (\<lambda>s. map (join_item s) (user_cart uid s)))
      (for_tx (of_option_tx (DecodeError ''name'')))"

definition find_item_by_id :: "uuid \<Rightarrow> uuid \<Rightarrow> cart_item option sql" where
  "find_item_by_id uid iid =
    get_tx (\<lambda>s. fetch_by (\<lambda>i. ci_id i = iid \<and> ci_user_id i = uid) (cart_items s))"

definition insert_cart_item :: "uuid \<Rightarrow> line_target \<Rightarrow> int \<Rightarrow> cart_item sql" where
  "insert_cart_item uid t quantity =
    bind_tx fresh_uuid (\<lambda>i s.
      if i \<in> ci_id ` set (cart_items s) then Inl (UniqueViolation ''cart_items_pkey'')
      else if quantity \<le> 0 then Inl (CheckViolation ''cart_items_quantity_check'')
      else let row = \<lparr>ci_id = i, ci_user_id = uid, ci_target = t, ci_quantity = quantity,
                      ci_created_at = db_now s\<rparr>
           in Inr (row, s\<lparr>cart_items := cart_items s @ [row]\<rparr>))"

definition add_product_item_tx :: "uuid \<Rightarrow> uuid \<Rightarrow> int \<Rightarrow> cart_item sql" where
  "add_product_item_tx uid pid quantity = (\<lambda>s.
    case fetch_by (in_cart uid (TargetProduct pid)) (cart_items s) of
      None \<Rightarrow> insert_cart_item uid (TargetProduct pid) quantity s
    | Some i \<Rightarrow>
        (let q = min (ci_quantity i + quantity) 2147483647 in
         if q \<le> 0 then Inl (CheckViolation ''cart_items_quantity_check'')
         else Inr (i\<lparr>ci_quantity := q\<rparr>,
           s\<lparr>cart_items := update_where (in_cart uid (TargetProduct pid))
               (\<lambda>r. r\<lparr>ci_quantity := q\<rparr>) (cart_items s)\<rparr>)))"

definition add_course_item_row :: "uuid \<Rightarrow> uuid \<Rightarrow> cart_item option sql" where
  "add_course_item_row uid cid = (\<lambda>s.
    case fetch_by (in_cart uid (TargetCourse cid)) (cart_items s) of
      None \<Rightarrow> bind_tx (insert_cart_item uid (TargetCourse cid) 1) (\<lambda>i. return_tx (Some i)) s
    | Some i \<Rightarrow> Inr (None, s))"

definition update_quantity_row :: "uuid \<Rightarrow> uuid \<Rightarrow> int \<Rightarrow> cart_item option sql" where
  "update_quantity_row uid iid quantity = (\<lambda>s.
    case fetch_by (\<lambda>i. ci_id i = iid \<and> ci_user_id i = uid) (cart_items s) of
      None \<Rightarrow> Inr (None, s)
    | Some i \<Rightarrow>
        if quantity \<le> 0 then Inl (CheckViolation ''cart_items_quantity_check'')
        else if item_type_of (ci_target i) = CI_Course \<and> quantity \<noteq> 1
        then Inl (CheckViolation ''cart_items_course_qty'')
        else Inr (Some (i\<lparr>ci_quantity := quantity\<rparr>),
          s\<lparr>cart_items := update_where (\<lambda>i. ci_id i = iid \<and> ci_user_id i = uid)
              (\<lambda>r. r\<lparr>ci_quantity := quantity\<rparr>) (cart_items s)\<rparr>))"

definition remove_item_row :: "uuid \<Rightarrow> uuid \<Rightarrow> bool sql" where
  "remove_item_row uid iid = (\<lambda>s. Inr (
    count_where (\<lambda>i. ci_id i = iid \<and> ci_user_id i = uid) (cart_items s) > 0,
    s\<lparr>cart_items := delete_where (\<lambda>i. ci_id i = iid \<and> ci_user_id i = uid) (cart_items s)\<rparr>))"

definition clear_cart_rows :: "uuid \<Rightarrow> unit sql" where
  "clear_cart_rows uid =
    put_tx (\<lambda>s. s\<lparr>cart_items := delete_where (\<lambda>i. ci_user_id i = uid) (cart_items s)\<rparr>)"

definition targets_of :: "cart_item list \<Rightarrow> checkout_targets" where
  "targets_of items = \<lparr>ct_product_ids = List.map_filter (\<lambda>i. product_id_of (ci_target i)) items,
                       ct_course_ids = List.map_filter (\<lambda>i. course_id_of (ci_target i)) items\<rparr>"

definition find_checkout_targets_rows :: "uuid \<Rightarrow> checkout_targets sql" where
  "find_checkout_targets_rows uid =
    get_tx (\<lambda>s. targets_of (filter (\<lambda>i. ci_user_id i = uid) (cart_items s)))"

definition product_line :: "db \<Rightarrow> cart_item \<Rightarrow> checkout_line option" where
  "product_line s i =
    (case ci_target i of
       TargetProduct pid \<Rightarrow> map_option (\<lambda>p. \<lparr>cl_target = TargetProduct pid, cl_quantity = ci_quantity i,
         cl_price_cents = p_price_cents p, cl_name = p_name p, cl_is_active = p_is_active p\<rparr>)
         (product_by_id pid s)
     | TargetCourse _ \<Rightarrow> None)"

definition course_line :: "db \<Rightarrow> cart_item \<Rightarrow> checkout_line option" where
  "course_line s i =
    (case ci_target i of
       TargetCourse cid \<Rightarrow> map_option (\<lambda>c. \<lparr>cl_target = TargetCourse cid, cl_quantity = ci_quantity i,
         cl_price_cents = c_price_cents c, cl_name = c_name c, cl_is_active = c_is_active c\<rparr>)
         (course_by_id cid s)
     | TargetProduct _ \<Rightarrow> None)"

definition checkout_lines :: "uuid \<Rightarrow> db \<Rightarrow> checkout_line list" where
  "checkout_lines uid s =
    List.map_filter (product_line s) (user_cart uid s) @ List.map_filter (course_line s) (user_cart uid s)"

definition find_cart_items_for_checkout_rows :: "uuid \<Rightarrow> checkout_line list sql" where
  "find_cart_items_for_checkout_rows uid = get_tx (checkout_lines uid)"

section \<open>Service\<close>

definition get_cart :: "uuid \<Rightarrow> cart_response app" where
  "get_cart uid = bind_tx (db_try (find_cart_by_user uid)) (\<lambda>items. of_result_tx (from_items items))"

definition add_product_tx :: "uuid \<Rightarrow> uuid \<Rightarrow> int \<Rightarrow> unit app" where
  "add_product_tx uid pid quantity =
    bind_tx (of_result_tx (ensure_quantity_in_range quantity)) (\<lambda>_.
    bind_tx (db_try (find_by_id pid)) (\<lambda>r.
    bind_tx (of_option_tx (NotFound ''product not found'') r) (\<lambda>p.
    bind_tx (db_try (add_product_item_tx uid pid quantity)) (\<lambda>merged.
    of_result_tx (ensure_purchasable p (ci_quantity merged))))))"

definition add_product_item :: "uuid \<Rightarrow> uuid \<Rightarrow> int \<Rightarrow> cart_response handler" where
  "add_product_item uid pid quantity =
    after_commit (commit_tx (add_product_tx uid pid quantity)) (\<lambda>_. get_cart uid)"

definition add_course_tx :: "uuid \<Rightarrow> uuid \<Rightarrow> int \<Rightarrow> unit app" where
  "add_course_tx uid cid quantity =
    bind_tx (of_result_tx (course_line_quantity quantity)) (\<lambda>_.
    bind_tx (get_tx (course_by_id cid)) (\<lambda>r.
    bind_tx (of_option_tx (NotFound ''course not found'') r) (\<lambda>c.
    bind_tx (of_result_tx (course_purchasable c)) (\<lambda>_.
    bind_tx (db_try (add_course_item_row uid cid)) (\<lambda>inserted.
    bind_tx (of_option_tx (Conflict ''course already in cart'') inserted) (\<lambda>_.
    return_tx ()))))))"

definition add_course_item :: "uuid \<Rightarrow> uuid \<Rightarrow> int \<Rightarrow> cart_response handler" where
  "add_course_item uid cid quantity =
    after_commit (commit_tx (add_course_tx uid cid quantity)) (\<lambda>_. get_cart uid)"

definition add_item :: "uuid \<Rightarrow> string \<Rightarrow> uuid \<Rightarrow> int \<Rightarrow> cart_response handler" where
  "add_item uid item_type iid quantity =
    (case cart_item_type_from_str item_type of
       None \<Rightarrow> (\<lambda>s. (Inl (Validation (''invalid item_type: '' @ item_type)), s))
     | Some CI_Product \<Rightarrow> add_product_item uid iid quantity
     | Some CI_Course \<Rightarrow> add_course_item uid iid quantity)"

definition check_line_update :: "line_target \<Rightarrow> int \<Rightarrow> unit app" where
  "check_line_update target quantity =
    (case target of
       TargetCourse _ \<Rightarrow> of_result_tx (course_line_quantity quantity)
     | TargetProduct pid \<Rightarrow>
         bind_tx (db_try (find_by_id pid)) (\<lambda>r.
         bind_tx (of_option_tx (NotFound ''product not found'') r) (\<lambda>p.
         of_result_tx (ensure_purchasable p quantity))))"

definition update_quantity_tx :: "uuid \<Rightarrow> uuid \<Rightarrow> int \<Rightarrow> unit app" where
  "update_quantity_tx uid iid quantity =
    bind_tx (of_result_tx (ensure_quantity_in_range quantity)) (\<lambda>_.
    bind_tx (db_try (find_item_by_id uid iid)) (\<lambda>r.
    bind_tx (of_option_tx (NotFound ''cart item not found'') r) (\<lambda>item.
    bind_tx (check_line_update (ci_target item) quantity) (\<lambda>_.
    bind_tx (db_try (update_quantity_row uid iid quantity)) (\<lambda>q.
    bind_tx (of_option_tx (NotFound ''cart item not found'') q) (\<lambda>_. return_tx ()))))))"

definition update_quantity :: "uuid \<Rightarrow> uuid \<Rightarrow> int \<Rightarrow> cart_response handler" where
  "update_quantity uid iid quantity =
    after_commit (commit_tx (update_quantity_tx uid iid quantity)) (\<lambda>_. get_cart uid)"

definition remove_item :: "uuid \<Rightarrow> uuid \<Rightarrow> cart_response handler" where
  "remove_item uid iid =
    after_commit (commit_tx (db_try (remove_item_row uid iid))) (\<lambda>removed.
      bind_tx (ensure_tx removed (NotFound ''cart item not found'')) (\<lambda>_. get_cart uid))"

definition clear :: "uuid \<Rightarrow> unit handler" where
  "clear uid = commit_tx (db_try (clear_cart_rows uid))"

definition find_checkout_targets_tx :: "balance_lock \<Rightarrow> checkout_targets app" where
  "find_checkout_targets_tx lock = db_try (find_checkout_targets_rows (bl_user_id lock))"

definition find_cart_items_for_checkout_tx :: "balance_lock \<Rightarrow> checkout_line list app" where
  "find_cart_items_for_checkout_tx lock = db_try (find_cart_items_for_checkout_rows (bl_user_id lock))"

definition clear_cart_tx :: "balance_lock \<Rightarrow> unit app" where
  "clear_cart_tx lock = db_try (clear_cart_rows (bl_user_id lock))"

section \<open>The cart invariant\<close>

definition line_ok :: "cart_item \<Rightarrow> bool" where
  "line_ok i = (1 \<le> ci_quantity i \<and> ci_quantity i \<le> max_line_quantity \<and>
    (item_type_of (ci_target i) = CI_Course \<longrightarrow> ci_quantity i = 1))"

definition line_key :: "cart_item \<Rightarrow> uuid \<times> line_target" where
  "line_key i = (ci_user_id i, ci_target i)"

definition cart_ok :: "db \<Rightarrow> bool" where
  "cart_ok s = (distinct (map line_key (cart_items s)) \<and> (\<forall>i \<in> set (cart_items s). line_ok i))"

definition cart_qty :: "db \<Rightarrow> uuid \<Rightarrow> line_target \<Rightarrow> int option" where
  "cart_qty s uid t = map_option ci_quantity (fetch_by (in_cart uid t) (cart_items s))"

lemma in_cart_key: "in_cart uid t i \<longleftrightarrow> line_key i = (uid, t)"
  by (auto simp: in_cart_def line_key_def)

lemma line_key_quantity [simp]: "line_key (i\<lparr>ci_quantity := q\<rparr>) = line_key i"
  by (simp add: line_key_def)

lemma ensure_quantity_ok: "ensure_quantity_in_range q = Inr () \<longleftrightarrow> 1 \<le> q \<and> q \<le> max_line_quantity"
  by (simp add: ensure_quantity_in_range_def)

lemma ensure_purchasable_ok:
  "ensure_purchasable p q = Inr () \<longleftrightarrow> p_is_active p \<and> ensure_line_quantity p q = Inr () \<and>
    (case p_stock p of None \<Rightarrow> True | Some k \<Rightarrow> q \<le> k)"
  by (auto simp: ensure_purchasable_def split: sum.splits option.splits)

lemma ensure_purchasable_range: "ensure_purchasable p q = Inr () \<Longrightarrow> 1 \<le> q \<and> q \<le> max_line_quantity"
  by (auto simp: ensure_purchasable_ok ensure_line_quantity_ok max_line_quantity_def)

lemma insert_cart_item_Inr:
  "insert_cart_item uid t q s = Inr (i, s') \<longleftrightarrow>
    i = \<lparr>ci_id = uuid_supply s (uuid_pos s), ci_user_id = uid, ci_target = t, ci_quantity = q,
         ci_created_at = db_now s\<rparr> \<and>
    s' = s\<lparr>uuid_pos := uuid_pos s + 1, cart_items := cart_items s @ [i]\<rparr> \<and>
    ci_id i \<notin> ci_id ` set (cart_items s) \<and> 0 < q"
  by (auto simp: insert_cart_item_def Let_def split: if_splits)

lemma update_line_ok:
  assumes "cart_ok s" "\<And>i. i \<in> set (cart_items s) \<Longrightarrow> P i \<Longrightarrow> line_ok (i\<lparr>ci_quantity := q\<rparr>)"
  shows "cart_ok (s\<lparr>cart_items := update_where P (\<lambda>r. r\<lparr>ci_quantity := q\<rparr>) (cart_items s)\<rparr>)"
  using assms by (auto simp: cart_ok_def map_update_where set_update_where)

lemma add_product_item_tx_Inr:
  assumes "add_product_item_tx uid pid q s = Inr (merged, s')" "cart_ok s"
    and "1 \<le> ci_quantity merged" "ci_quantity merged \<le> max_line_quantity"
  shows "cart_ok s'"
    and "ci_quantity merged = q + (case cart_qty s uid (TargetProduct pid) of None \<Rightarrow> 0 | Some k \<Rightarrow> k)"
    and "cart_qty s' k t = (if k = uid \<and> t = TargetProduct pid then Some (ci_quantity merged) else cart_qty s k t)"
    and "s' = s\<lparr>uuid_pos := uuid_pos s', cart_items := cart_items s'\<rparr>"
proof -
  let ?t = "TargetProduct pid"
  have "cart_ok s' \<and> ci_quantity merged = q + (case cart_qty s uid ?t of None \<Rightarrow> 0 | Some k \<Rightarrow> k) \<and>
      cart_qty s' k t = (if k = uid \<and> t = ?t then Some (ci_quantity merged) else cart_qty s k t) \<and>
      s' = s\<lparr>uuid_pos := uuid_pos s', cart_items := cart_items s'\<rparr>"
  proof (cases "fetch_by (in_cart uid ?t) (cart_items s)")
    case None
    then have ins: "merged = \<lparr>ci_id = uuid_supply s (uuid_pos s), ci_user_id = uid, ci_target = ?t,
        ci_quantity = q, ci_created_at = db_now s\<rparr>"
      "s' = s\<lparr>uuid_pos := uuid_pos s + 1, cart_items := cart_items s @ [merged]\<rparr>"
      using assms(1) by (auto simp: add_product_item_tx_def insert_cart_item_Inr)
    have new: "line_key merged \<notin> line_key ` set (cart_items s)"
      using None by (auto simp: fetch_by_None in_cart_key ins(1) line_key_def)
    have look: "fetch_by (in_cart k t) (cart_items s') =
        (if k = uid \<and> t = ?t then Some merged else fetch_by (in_cart k t) (cart_items s))"
      using None by (auto simp: ins in_cart_def split: option.splits)
    show ?thesis
      using assms(2-4) None new look by (auto simp: cart_ok_def cart_qty_def ins line_ok_def)
  next
    case (Some i)
    let ?q = "min (ci_quantity i + q) 2147483647"
    have m: "merged = i\<lparr>ci_quantity := ?q\<rparr>" "s' = s\<lparr>cart_items := update_where (in_cart uid ?t)
        (\<lambda>r. r\<lparr>ci_quantity := ?q\<rparr>) (cart_items s)\<rparr>"
      using assms(1) Some by (auto simp: add_product_item_tx_def Let_def split: if_splits)
    have q: "?q = ci_quantity i + q" using assms(4) m(1) by (simp add: max_line_quantity_def)
    have "cart_ok s'" unfolding m(2)
      using assms(2-4) m(1) by (intro update_line_ok) (auto simp: line_ok_def in_cart_def)
    moreover have look: "fetch_by (in_cart k t) (cart_items s') =
        map_option (\<lambda>r. if in_cart uid ?t r then r\<lparr>ci_quantity := ?q\<rparr> else r)
          (fetch_by (in_cart k t) (cart_items s))"
      unfolding m(2) by (simp, rule fetch_by_update_where) (simp add: in_cart_key)
    moreover have "cart_qty s' k t =
        (if k = uid \<and> t = ?t then Some (ci_quantity merged) else cart_qty s k t)"
      unfolding cart_qty_def look using Some q m(1) fetch_by_Some [of "in_cart k t" "cart_items s"]
      by (cases "fetch_by (in_cart k t) (cart_items s)") (auto simp: in_cart_def)
    moreover have "s' = s\<lparr>uuid_pos := uuid_pos s', cart_items := cart_items s'\<rparr>"
      unfolding m(2) by simp
    ultimately show ?thesis using Some q m(1) by (simp add: cart_qty_def)
  qed
  then show "cart_ok s'"
    "ci_quantity merged = q + (case cart_qty s uid (TargetProduct pid) of None \<Rightarrow> 0 | Some k \<Rightarrow> k)"
    "cart_qty s' k t = (if k = uid \<and> t = TargetProduct pid then Some (ci_quantity merged) else cart_qty s k t)"
    "s' = s\<lparr>uuid_pos := uuid_pos s', cart_items := cart_items s'\<rparr>"
    by blast+
qed

lemma add_product_tx_Inr:
  assumes "add_product_tx uid pid q s = Inr (x, s')"
  obtains p merged where "product_by_id pid s = Some p" "1 \<le> q" "q \<le> max_line_quantity"
    "add_product_item_tx uid pid q s = Inr (merged, s')" "ensure_purchasable p (ci_quantity merged) = Inr ()"
  using assms by (auto simp: add_product_tx_def bind_tx_Inr find_by_id_def ensure_quantity_ok)

lemma add_product_tx_cart_ok [keeps_intros]: "keeps cart_ok (add_product_tx uid pid q)"
proof (rule keepsI)
  fix s x s' assume "cart_ok s" "add_product_tx uid pid q s = Inr (x, s')"
  then show "cart_ok s'"
    by (elim add_product_tx_Inr) (use add_product_item_tx_Inr(1) ensure_purchasable_range in blast)
qed

lemma add_course_tx_cart_ok [keeps_intros]: "keeps cart_ok (add_course_tx uid cid q)"
proof (rule keepsI)
  fix s x s' assume ok: "cart_ok s" and run: "add_course_tx uid cid q s = Inr (x, s')"
  obtain i where none: "fetch_by (in_cart uid (TargetCourse cid)) (cart_items s) = None"
    and ins: "insert_cart_item uid (TargetCourse cid) 1 s = Inr (i, s')"
    using run by (auto simp: add_course_tx_def bind_tx_Inr add_course_item_row_def split: option.splits)
  have s': "s' = s\<lparr>uuid_pos := uuid_pos s + 1, cart_items := cart_items s @ [i]\<rparr>"
    and i: "ci_user_id i = uid" "ci_target i = TargetCourse cid" "ci_quantity i = 1"
    using ins unfolding insert_cart_item_Inr by simp_all
  have "line_key i \<notin> line_key ` set (cart_items s)"
    using none i by (auto simp: fetch_by_None in_cart_key line_key_def)
  then show "cart_ok s'"
    using ok i by (auto simp: s' cart_ok_def line_ok_def max_line_quantity_def)
qed

lemma update_quantity_row_Inr:
  assumes "update_quantity_row uid iid q s = Inr (Some i, s')"
  obtains i\<^sub>0 where "fetch_by (\<lambda>i. ci_id i = iid \<and> ci_user_id i = uid) (cart_items s) = Some i\<^sub>0"
    "s' = s\<lparr>cart_items := update_where (\<lambda>i. ci_id i = iid \<and> ci_user_id i = uid)
       (\<lambda>r. r\<lparr>ci_quantity := q\<rparr>) (cart_items s)\<rparr>"
    "item_type_of (ci_target i\<^sub>0) = CI_Course \<Longrightarrow> q = 1"
  using assms by (auto simp: update_quantity_row_def split: option.splits if_splits)

text \<open>
  The invariant of the cart table with its primary key, under which an update by id changes one row.
\<close>

definition cart_wf :: "db \<Rightarrow> bool" where
  "cart_wf s = (cart_ok s \<and> distinct (map ci_id (cart_items s)))"

lemma check_line_update_state: "check_line_update t q s = Inr (x, s') \<Longrightarrow> s' = s"
  by (cases t) (auto simp: check_line_update_def bind_tx_Inr find_by_id_def)

lemma update_quantity_tx_cart_wf [keeps_intros]: "keeps cart_wf (update_quantity_tx uid iid q)"
proof (rule keepsI)
  fix s x s' assume wf: "cart_wf s" and run: "update_quantity_tx uid iid q s = Inr (x, s')"
  obtain i where q: "1 \<le> q" "q \<le> max_line_quantity"
    and u: "update_quantity_row uid iid q s = Inr (Some i, s')"
    using run by (auto simp: update_quantity_tx_def bind_tx_Inr find_item_by_id_def ensure_quantity_ok
        dest!: check_line_update_state)
  obtain i\<^sub>0 where i: "fetch_by (\<lambda>i. ci_id i = iid \<and> ci_user_id i = uid) (cart_items s) = Some i\<^sub>0"
    and s': "s' = s\<lparr>cart_items := update_where (\<lambda>i. ci_id i = iid \<and> ci_user_id i = uid)
       (\<lambda>r. r\<lparr>ci_quantity := q\<rparr>) (cart_items s)\<rparr>"
    and course: "item_type_of (ci_target i\<^sub>0) = CI_Course \<Longrightarrow> q = 1"
    using u by (rule update_quantity_row_Inr) blast
  have "j = i\<^sub>0" if "j \<in> set (cart_items s)" "ci_id j = iid" for j
    using wf that fetch_by_Some [OF i] by (auto simp: cart_wf_def dest: inj_onD [OF distinct_map [THEN iffD1, THEN conjunct2]])
  then have "cart_ok s'" unfolding s' using wf q course
    by (intro update_line_ok) (auto simp: cart_wf_def line_ok_def)
  then show "cart_wf s'" using wf unfolding cart_wf_def s' by (simp add: map_update_where)
qed

lemma distinct_map_filter_sub: "distinct (map f xs) \<Longrightarrow> distinct (map f (filter P xs))"
  by (induction xs) auto

lemma delete_cart_wf:
  "cart_wf s \<Longrightarrow> cart_wf (s\<lparr>cart_items := delete_where P (cart_items s)\<rparr>)"
  by (auto simp: cart_wf_def cart_ok_def delete_where_def distinct_map_filter_sub)

lemma remove_item_row_cart_wf [keeps_intros]: "keeps cart_wf (remove_item_row uid iid)"
  by (auto simp: keeps_def remove_item_row_def delete_cart_wf)

lemma clear_cart_rows_cart_wf [keeps_intros]: "keeps cart_wf (clear_cart_rows uid)"
  by (auto simp: keeps_def clear_cart_rows_def delete_cart_wf)

lemma insert_cart_item_ids [keeps_intros]:
  "keeps (\<lambda>s. distinct (map ci_id (cart_items s))) (insert_cart_item uid t q)"
  by (rule keepsI) (auto simp: insert_cart_item_Inr)

lemma add_product_item_tx_ids [keeps_intros]:
  "keeps (\<lambda>s. distinct (map ci_id (cart_items s))) (add_product_item_tx uid pid q)"
  using insert_cart_item_ids [of uid "TargetProduct pid" q]
  by (auto simp: add_product_item_tx_def keeps_def map_update_where Let_def split: option.splits if_splits)

lemma find_by_id_keeps [keeps_intros]: "keeps P (find_by_id pid)"
  by (auto simp: find_by_id_def)

lemma find_by_id_leaves [leaves_intros]: "leaves g (find_by_id pid)"
  by (auto simp: find_by_id_def)

lemma add_product_tx_cart_wf: "keeps cart_wf (add_product_tx uid pid q)"
proof -
  have "keeps (\<lambda>s. distinct (map ci_id (cart_items s))) (add_product_tx uid pid q)"
    unfolding add_product_tx_def by (intro keeps_intros)
  then show ?thesis using add_product_tx_cart_ok [of uid pid q]
    unfolding cart_wf_def keeps_def by blast
qed

lemma add_course_tx_cart_wf: "keeps cart_wf (add_course_tx uid cid q)"
proof -
  have "keeps (\<lambda>s. distinct (map ci_id (cart_items s))) (add_course_item_row uid cid)"
    using insert_cart_item_ids [of uid "TargetCourse cid" 1]
    by (auto simp: add_course_item_row_def keeps_def bind_tx_Inr split: option.splits)
  then have "keeps (\<lambda>s. distinct (map ci_id (cart_items s))) (add_course_tx uid cid q)"
    unfolding add_course_tx_def by (intro keeps_intros)
  then show ?thesis using add_course_tx_cart_ok [of uid cid q]
    unfolding cart_wf_def keeps_def by blast
qed

lemma for_option_leaves [leaves_intros]: "leaves g (for_tx (of_option_tx e) xs)"
  by (intro leaves_intros)

lemma get_cart_reads [leaves_intros]: "leaves g (get_cart uid)"
  unfolding get_cart_def find_cart_by_user_def by (intro leaves_intros)

lemma commit_tx_keeps: "keeps P m \<Longrightarrow> P s \<Longrightarrow> P (snd (commit_tx m s))"
  by (auto simp: commit_tx_state keeps_def split: sum.splits)

lemma keeps_db_try_remove: "keeps cart_wf (db_try (remove_item_row uid iid))"
  by (intro keeps_intros)

text \<open>
  C30. The cart table stays well formed under every cart request, rejected ones included: at most one
  line per member and target, every quantity between 1 and 999, every course line exactly 1.
\<close>

theorem cart_invariant:
  assumes "cart_wf s"
  shows "cart_wf (snd (add_item uid ty iid q s)) \<and> cart_wf (snd (update_quantity uid iid q s)) \<and>
    cart_wf (snd (remove_item uid iid s)) \<and> cart_wf (snd (clear uid s))"
proof -
  have "cart_wf (snd (add_product_item uid iid q s))" "cart_wf (snd (add_course_item uid iid q s))"
    "cart_wf (snd (update_quantity uid iid q s))" "cart_wf (snd (clear uid s))"
    unfolding add_product_item_def add_course_item_def update_quantity_def clear_def
    using assms by (simp_all add: after_commit_state get_cart_reads commit_tx_keeps keeps_db_try
        add_product_tx_cart_wf add_course_tx_cart_wf update_quantity_tx_cart_wf clear_cart_rows_cart_wf)
  moreover have "cart_wf (snd (remove_item uid iid s))"
    unfolding remove_item_def using assms
    by (simp add: after_commit_state leaves_bind leaves_basic get_cart_reads commit_tx_keeps
        keeps_db_try_remove)
  ultimately show ?thesis
    using assms by (auto simp: add_item_def split: option.splits cart_item_type.splits)
qed

definition cart_example :: db where
  "cart_example = shop_example\<lparr>users := [member 11 0], cart_items :=
     [\<lparr>ci_id = 31, ci_user_id = 11, ci_target = TargetProduct 22, ci_quantity = 2, ci_created_at = 0\<rparr>]\<rparr>"

lemma cart_invariant_witness:
  "cart_wf cart_example \<and> cart_wf (snd (add_item 11 ''product'' 22 3 cart_example))"
proof -
  have "cart_wf cart_example" by code_simp
  then show ?thesis using cart_invariant by blast
qed

text \<open>
  Adding a product merges into the line that is there: after an accepted add the member's line of
  that product holds the old quantity plus the added one, within 1..999 and within the product's stock
  when it is finite, and no other line of any cart changes.
\<close>

theorem add_product_merges:
  assumes "cart_wf s" and "add_product_tx uid pid q s = Inr (x, s')"
  shows "cart_qty s' k t =
      (if k = uid \<and> t = TargetProduct pid
       then Some (q + (case cart_qty s uid t of None \<Rightarrow> 0 | Some n \<Rightarrow> n)) else cart_qty s k t) \<and>
    1 \<le> q + (case cart_qty s uid (TargetProduct pid) of None \<Rightarrow> 0 | Some n \<Rightarrow> n) \<and>
    q + (case cart_qty s uid (TargetProduct pid) of None \<Rightarrow> 0 | Some n \<Rightarrow> n) \<le> max_line_quantity \<and>
    (\<forall>n. stock_of s pid = Some (Some n) \<longrightarrow>
      q + (case cart_qty s uid (TargetProduct pid) of None \<Rightarrow> 0 | Some m \<Rightarrow> m) \<le> n)"
proof -
  obtain p merged where p: "product_by_id pid s = Some p"
    and add: "add_product_item_tx uid pid q s = Inr (merged, s')"
    and ok: "ensure_purchasable p (ci_quantity merged) = Inr ()"
    using assms(2) by (rule add_product_tx_Inr)
  have "cart_ok s" using assms(1) by (simp add: cart_wf_def)
  note r = add_product_item_tx_Inr [OF add this] ensure_purchasable_range [OF ok]
  have "stock_of s pid = Some (Some n) \<Longrightarrow> ci_quantity merged \<le> n" for n
    using ok p by (simp add: ensure_purchasable_ok stock_of_def)
  then show ?thesis using r(2) [symmetric] r(3) [of k t] r(5) by auto
qed

lemma add_product_merges_witness:
  "\<exists>x s'. add_product_tx 11 22 3 cart_example = Inr (x, s') \<and> cart_qty s' 11 (TargetProduct 22) = Some 5"
proof -
  have wf: "cart_wf cart_example" by code_simp
  have "succeeds (add_product_tx 11 22 3 cart_example)" by code_simp
  then obtain x s' where run: "add_product_tx 11 22 3 cart_example = Inr (x, s')"
    by (rule succeedsE)
  have "cart_qty cart_example 11 (TargetProduct 22) = Some 2" by code_simp
  then show ?thesis using add_product_merges [OF wf run, of 11 "TargetProduct 22"] run by simp
qed

end
