(* ===== verification/Pricing.thy ===== *)
theory Pricing
  imports Carts
begin

text \<open>
  Coupons (\<open>src/modules/coupons\<close>), the price of a checkout (\<open>src/modules/orders/pricing.rs\<close>) and
  the plan of its lines (\<open>src/modules/orders/fulfilment.rs\<close>). The pricing arithmetic is the code's:
  checked in the subtotal, unchecked (so wrapping) after it; the exactness theorem shows that no wrap-around
  can happen for the values the database admits.
\<close>

section \<open>Coupons\<close>

definition is_ascii_whitespace :: "char \<Rightarrow> bool" where
  "is_ascii_whitespace c = (let n = of_char c :: nat in (9 \<le> n \<and> n \<le> 13) \<or> n = 32)"

definition trim :: "string \<Rightarrow> string" where
  "trim s = rev (dropWhile is_ascii_whitespace (rev (dropWhile is_ascii_whitespace s)))"

definition normalize_code :: "string \<Rightarrow> string" where
  "normalize_code code = to_uppercase (trim code)"

definition coupon_valid :: "string \<Rightarrow> instant \<Rightarrow> coupon \<Rightarrow> bool" where
  "coupon_valid code now c =
    (co_code c = code \<and> co_is_active c \<and>
     (case co_expires_at c of None \<Rightarrow> True | Some e \<Rightarrow> e > now))"

definition find_valid_by_code :: "string \<Rightarrow> instant \<Rightarrow> coupon option sql" where
  "find_valid_by_code code now =
    get_tx (\<lambda>s. fetch_by (coupon_valid (normalize_code code) now) (coupons s))"

definition find_valid_by_code_tx :: "string \<Rightarrow> instant \<Rightarrow> coupon option app" where
  "find_valid_by_code_tx code now = db_try (find_valid_by_code code now)"

definition create_coupon_row :: "string \<Rightarrow> int \<Rightarrow> instant option \<Rightarrow> coupon sql" where
  "create_coupon_row code discount_cents expires_at =
    bind_tx fresh_uuid (\<lambda>i s.
      let row = \<lparr>co_id = i, co_code = normalize_code code, co_discount_cents = discount_cents,
                 co_is_active = True, co_expires_at = expires_at, co_created_at = db_now s\<rparr> in
      if discount_cents \<le> 0 then Inl (CheckViolation ''coupons_discount_cents_check'')
      else if i \<in> co_id ` set (coupons s) then Inl (UniqueViolation ''coupons_pkey'')
      else if co_code row \<in> co_code ` set (coupons s) then Inl (UniqueViolation ''coupons_code_key'')
      else Inr (row, s\<lparr>coupons := coupons s @ [row]\<rparr>))"

definition create_coupon :: "string \<Rightarrow> int \<Rightarrow> instant option \<Rightarrow> coupon handler" where
  "create_coupon code discount_cents expires_at =
    commit_tx (map_err_tx (conflict_on_unique ''coupon code already exists'')
      (create_coupon_row code discount_cents expires_at))"

definition update_coupon_row ::
  "uuid \<Rightarrow> int option \<Rightarrow> bool option \<Rightarrow> instant option option \<Rightarrow> coupon option sql" where
  "update_coupon_row cid discount is_active expires_at = (\<lambda>s.
    case fetch_by (\<lambda>c. co_id c = cid) (coupons s) of
      None \<Rightarrow> Inr (None, s)
    | Some c \<Rightarrow>
        (let c' = c\<lparr>co_discount_cents := (case discount of None \<Rightarrow> co_discount_cents c | Some v \<Rightarrow> v),
                    co_is_active := (case is_active of None \<Rightarrow> co_is_active c | Some v \<Rightarrow> v),
                    co_expires_at := (case expires_at of None \<Rightarrow> co_expires_at c | Some v \<Rightarrow> v)\<rparr> in
         if co_discount_cents c' \<le> 0 then Inl (CheckViolation ''coupons_discount_cents_check'')
         else Inr (Some c', s\<lparr>coupons := update_where (\<lambda>c. co_id c = cid) (\<lambda>_. c') (coupons s)\<rparr>)))"

definition update_coupon ::
  "uuid \<Rightarrow> int option \<Rightarrow> bool option \<Rightarrow> instant option option \<Rightarrow> coupon handler" where
  "update_coupon cid discount is_active expires_at =
    commit_tx (bind_tx (db_try (update_coupon_row cid discount is_active expires_at))
      (of_option_tx (NotFound ''coupon not found'')))"

definition delete_coupon_row :: "uuid \<Rightarrow> bool sql" where
  "delete_coupon_row cid = (\<lambda>s. Inr (
    count_where (\<lambda>c. co_id c = cid) (coupons s) > 0,
    s\<lparr>coupons := delete_where (\<lambda>c. co_id c = cid) (coupons s)\<rparr>))"

definition delete_coupon :: "uuid \<Rightarrow> unit handler" where
  "delete_coupon cid =
    commit_tx (bind_tx (db_try (delete_coupon_row cid))
      (\<lambda>deleted. ensure_tx deleted (NotFound ''coupon not found'')))"

definition clamp_coupon_discount :: "int \<Rightarrow> int \<Rightarrow> int" where
  "clamp_coupon_discount coupon_cents subtotal_cents = min coupon_cents subtotal_cents"

definition validate_coupon ::
  "string \<Rightarrow> int option \<Rightarrow> instant \<Rightarrow> (string \<times> int \<times> int option) app" where
  "validate_coupon code subtotal now =
    bind_tx (ensure_tx (case subtotal of None \<Rightarrow> True | Some v \<Rightarrow> 0 \<le> v)
      (Validation ''subtotal_cents must be >= 0'')) (\<lambda>_.
    bind_tx (db_try (find_valid_by_code code now)) (\<lambda>r.
    bind_tx (of_option_tx (NotFound ''coupon not found'') r) (\<lambda>c.
    return_tx (co_code c, co_discount_cents c,
      map_option (clamp_coupon_discount (co_discount_cents c)) subtotal))))"

section \<open>Fulfilment\<close>

datatype purchasable_cart = PurchasableCart (lines_of: "checkout_line list")

record product_fulfilment =
  pf_product_id :: uuid
  pf_quantity :: int
  pf_price_cents :: int
  pf_name :: string

record fulfilment_plan =
  fp_products :: "product_fulfilment list"
  fp_course_ids :: "uuid list"

primrec plan_loop ::
  "checkout_line list \<Rightarrow> product_fulfilment list \<Rightarrow> uuid list \<Rightarrow> fulfilment_plan" where
  "plan_loop [] ps cs = \<lparr>fp_products = ps, fp_course_ids = cs\<rparr>"
| "plan_loop (l # ls) ps cs =
    (case cl_target l of
       TargetProduct pid \<Rightarrow>
         plan_loop ls (ps @ [\<lparr>pf_product_id = pid, pf_quantity = cl_quantity l,
                              pf_price_cents = cl_price_cents l, pf_name = cl_name l\<rparr>]) cs
     | TargetCourse cid \<Rightarrow> plan_loop ls ps (cs @ [cid]))"

definition plan :: "purchasable_cart \<Rightarrow> fulfilment_plan" where
  "plan cart = plan_loop (lines_of cart) [] []"

definition delisted_msg :: "string list \<Rightarrow> string" where
  "delisted_msg names = utf8 [228, 187, 165, 228, 184, 139, 233, 160, 133, 231, 155, 174, 229, 183, 178, 228, 184, 139, 230, 158, 182, 44, 232, 171, 139, 229, 133, 136, 232, 135, 170, 232, 179, 188, 231, 137, 169, 232, 187, 138, 231, 167, 187, 233, 153, 164, 229, 134, 141, 231, 181, 144, 229, 184, 179, 58] @ join (utf8 [227, 128, 129]) names"

definition ensure_all_purchasable :: "checkout_line list \<Rightarrow> app_error + purchasable_cart" where
  "ensure_all_purchasable ls =
    (let names = map (\<lambda>l. utf8 [227, 128, 140] @ cl_name l @ utf8 [227, 128, 141]) (filter (\<lambda>l. \<not> cl_is_active l) ls)
     in if names = [] then Inr (PurchasableCart ls) else Inl (Validation (delisted_msg names)))"

record order_line =
  ol_target :: line_target
  ol_quantity :: int
  ol_price_cents :: int
  ol_name :: string
  ol_stock_decremented :: bool

definition order_line_of :: "(uuid \<Rightarrow> product option) \<Rightarrow> checkout_line \<Rightarrow> order_line" where
  "order_line_of reserved l =
    \<lparr>ol_target = cl_target l, ol_quantity = cl_quantity l, ol_price_cents = cl_price_cents l,
     ol_name = cl_name l,
     ol_stock_decremented =
       (case cl_target l of
          TargetProduct pid \<Rightarrow> (case reserved pid of None \<Rightarrow> False | Some p \<Rightarrow> p_stock p \<noteq> None)
        | TargetCourse _ \<Rightarrow> False)\<rparr>"

definition order_lines :: "purchasable_cart \<Rightarrow> (uuid \<Rightarrow> product option) \<Rightarrow> order_line list" where
  "order_lines cart reserved = map (order_line_of reserved) (lines_of cart)"

section \<open>Pricing\<close>

record pricing_outcome =
  po_subtotal_cents :: int
  po_discount_cents :: int
  po_applied_coupon_code :: "string option"
  po_points_used :: int
  po_total_cents :: int
  po_points_earned :: int

definition ledger_deltas :: "pricing_outcome \<Rightarrow> uuid \<Rightarrow> ledger_delta list" where
  "ledger_deltas p order_id =
    (if po_points_used p > 0 then [checkout_redeem (po_points_used p) order_id] else []) @
    (if po_points_earned p > 0 then [checkout_earn (po_points_earned p) order_id] else [])"

definition total_overflow :: app_error where
  "total_overflow = Validation ''order total overflow''"

primrec subtotal_loop :: "checkout_line list \<Rightarrow> int \<Rightarrow> app_error + int" where
  "subtotal_loop [] acc = Inr acc"
| "subtotal_loop (l # ls) acc =
    (case checked_line_subtotal (cl_price_cents l) (cl_quantity l) of
       None \<Rightarrow> Inl total_overflow
     | Some line \<Rightarrow>
         (case checked_add64 acc line of
            None \<Rightarrow> Inl total_overflow
          | Some acc' \<Rightarrow> subtotal_loop ls acc'))"

definition points_for_total :: "int \<Rightarrow> int" where
  "points_for_total total_cents =
    (let total_nt = quot_trunc total_cents 100
     in quot_trunc (wrap64 (wrap64 (total_nt * 5) + 50)) 100)"

definition price :: "purchasable_cart \<Rightarrow> coupon option \<Rightarrow> int \<Rightarrow> bool \<Rightarrow> app_error + pricing_outcome" where
  "price cart coupon points_balance use_points =
    (case subtotal_loop (lines_of cart) 0 of
       Inl e \<Rightarrow> Inl e
     | Inr subtotal \<Rightarrow>
         (let discount = (case coupon of None \<Rightarrow> 0
              | Some c \<Rightarrow> clamp_coupon_discount (co_discount_cents c) subtotal);
            code = map_option co_code coupon;
            after_coupon = wrap64 (subtotal - discount);
            used = (if use_points then min points_balance (quot_trunc after_coupon 100) else 0);
            total_cents = wrap64 (after_coupon - wrap64 (used * 100))
          in Inr \<lparr>po_subtotal_cents = subtotal, po_discount_cents = discount,
                  po_applied_coupon_code = code, po_points_used = used,
                  po_total_cents = total_cents, po_points_earned = points_for_total total_cents\<rparr>))"

section \<open>The price is exact\<close>

definition subtotal_of :: "checkout_line list \<Rightarrow> int" where
  "subtotal_of ls = sum_list (map (\<lambda>l. cl_price_cents l * cl_quantity l) ls)"

definition line_admitted :: "checkout_line \<Rightarrow> bool" where
  "line_admitted l = (0 \<le> cl_price_cents l \<and> 0 \<le> cl_quantity l)"

lemma subtotal_of_simps [simp]:
  "subtotal_of [] = 0" "subtotal_of (l # ls) = cl_price_cents l * cl_quantity l + subtotal_of ls"
  by (simp_all add: subtotal_of_def)

lemma subtotal_of_nonneg: "(\<forall>l \<in> set ls. line_admitted l) \<Longrightarrow> 0 \<le> subtotal_of ls"
  by (induction ls) (auto simp: line_admitted_def)

lemma subtotal_loop_spec:
  assumes "\<forall>l \<in> set ls. line_admitted l" "0 \<le> acc" "in_i64 acc"
  shows "subtotal_loop ls acc =
    (if in_i64 (acc + subtotal_of ls) then Inr (acc + subtotal_of ls) else Inl total_overflow)"
  using assms
proof (induction ls arbitrary: acc)
  case (Cons l ls)
  let ?v = "cl_price_cents l * cl_quantity l"
  have nn: "0 \<le> ?v" "0 \<le> subtotal_of ls" using Cons.prems subtotal_of_nonneg
    by (simp_all add: line_admitted_def)
  show ?case
  proof (cases "in_i64 (acc + ?v)")
    case True
    then have "in_i64 ?v" using nn Cons.prems by (simp add: in_i64_def)
    then show ?thesis using True Cons nn
      by (simp add: checked_line_subtotal_def checked_mul64_def checked_add64_def checked64_def add.assoc)
  next
    case False
    then have "\<not> in_i64 (acc + (?v + subtotal_of ls))" using nn Cons.prems by (simp add: in_i64_def)
    then show ?thesis using False
      by (simp add: checked_line_subtotal_def checked_mul64_def checked_add64_def checked64_def add.assoc)
  qed
qed (simp)

lemma points_for_total_exact:
  assumes "0 \<le> t" "in_i64 t"
  shows "points_for_total t = (5 * (t div 100) + 50) div 100"
proof -
  have b: "0 \<le> t div 100" "t div 100 * 100 \<le> t" using assms by simp_all
  then have "in_i64 (t div 100 * 5)" "in_i64 (t div 100 * 5 + 50)"
    using assms by (simp_all add: in_i64_def)
  then show ?thesis using assms b by (simp add: points_for_total_def Let_def mult.commute)
qed

definition coupon_discount :: "coupon option \<Rightarrow> int \<Rightarrow> int" where
  "coupon_discount coupon subtotal = (case coupon of None \<Rightarrow> 0 | Some c \<Rightarrow> min (co_discount_cents c) subtotal)"

definition coupon_admitted :: "coupon option \<Rightarrow> bool" where
  "coupon_admitted coupon = (case coupon of None \<Rightarrow> True | Some c \<Rightarrow> 0 < co_discount_cents c)"

lemma coupon_discount_range:
  "coupon_admitted coupon \<Longrightarrow> 0 \<le> subtotal \<Longrightarrow>
    0 \<le> coupon_discount coupon subtotal \<and> coupon_discount coupon subtotal \<le> subtotal"
  by (auto simp: coupon_discount_def coupon_admitted_def split: option.splits)

lemma price_exact_spec:
  assumes "\<forall>l \<in> set (lines_of cart). line_admitted l" and "coupon_admitted coupon"
    and "0 \<le> balance" "in_i64 balance"
  shows "price cart coupon balance use_points =
    (if \<not> in_i64 (subtotal_of (lines_of cart)) then Inl total_overflow
     else let subtotal = subtotal_of (lines_of cart);
              after = subtotal - coupon_discount coupon subtotal;
              used = (if use_points then min balance (after div 100) else 0);
              t = after - 100 * used
          in Inr \<lparr>po_subtotal_cents = subtotal, po_discount_cents = coupon_discount coupon subtotal,
                  po_applied_coupon_code = map_option co_code coupon, po_points_used = used,
                  po_total_cents = t, po_points_earned = (5 * (t div 100) + 50) div 100\<rparr>)"
proof (cases "in_i64 (subtotal_of (lines_of cart))")
  case True
  let ?s = "subtotal_of (lines_of cart)"
  let ?d = "coupon_discount coupon ?s"
  let ?a = "?s - ?d"
  let ?u = "if use_points then min balance (?a div 100) else 0"
  have s: "0 \<le> ?s" using assms(1) by (rule subtotal_of_nonneg)
  note d = coupon_discount_range [OF assms(2) s]
  have a: "0 \<le> ?a" "in_i64 ?a" using True s d by (simp_all add: in_i64_def)
  have u: "0 \<le> ?u" "?u * 100 \<le> ?a" using a assms(3) by auto
  then have t: "in_i64 (?u * 100)" "0 \<le> ?a - ?u * 100" "in_i64 (?a - ?u * 100)"
    using a by (simp_all add: in_i64_def)
  have loop: "subtotal_loop (lines_of cart) 0 = Inr ?s"
    using subtotal_loop_spec [OF assms(1), of 0] True by (simp add: in_i64_def)
  have disc: "(case coupon of None \<Rightarrow> 0 | Some c \<Rightarrow> clamp_coupon_discount (co_discount_cents c) ?s) = ?d"
    by (simp add: coupon_discount_def clamp_coupon_discount_def split: option.splits)
  show ?thesis
    unfolding price_def loop disc Let_def sum.case wrap64_id [OF a(2)] quot_trunc_nonneg [OF a(1)]
      wrap64_id [OF t(1)] wrap64_id [OF t(3)] points_for_total_exact [OF t(2,3)]
    using True by (simp add: mult.commute)
next
  case False
  have "in_i64 0" by (simp add: in_i64_def)
  then show ?thesis using False subtotal_loop_spec [OF assms(1), of 0]
    by (simp add: price_def)
qed

text \<open>
  C10. The price of a cart is exact and bounded: with admitted lines (non-negative price and quantity),
  a positive coupon and a non-negative balance, pricing fails exactly when the subtotal does not fit a
  64-bit integer; otherwise no later operation wraps, the discount never exceeds the subtotal, the
  points used never exceed the balance nor what the remaining amount is worth, the total is what is
  left and never negative, and the points earned are 5% of the whole dollars of the total rounded to the
  nearest point.
\<close>

theorem price_exact:
  assumes "\<forall>l \<in> set (lines_of cart). line_admitted l" and "coupon_admitted coupon"
    and "0 \<le> balance" "in_i64 balance"
  shows "price cart coupon balance use_points =
    (if \<not> in_i64 (subtotal_of (lines_of cart)) then Inl total_overflow
     else let subtotal = subtotal_of (lines_of cart);
              after = subtotal - coupon_discount coupon subtotal;
              used = (if use_points then min balance (after div 100) else 0);
              t = after - 100 * used
          in Inr \<lparr>po_subtotal_cents = subtotal, po_discount_cents = coupon_discount coupon subtotal,
                  po_applied_coupon_code = map_option co_code coupon, po_points_used = used,
                  po_total_cents = t, po_points_earned = (5 * (t div 100) + 50) div 100\<rparr>)"
  using assms by (rule price_exact_spec)

definition priced_lines :: "checkout_line list" where
  "priced_lines = [\<lparr>cl_target = TargetProduct 22, cl_quantity = 2, cl_price_cents = 125050,
     cl_name = ''Mat'', cl_is_active = True\<rparr>]"

definition priced_coupon :: coupon where
  "priced_coupon = \<lparr>co_id = 41, co_code = ''FLY100'', co_discount_cents = 10000, co_is_active = True,
     co_expires_at = None, co_created_at = 0\<rparr>"

lemma price_exact_witness:
  "price (PurchasableCart priced_lines) (Some priced_coupon) 300 True =
    Inr \<lparr>po_subtotal_cents = 250100, po_discount_cents = 10000, po_applied_coupon_code = Some ''FLY100'',
         po_points_used = 300, po_total_cents = 210100, po_points_earned = 105\<rparr>"
proof -
  have "\<forall>l \<in> set (lines_of (PurchasableCart priced_lines)). line_admitted l"
    "coupon_admitted (Some priced_coupon)" "(0 :: int) \<le> 300" "in_i64 300"
    by (simp_all add: priced_lines_def line_admitted_def coupon_admitted_def priced_coupon_def in_i64_def)
  from price_exact [OF this, of True] show ?thesis
    by (simp add: priced_lines_def priced_coupon_def coupon_discount_def in_i64_def Let_def)
qed

lemma price_bounds:
  assumes "\<forall>l \<in> set (lines_of cart). line_admitted l" "coupon_admitted coupon"
    "0 \<le> balance" "in_i64 balance" "price cart coupon balance use_points = Inr p"
  shows "0 \<le> po_subtotal_cents p" "0 \<le> po_discount_cents p" "po_discount_cents p \<le> po_subtotal_cents p"
    "0 \<le> po_points_used p" "po_points_used p \<le> balance" "0 \<le> po_total_cents p"
    "0 \<le> po_points_earned p" "in_i64 (po_points_earned p)" "in_i64 (po_points_used p)"
    "in_i64 (po_total_cents p)"
    "po_total_cents p = po_subtotal_cents p - po_discount_cents p - 100 * po_points_used p"
proof -
  let ?s = "subtotal_of (lines_of cart)"
  have s: "0 \<le> ?s" using assms(1) by (rule subtotal_of_nonneg)
  note d = coupon_discount_range [OF assms(2) s]
  have fit: "in_i64 ?s" using assms(5) unfolding price_exact_spec [OF assms(1-4)] by (auto split: if_splits)
  define a where "a = ?s - coupon_discount coupon ?s"
  define u where "u = (if use_points then min balance (a div 100) else 0)"
  define t where "t = a - 100 * u"
  have p: "p = \<lparr>po_subtotal_cents = ?s, po_discount_cents = coupon_discount coupon ?s,
      po_applied_coupon_code = map_option co_code coupon, po_points_used = u,
      po_total_cents = t, po_points_earned = (5 * (t div 100) + 50) div 100\<rparr>"
    using assms(5) fit unfolding price_exact_spec [OF assms(1-4)] by (auto simp: Let_def a_def u_def t_def)
  have a: "0 \<le> a" "a \<le> ?s" using d by (simp_all add: a_def)
  have u: "0 \<le> u" "u * 100 \<le> a" "u \<le> balance" using a assms(3) by (auto simp: u_def)
  have t: "0 \<le> t" "t \<le> ?s" using u a by (simp_all add: t_def)
  then have e: "0 \<le> (5 * (t div 100) + 50) div 100" "(5 * (t div 100) + 50) div 100 \<le> t + 50" by simp_all
  then have e64: "in_i64 ((5 * (t div 100) + 50) div 100)"
    using t fit by (auto simp: in_i64_def)
  show "0 \<le> po_subtotal_cents p" "0 \<le> po_discount_cents p" "po_discount_cents p \<le> po_subtotal_cents p"
    "0 \<le> po_points_used p" "po_points_used p \<le> balance" "0 \<le> po_total_cents p"
    "0 \<le> po_points_earned p" "in_i64 (po_points_earned p)" "in_i64 (po_points_used p)"
    "in_i64 (po_total_cents p)"
    "po_total_cents p = po_subtotal_cents p - po_discount_cents p - 100 * po_points_used p"
    using s d u t e e64 fit assms(4) unfolding p by (simp_all add: in_i64_def t_def a_def)
qed

lemma ledger_deltas_sum:
  assumes "0 \<le> po_points_used p" "0 \<le> po_points_earned p" "in_i64 (po_points_used p)"
  shows "sum_list (map ld_delta (ledger_deltas p oid)) = po_points_earned p - po_points_used p"
  using assms by (auto simp: ledger_deltas_def checkout_redeem_def checkout_earn_def)

section \<open>The plan splits the cart\<close>

lemma target_facts:
  "product_id_of t = (if item_type_of t = CI_Product then Some (target_id t) else None)"
  "course_id_of t = (if item_type_of t = CI_Course then Some (target_id t) else None)"
  "item_type_of t \<noteq> CI_Product \<longleftrightarrow> item_type_of t = CI_Course"
  by (cases t; simp)+

lemma plan_loop_spec:
  "plan_loop ls ps cs =
    \<lparr>fp_products = ps @ map (\<lambda>l. \<lparr>pf_product_id = target_id (cl_target l), pf_quantity = cl_quantity l,
        pf_price_cents = cl_price_cents l, pf_name = cl_name l\<rparr>)
        (filter (\<lambda>l. item_type_of (cl_target l) = CI_Product) ls),
     fp_course_ids = cs @ map (\<lambda>l. target_id (cl_target l))
        (filter (\<lambda>l. item_type_of (cl_target l) = CI_Course) ls)\<rparr>"
  by (induction ls arbitrary: ps cs) (auto split: line_target.splits)

lemma ensure_all_purchasable_Inr:
  "ensure_all_purchasable ls = Inr cart \<longleftrightarrow> cart = PurchasableCart ls \<and> (\<forall>l \<in> set ls. cl_is_active l)"
  by (auto simp: ensure_all_purchasable_def Let_def filter_empty_conv)

text \<open>
  The plan loses no line: every line of a purchasable cart is active and appears exactly once, in
  the cart's order, either as a product to reserve or as a course to enrol in, and every order line
  carries the line's target, quantity, price and name unchanged.
\<close>

theorem plan_partitions_cart:
  assumes "ensure_all_purchasable ls = Inr cart"
  shows "(\<forall>l \<in> set ls. cl_is_active l) \<and>
    map pf_product_id (fp_products (plan cart)) = List.map_filter (\<lambda>l. product_id_of (cl_target l)) ls \<and>
    map pf_quantity (fp_products (plan cart)) =
      map cl_quantity (filter (\<lambda>l. item_type_of (cl_target l) = CI_Product) ls) \<and>
    fp_course_ids (plan cart) = List.map_filter (\<lambda>l. course_id_of (cl_target l)) ls \<and>
    length (fp_products (plan cart)) + length (fp_course_ids (plan cart)) = length ls \<and>
    map (\<lambda>l. (ol_target l, ol_quantity l, ol_price_cents l, ol_name l)) (order_lines cart reserved) =
      map (\<lambda>l. (cl_target l, cl_quantity l, cl_price_cents l, cl_name l)) ls"
proof -
  have cart: "cart = PurchasableCart ls" "\<forall>l \<in> set ls. cl_is_active l"
    using assms by (simp_all add: ensure_all_purchasable_Inr)
  have products: "map (\<lambda>l. target_id (cl_target l)) (filter (\<lambda>l. item_type_of (cl_target l) = CI_Product) ls)
      = List.map_filter (\<lambda>l. product_id_of (cl_target l)) ls"
    by (induction ls) (simp_all add: map_filter_simps target_facts)
  have courses: "map (\<lambda>l. target_id (cl_target l)) (filter (\<lambda>l. item_type_of (cl_target l) = CI_Course) ls)
      = List.map_filter (\<lambda>l. course_id_of (cl_target l)) ls"
    by (induction ls) (simp_all add: map_filter_simps target_facts)
  have len: "length (filter (\<lambda>l. item_type_of (cl_target l) = CI_Product) ls) +
      length (filter (\<lambda>l. item_type_of (cl_target l) = CI_Course) ls) = length ls"
    by (induction ls) (auto simp: target_facts(3))
  have "length (filter (\<lambda>l. item_type_of (cl_target l) = CI_Course) ls) =
      length (List.map_filter (\<lambda>l. course_id_of (cl_target l)) ls)"
    using arg_cong [OF courses, of length] by simp
  then show ?thesis using cart products courses len
    by (simp add: plan_def plan_loop_spec comp_def order_lines_def order_line_of_def)
qed

lemma plan_partitions_cart_witness:
  "fp_course_ids (plan (PurchasableCart priced_lines)) = [] \<and>
   length (fp_products (plan (PurchasableCart priced_lines))) = 1"
proof -
  have "ensure_all_purchasable priced_lines = Inr (PurchasableCart priced_lines)"
    by (simp add: ensure_all_purchasable_Inr priced_lines_def)
  from plan_partitions_cart [OF this, of Map.empty]
  have "fp_course_ids (plan (PurchasableCart priced_lines)) = List.map_filter (\<lambda>l. course_id_of (cl_target l)) priced_lines"
    "length (fp_products (plan (PurchasableCart priced_lines))) +
      length (fp_course_ids (plan (PurchasableCart priced_lines))) = length priced_lines"
    by blast+
  moreover have "List.map_filter (\<lambda>l. course_id_of (cl_target l)) priced_lines = []"
    by (simp add: priced_lines_def map_filter_simps)
  ultimately show ?thesis by (simp add: priced_lines_def)
qed

end
