(* ===== verification/Access.thy ===== *)
theory Access
  imports Schema
begin

text \<open>
  The signed-in caller (\<open>src/extractors/auth.rs\<close>): role checks and the three ownership gates every
  handler calls. A gate is a result, \<open>Inr ()\<close> to pass.
\<close>

record auth_user =
  au_user_id :: uuid
  au_email :: string
  au_roles :: "string list"

definition has_role :: "auth_user \<Rightarrow> role \<Rightarrow> bool" where
  "has_role a r = list_ex (\<lambda>x. x = role_as_str r) (au_roles a)"

definition require_role :: "auth_user \<Rightarrow> role \<Rightarrow> app_error + unit" where
  "require_role a r = (if has_role a r then Inr () else Inl (Forbidden ''insufficient permissions''))"

definition require_any_role :: "auth_user \<Rightarrow> role list \<Rightarrow> app_error + unit" where
  "require_any_role a rs =
    (if list_ex (has_role a) rs then Inr () else Inl (Forbidden ''insufficient permissions''))"

definition is_admin :: "auth_user \<Rightarrow> bool" where
  "is_admin a = has_role a Role_Admin"

definition owns_or_admin :: "auth_user \<Rightarrow> uuid \<Rightarrow> string \<Rightarrow> app_error + unit" where
  "owns_or_admin a owner msg =
    (if au_user_id a = owner \<or> is_admin a then Inr () else Inl (Forbidden msg))"

definition owns_or_admin_masked :: "auth_user \<Rightarrow> uuid \<Rightarrow> string \<Rightarrow> app_error + unit" where
  "owns_or_admin_masked a owner msg =
    (if au_user_id a = owner \<or> is_admin a then Inr () else Inl (NotFound msg))"

definition owner_only :: "auth_user \<Rightarrow> uuid \<Rightarrow> string \<Rightarrow> app_error + unit" where
  "owner_only a owner msg = (if au_user_id a = owner then Inr () else Inl (Forbidden msg))"

lemma gate_Inr [simp]:
  "owns_or_admin a u m = Inr () \<longleftrightarrow> au_user_id a = u \<or> is_admin a"
  "owns_or_admin_masked a u m = Inr () \<longleftrightarrow> au_user_id a = u \<or> is_admin a"
  "owner_only a u m = Inr () \<longleftrightarrow> au_user_id a = u"
  by (simp_all add: owns_or_admin_def owns_or_admin_masked_def owner_only_def)

lemma gate_Inl [simp]:
  "owns_or_admin a u m = Inl e \<longleftrightarrow> \<not> (au_user_id a = u \<or> is_admin a) \<and> e = Forbidden m"
  "owns_or_admin_masked a u m = Inl e \<longleftrightarrow> \<not> (au_user_id a = u \<or> is_admin a) \<and> e = NotFound m"
  "owner_only a u m = Inl e \<longleftrightarrow> au_user_id a \<noteq> u \<and> e = Forbidden m"
  by (auto simp: owns_or_admin_def owns_or_admin_masked_def owner_only_def)

end
