(* ===== verification/Seats.thy ===== *)
theory Seats
  imports Carts Access
begin

text \<open>
  Seats (\<open>src/modules/courses/seats.rs\<close>): how many seats a course and a session have left, read
  under the row locks the lock witnesses stand for. \<open>CourseLocks\<close> is the second interpretation of
  the lock witness contract \<open>lock_order\<close>.
\<close>

section \<open>Course seats\<close>

record course_seats_row =
  seat_max_students :: int
  seat_active_count :: int

definition is_full :: "course_seats_row \<Rightarrow> bool" where
  "is_full r = (seat_active_count r \<ge> seat_max_students r)"

record course_locks =
  clk_ids :: "uuid list"

definition course_covers :: "course_locks \<Rightarrow> uuid \<Rightarrow> bool" where
  "course_covers locks cid = (bin_search (\<lambda>i. i) cid (clk_ids locks) 0 (length (clk_ids locks)) \<noteq> None)"

definition not_covered :: "uuid \<Rightarrow> app_error" where
  "not_covered cid = Internal (''course '' @ show_nat cid @ '' is not covered by CourseLocks'')"

definition course_lock_order ::
  "course_locks \<Rightarrow> ('a \<Rightarrow> uuid) \<Rightarrow> 'a list \<Rightarrow> app_error + 'a list" where
  "course_lock_order locks f items =
    (case List.find (\<lambda>x. \<not> course_covers locks (f x)) items of
       Some x \<Rightarrow> Inl (not_covered (f x))
     | None \<Rightarrow> Inr (sort_key f items))"

definition lock_courses_tx :: "uuid list \<Rightarrow> course_locks sql" where
  "lock_courses_tx ids =
    bind_tx (get_tx (\<lambda>s. sort (map c_id (filter (\<lambda>c. c_id c \<in> set ids) (courses s)))))
      (\<lambda>found. return_tx \<lparr>clk_ids = found\<rparr>)"

definition is_active_enrolment :: "enrolment \<Rightarrow> bool" where
  "is_active_enrolment e = (e_status e = Enr_Active)"

definition active_enrolments :: "db \<Rightarrow> enrolment list" where
  "active_enrolments s = filter is_active_enrolment (enrolments s)"

definition active_count :: "uuid \<Rightarrow> db \<Rightarrow> int" where
  "active_count cid s = int (count_where (\<lambda>e. e_course_id e = cid) (active_enrolments s))"

definition course_seats :: "uuid \<Rightarrow> course_seats_row option sql" where
  "course_seats cid =
    bind_tx (get_tx (course_by_id cid)) (\<lambda>c.
    case c of
      None \<Rightarrow> return_tx None
    | Some c \<Rightarrow> bind_tx (get_tx (active_count cid)) (\<lambda>n.
        return_tx (Some \<lparr>seat_max_students = c_max_students c, seat_active_count = n\<rparr>)))"

definition course_seats_tx :: "course_locks \<Rightarrow> uuid \<Rightarrow> course_seats_row option app" where
  "course_seats_tx locks cid =
    bind_tx (ensure_tx (course_covers locks cid) (not_covered cid)) (\<lambda>_. db_try (course_seats cid))"

section \<open>Session seats\<close>

record session_seats =
  sx_max_students :: int
  sx_active_count :: int
  sx_approved_leave_count :: int
  sx_makeup_count :: int

definition remaining :: "session_seats \<Rightarrow> int" where
  "remaining r =
    wrap64 (wrap64 (wrap64 (sx_max_students r - sx_active_count r) + sx_approved_leave_count r) -
      sx_makeup_count r)"

definition has_room :: "session_seats \<Rightarrow> bool" where
  "has_room r = (remaining r > 0)"

record session_lock =
  sl_session :: course_session

definition session_by_id :: "uuid \<Rightarrow> db \<Rightarrow> course_session option" where
  "session_by_id sid s = fetch_by (\<lambda>r. cs_id r = sid) (sessions s)"

definition lock_session_tx :: "uuid \<Rightarrow> session_lock option sql" where
  "lock_session_tx sid =
    bind_tx (get_tx (session_by_id sid)) (\<lambda>r. return_tx (map_option (\<lambda>x. \<lparr>sl_session = x\<rparr>) r))"

text \<open>The leave requests of enrolments that still hold a seat: the join of the two count queries.\<close>

definition leave_of_active :: "db \<Rightarrow> leave_request \<Rightarrow> bool" where
  "leave_of_active s l = list_ex (\<lambda>e. e_id e = lr_enrolment_id l) (active_enrolments s)"

definition session_seats_of :: "course_session \<Rightarrow> course \<Rightarrow> db \<Rightarrow> session_seats" where
  "session_seats_of x c s =
    \<lparr>sx_max_students = c_max_students c,
     sx_active_count = active_count (c_id c) s,
     sx_approved_leave_count = int (count_where (\<lambda>l. leave_of_active s l \<and>
       lr_session_id l = cs_id x \<and> lr_status l = Leave_Approved) (leave_requests s)),
     sx_makeup_count = int (count_where (\<lambda>l. leave_of_active s l \<and>
       lr_makeup_session_id l = Some (cs_id x)) (leave_requests s))\<rparr>"

definition session_full :: string where
  "session_full = utf8 [232, 169, 178, 229, 160, 180, 230, 172, 161, 229, 144, 141, 233, 161, 141, 229, 183, 178, 230, 187, 191]"

definition require_room_tx :: "session_lock \<Rightarrow> unit app" where
  "require_room_tx lock =
    bind_tx (get_tx (\<lambda>s. map_option (\<lambda>c. session_seats_of (sl_session lock) c s)
      (course_by_id (cs_course_id (sl_session lock)) s))) (\<lambda>r.
    bind_tx (of_option_tx (Database RowNotFound) r) (\<lambda>seats.
    ensure_tx (has_room seats) (Conflict session_full)))"

section \<open>The witness honours the lock contract\<close>

definition course_locks_ok :: "course_locks \<Rightarrow> bool" where
  "course_locks_ok locks = sorted (clk_ids locks)"

lemma course_covers_iff:
  assumes "course_locks_ok locks"
  shows "course_covers locks cid \<longleftrightarrow> cid \<in> set (clk_ids locks)"
proof
  assume "course_covers locks cid"
  then show "cid \<in> set (clk_ids locks)"
    using bin_search_sound [of "\<lambda>i. i" cid "clk_ids locks" 0] by (auto simp: course_covers_def)
next
  assume "cid \<in> set (clk_ids locks)"
  then obtain i where "i < length (clk_ids locks)" "clk_ids locks ! i = cid"
    by (auto simp: in_set_conv_nth)
  then have "bin_search (\<lambda>i. i) cid (clk_ids locks) 0 (length (clk_ids locks)) \<noteq> None"
    using assms by (intro bin_search_complete) (auto simp: course_locks_ok_def)
  then show "course_covers locks cid" unfolding course_covers_def .
qed

interpretation course_order: lock_order course_locks_ok course_covers course_lock_order
proof
  fix w and f :: "'a \<Rightarrow> uuid" and xs :: "'a list"
  {
    assume "\<And>x. x \<in> set xs \<Longrightarrow> course_covers w (f x)"
    then have "List.find (\<lambda>x. \<not> course_covers w (f x)) xs = None" by (simp add: find_None_iff)
    then show "\<exists>ys. course_lock_order w f xs = Inr ys \<and> mset ys = mset xs \<and> sorted (map f ys)"
      by (simp add: course_lock_order_def)
  }
  fix x
  assume "x \<in> set xs" "\<not> course_covers w (f x)"
  then have "List.find (\<lambda>x. \<not> course_covers w (f x)) xs \<noteq> None" by (auto simp: find_None_iff)
  then show "\<exists>m. course_lock_order w f xs = Inl (Internal m)"
    by (auto simp: course_lock_order_def not_covered_def)
qed

lemma lock_courses_tx_Inr:
  "lock_courses_tx ids s = Inr (locks, s') \<longleftrightarrow>
    s' = s \<and> locks = \<lparr>clk_ids = sort (map c_id (filter (\<lambda>c. c_id c \<in> set ids) (courses s)))\<rparr>"
  by (auto simp: lock_courses_tx_def bind_tx_Inr)

lemma lock_courses_tx_ok: "lock_courses_tx ids s = Inr (locks, s') \<Longrightarrow> course_locks_ok locks"
  by (simp add: lock_courses_tx_Inr course_locks_ok_def)

lemma course_seats_tx_Inr:
  "course_seats_tx locks cid s = Inr (r, s') \<longleftrightarrow> s' = s \<and> course_covers locks cid \<and>
    r = map_option (\<lambda>c. \<lparr>seat_max_students = c_max_students c, seat_active_count = active_count cid s\<rparr>)
      (course_by_id cid s)"
  by (cases "course_by_id cid s") (auto simp: course_seats_tx_def course_seats_def bind_tx_Inr)

text \<open>
  The unchecked arithmetic of the seat formula never wraps: a table holds fewer rows than a 63-bit
  count and the capacity is a 32-bit column.
\<close>

lemma remaining_exact:
  assumes "in_i32 (sx_max_students r)" "0 \<le> sx_active_count r" "sx_active_count r < 2 ^ 61"
    "0 \<le> sx_approved_leave_count r" "sx_approved_leave_count r < 2 ^ 61"
    "0 \<le> sx_makeup_count r" "sx_makeup_count r < 2 ^ 61"
  shows "remaining r = sx_max_students r - sx_active_count r + sx_approved_leave_count r - sx_makeup_count r"
  using assms by (simp add: remaining_def in_i64_def in_i32_def)

lemma require_room_tx_Inr:
  "require_room_tx lock s = Inr (u, s') \<longleftrightarrow> s' = s \<and> (\<exists>c.
    course_by_id (cs_course_id (sl_session lock)) s = Some c \<and>
    has_room (session_seats_of (sl_session lock) c s))"
  by (auto simp: require_room_tx_def bind_tx_Inr)

end
