(* ===== verification/Enrolments.thy ===== *)
theory Enrolments
  imports Seats
begin

text \<open>
  Enrolments (\<open>src/modules/enrolments\<close>): a purchase enrols its buyer in every course of the cart,
  each under the course's row lock with the capacity and duplicate checks, and a cancellation takes
  the enrolment's pending leave requests with it.
\<close>

section \<open>Repository\<close>

record enrolment_with_course =
  ec_id :: uuid
  ec_course_id :: uuid
  ec_course_name :: string
  ec_course_level :: course_level
  ec_schedule_text :: "string option"
  ec_status :: enrolment_status
  ec_enrolled_at :: instant

definition with_course :: "course \<Rightarrow> enrolment \<Rightarrow> enrolment_with_course" where
  "with_course c e = \<lparr>ec_id = e_id e, ec_course_id = e_course_id e, ec_course_name = c_name c,
     ec_course_level = c_level c, ec_schedule_text = c_schedule_text c, ec_status = e_status e,
     ec_enrolled_at = e_enrolled_at e\<rparr>"

definition active_in :: "uuid \<Rightarrow> uuid \<Rightarrow> enrolment \<Rightarrow> bool" where
  "active_in uid cid e = (is_active_enrolment e \<and> e_user_id e = uid \<and> e_course_id e = cid)"

definition exists_active_tx :: "uuid \<Rightarrow> uuid \<Rightarrow> bool sql" where
  "exists_active_tx uid cid =
    get_tx (\<lambda>s. list_ex (\<lambda>e. e_user_id e = uid \<and> e_course_id e = cid) (active_enrolments s))"

definition insert_enrolment_tx :: "uuid \<Rightarrow> uuid \<Rightarrow> uuid \<Rightarrow> instant \<Rightarrow> enrolment sql" where
  "insert_enrolment_tx uid cid order_id now =
    bind_tx fresh_uuid (\<lambda>i s.
      let row = \<lparr>e_id = i, e_user_id = uid, e_course_id = cid, e_order_id = Some order_id,
                 e_status = Enr_Active, e_enrolled_at = now, e_created_at = now\<rparr> in
      if i \<in> e_id ` set (enrolments s) then Inl (UniqueViolation ''enrolments_pkey'')
      else if \<exists>e \<in> set (enrolments s). active_in uid cid e
      then Inl (UniqueViolation ''uniq_enrolments_active'')
      else Inr (row, s\<lparr>enrolments := enrolments s @ [row]\<rparr>))"

definition find_enrolment_by_id_tx :: "uuid \<Rightarrow> enrolment option sql" where
  "find_enrolment_by_id_tx i = get_tx (\<lambda>s. fetch_by (\<lambda>e. e_id e = i) (enrolments s))"

definition cancel_enrolment_row :: "enrolment \<Rightarrow> enrolment" where
  "cancel_enrolment_row e = e\<lparr>e_status := Enr_Cancelled\<rparr>"

definition cancel_if_active_tx :: "uuid \<Rightarrow> enrolment_with_course option sql" where
  "cancel_if_active_tx i = (\<lambda>s.
    case fetch_by (\<lambda>e. e_id e = i \<and> e_status e \<noteq> Enr_Cancelled) (enrolments s) of
      None \<Rightarrow> Inr (None, s)
    | Some e \<Rightarrow>
        (case course_by_id (e_course_id e) s of
           None \<Rightarrow> Inr (None, s)
         | Some c \<Rightarrow> Inr (Some (with_course c (cancel_enrolment_row e)),
             s\<lparr>enrolments := update_where (\<lambda>e. e_id e = i \<and> e_status e \<noteq> Enr_Cancelled)
                 cancel_enrolment_row (enrolments s)\<rparr>)))"

definition of_order :: "uuid \<Rightarrow> enrolment \<Rightarrow> bool" where
  "of_order order_id e = (e_order_id e = Some order_id \<and> e_status e \<noteq> Enr_Cancelled)"

definition cancel_enrolments_by_order_rows :: "uuid \<Rightarrow> uuid list sql" where
  "cancel_enrolments_by_order_rows order_id = (\<lambda>s.
    Inr (map e_id (filter (of_order order_id) (enrolments s)),
      s\<lparr>enrolments := update_where (of_order order_id) cancel_enrolment_row (enrolments s)\<rparr>))"

definition join_course :: "db \<Rightarrow> enrolment \<Rightarrow> enrolment_with_course option" where
  "join_course s e = map_option (\<lambda>c. with_course c e) (course_by_id (e_course_id e) s)"

definition find_enrolments_by_order :: "uuid \<Rightarrow> enrolment_with_course list sql" where
  "find_enrolments_by_order order_id = get_tx (\<lambda>s.
    List.map_filter (join_course s)
      (sort_key e_enrolled_at (filter (\<lambda>e. e_order_id e = Some order_id) (enrolments s))))"

definition find_owner :: "uuid \<Rightarrow> uuid option sql" where
  "find_owner i = get_tx (\<lambda>s. map_option e_user_id (fetch_by (\<lambda>e. e_id e = i) (enrolments s)))"

section \<open>The leave requests of a cancelled enrolment\<close>

definition pending_of :: "uuid list \<Rightarrow> leave_request \<Rightarrow> bool" where
  "pending_of ids l = (lr_enrolment_id l \<in> set ids \<and> lr_status l = Leave_Pending)"

definition cancel_pending_for_enrolments_rows :: "uuid list \<Rightarrow> int sql" where
  "cancel_pending_for_enrolments_rows ids = (\<lambda>s.
    Inr (int (count_where (pending_of ids) (leave_requests s)),
      s\<lparr>leave_requests := update_where (pending_of ids) (\<lambda>l. l\<lparr>lr_status := Leave_Cancelled\<rparr>)
          (leave_requests s)\<rparr>))"

definition cancel_pending_for_enrolments_tx :: "uuid list \<Rightarrow> int app" where
  "cancel_pending_for_enrolments_tx ids = db_try (cancel_pending_for_enrolments_rows ids)"

section \<open>Service\<close>

definition enrol_one_tx :: "course_locks \<Rightarrow> uuid \<Rightarrow> uuid \<Rightarrow> uuid \<Rightarrow> instant \<Rightarrow> enrolment app" where
  "enrol_one_tx locks uid cid order_id now =
    bind_tx (course_seats_tx locks cid) (\<lambda>r.
    bind_tx (of_option_tx (NotFound ''course not found'') r) (\<lambda>seats.
    bind_tx (ensure_tx (\<not> is_full seats) (Conflict ''course is full'')) (\<lambda>_.
    bind_tx (db_try (exists_active_tx uid cid)) (\<lambda>dup.
    bind_tx (ensure_tx (\<not> dup) (Conflict ''already enrolled'')) (\<lambda>_.
    map_err_tx (conflict_on_unique ''already enrolled'') (insert_enrolment_tx uid cid order_id now))))))"

definition enrol_batch_from_purchase_tx ::
  "course_locks \<Rightarrow> balance_lock \<Rightarrow> uuid list \<Rightarrow> uuid \<Rightarrow> instant \<Rightarrow> enrolment list app" where
  "enrol_batch_from_purchase_tx locks buyer course_ids order_id now =
    bind_tx (of_result_tx (course_lock_order locks (\<lambda>i. i) course_ids)) (\<lambda>ordered.
    for_tx (\<lambda>cid. enrol_one_tx locks (bl_user_id buyer) cid order_id now) ordered)"

definition list_enrolments_by_order :: "uuid \<Rightarrow> enrolment_with_course list app" where
  "list_enrolments_by_order order_id = db_try (find_enrolments_by_order order_id)"

definition cancel_enrolment_steps :: "auth_user \<Rightarrow> uuid \<Rightarrow> enrolment_with_course app" where
  "cancel_enrolment_steps auth i =
    bind_tx (db_try (find_enrolment_by_id_tx i)) (\<lambda>r.
    bind_tx (of_option_tx (NotFound ''enrolment not found'') r) (\<lambda>e.
    bind_tx (of_result_tx (owns_or_admin auth (e_user_id e) ''you can only cancel your own enrolments'')) (\<lambda>_.
    bind_tx (db_try (cancel_if_active_tx i)) (\<lambda>u.
    bind_tx (of_option_tx (Conflict ''enrolment already cancelled'') u) (\<lambda>updated.
    bind_tx (cancel_pending_for_enrolments_tx [i]) (\<lambda>_.
    return_tx updated))))))"

definition cancel_enrolment :: "auth_user \<Rightarrow> uuid \<Rightarrow> enrolment_with_course handler" where
  "cancel_enrolment auth i = commit_tx (cancel_enrolment_steps auth i)"

definition cancel_enrolments_by_order_tx :: "uuid \<Rightarrow> int app" where
  "cancel_enrolments_by_order_tx order_id =
    bind_tx (db_try (cancel_enrolments_by_order_rows order_id)) (\<lambda>flipped.
    bind_tx (if flipped \<noteq> [] then bind_tx (cancel_pending_for_enrolments_tx flipped) (\<lambda>_. return_tx ())
             else return_tx ()) (\<lambda>_.
    return_tx (int (length flipped))))"

section \<open>Seat accounting\<close>

definition enrolments_ok :: "db \<Rightarrow> bool" where
  "enrolments_ok s =
    (distinct (map (\<lambda>e. (e_user_id e, e_course_id e)) (active_enrolments s)) \<and>
     (\<forall>c \<in> set (courses s). active_count (c_id c) s \<le> c_max_students c))"

lemma enrolments_ok_frame:
  "enrolments s' = enrolments s \<Longrightarrow> courses s' = courses s \<Longrightarrow> enrolments_ok s' = enrolments_ok s"
  by (simp add: enrolments_ok_def active_enrolments_def active_count_def)

lemma exists_active_iff:
  "list_ex (\<lambda>e. e_user_id e = uid \<and> e_course_id e = cid) (active_enrolments s) \<longleftrightarrow>
    (\<exists>e \<in> set (enrolments s). active_in uid cid e)"
  by (auto simp: list_ex_iff active_enrolments_def active_in_def)

lemma enrol_one_tx_Inr:
  assumes "enrol_one_tx locks uid cid oid now s = Inr (e, s')"
  obtains c where "course_by_id cid s = Some c" "active_count cid s < c_max_students c"
    "\<not> (\<exists>e \<in> set (enrolments s). active_in uid cid e)"
    "e = \<lparr>e_id = uuid_supply s (uuid_pos s), e_user_id = uid, e_course_id = cid, e_order_id = Some oid,
          e_status = Enr_Active, e_enrolled_at = now, e_created_at = now\<rparr>"
    "e_id e \<notin> e_id ` set (enrolments s)"
    "s' = s\<lparr>uuid_pos := uuid_pos s + 1, enrolments := enrolments s @ [e]\<rparr>"
  using assms
  by (auto simp: enrol_one_tx_def exists_active_tx_def insert_enrolment_tx_def bind_tx_Inr
      course_seats_tx_Inr exists_active_iff is_full_def Let_def split: if_splits)

lemma active_enrolments_append:
  "e_status e = Enr_Active \<Longrightarrow> enrolments s' = enrolments s @ [e] \<Longrightarrow>
    active_enrolments s' = active_enrolments s @ [e]"
  by (simp add: active_enrolments_def is_active_enrolment_def)

lemma course_by_id_frame: "courses s' = courses s \<Longrightarrow> course_by_id k s' = course_by_id k s"
  by (simp add: course_by_id_def)

lemma course_by_id_id: "course_by_id cid s = Some c \<Longrightarrow> c_id c = cid \<and> c \<in> set (courses s)"
  unfolding course_by_id_def by (auto dest: fetch_by_Some)

definition courses_ok :: "db \<Rightarrow> bool" where
  "courses_ok s = distinct (map c_id (courses s))"

lemma course_by_id_iff:
  "courses_ok s \<Longrightarrow> course_by_id cid s = Some c \<longleftrightarrow> c \<in> set (courses s) \<and> c_id c = cid"
  using distinct_key_fetch [of c_id "courses s" c] course_by_id_id [of cid s c]
  by (auto simp: courses_ok_def course_by_id_def)

lemma enrol_one_tx_ok:
  assumes "courses_ok s" "enrolments_ok s" "enrol_one_tx locks uid cid oid now s = Inr (e, s')"
  shows "enrolments_ok s'"
  using assms(3)
proof (rule enrol_one_tx_Inr)
  fix c
  assume c: "course_by_id cid s = Some c" "active_count cid s < c_max_students c"
    and none: "\<not> (\<exists>e \<in> set (enrolments s). active_in uid cid e)"
    and e: "e = \<lparr>e_id = uuid_supply s (uuid_pos s), e_user_id = uid, e_course_id = cid, e_order_id = Some oid,
          e_status = Enr_Active, e_enrolled_at = now, e_created_at = now\<rparr>"
    and s': "s' = s\<lparr>uuid_pos := uuid_pos s + 1, enrolments := enrolments s @ [e]\<rparr>"
  have act: "active_enrolments s' = active_enrolments s @ [e]"
    by (rule active_enrolments_append) (simp_all add: e s')
  then have count: "active_count k s' = active_count k s + (if k = cid then 1 else 0)" for k
    by (simp add: active_count_def e)
  have "distinct (map (\<lambda>e. (e_user_id e, e_course_id e)) (active_enrolments s'))"
    using assms(2) none unfolding act
    by (auto simp: enrolments_ok_def e active_enrolments_def active_in_def)
  moreover have "active_count (c_id d) s' \<le> c_max_students d" if "d \<in> set (courses s')" for d
  proof (cases "c_id d = cid")
    case True
    then have "d = c" using that c(1) course_by_id_iff [OF assms(1), of cid d] by (simp add: s')
    then show ?thesis using True c(2) by (simp add: count)
  next
    case False
    have "d \<in> set (courses s)" using that by (simp add: s')
    then show ?thesis using False assms(2) unfolding count by (simp add: enrolments_ok_def)
  qed
  ultimately show ?thesis by (simp add: enrolments_ok_def)
qed

lemma enrol_one_tx_leaves [leaves_intros]:
  "(\<And>s n es. g (s\<lparr>uuid_pos := n, enrolments := es\<rparr>) = g s) \<Longrightarrow>
    leaves g (enrol_one_tx locks uid cid oid now)"
  by (rule leavesI) (erule enrol_one_tx_Inr, simp)

definition enrolled_row :: "uuid \<Rightarrow> uuid \<Rightarrow> instant \<Rightarrow> enrolment \<Rightarrow> bool" where
  "enrolled_row uid oid now e = (e_user_id e = uid \<and> e_order_id e = Some oid \<and>
    e_status e = Enr_Active \<and> e_enrolled_at e = now \<and> e_created_at e = now)"

lemma enrol_all_Inr:
  "for_tx (\<lambda>cid. enrol_one_tx locks uid cid oid now) cids s = Inr (es, s') \<Longrightarrow>
    enrolments s' = enrolments s @ es \<and> map e_course_id es = cids \<and>
    (\<forall>e \<in> set es. enrolled_row uid oid now e) \<and> distinct cids \<and>
    (\<forall>cid \<in> set cids. active_count cid s' = active_count cid s + 1 \<and>
      (\<exists>c. course_by_id cid s = Some c \<and> active_count cid s' \<le> c_max_students c)) \<and>
    (\<forall>cid. cid \<notin> set cids \<longrightarrow> active_count cid s' = active_count cid s) \<and>
    (\<forall>cid \<in> set cids. \<not> (\<exists>e \<in> set (enrolments s). active_in uid cid e)) \<and>
    s' = s\<lparr>uuid_pos := uuid_pos s', enrolments := enrolments s'\<rparr>"
proof (induction cids arbitrary: s es)
  case (Cons cid cids)
  obtain e t es' where one: "enrol_one_tx locks uid cid oid now s = Inr (e, t)"
    and rest: "for_tx (\<lambda>cid. enrol_one_tx locks uid cid oid now) cids t = Inr (es', s')"
    and es: "es = e # es'"
    using Cons.prems by (auto simp: bind_tx_Inr)
  obtain c where c: "course_by_id cid s = Some c" "active_count cid s < c_max_students c"
    and none: "\<not> (\<exists>e \<in> set (enrolments s). active_in uid cid e)"
    and e: "e = \<lparr>e_id = uuid_supply s (uuid_pos s), e_user_id = uid, e_course_id = cid, e_order_id = Some oid,
          e_status = Enr_Active, e_enrolled_at = now, e_created_at = now\<rparr>"
    and t: "t = s\<lparr>uuid_pos := uuid_pos s + 1, enrolments := enrolments s @ [e]\<rparr>"
    using one by (rule enrol_one_tx_Inr)
  have "active_enrolments t = active_enrolments s @ [e]"
    by (rule active_enrolments_append) (simp_all add: e t)
  then have count: "active_count k t = active_count k s + (if k = cid then 1 else 0)" for k
    by (simp add: active_count_def e)
  have courses: "course_by_id k t = course_by_id k s" for k
    by (rule course_by_id_frame) (simp add: t)
  have ih: "enrolments s' = enrolments t @ es'" "map e_course_id es' = cids"
    "\<forall>e \<in> set es'. enrolled_row uid oid now e" "distinct cids"
    "\<forall>cid \<in> set cids. active_count cid s' = active_count cid t + 1 \<and>
      (\<exists>c. course_by_id cid t = Some c \<and> active_count cid s' \<le> c_max_students c)"
    "\<forall>cid. cid \<notin> set cids \<longrightarrow> active_count cid s' = active_count cid t"
    "\<forall>cid \<in> set cids. \<not> (\<exists>e \<in> set (enrolments t). active_in uid cid e)"
    "s' = t\<lparr>uuid_pos := uuid_pos s', enrolments := enrolments s'\<rparr>"
    using Cons.IH [OF rest] by blast+
  have "active_in uid cid e" by (simp add: e active_in_def is_active_enrolment_def)
  then have notin: "cid \<notin> set cids" using ih(7) by (auto simp: t)
  have frame: "s' = s\<lparr>uuid_pos := uuid_pos s', enrolments := enrolments s'\<rparr>"
    by (subst ih(8)) (simp add: t)
  have "enrolments s' = enrolments s @ es" "map e_course_id es = cid # cids"
    "\<forall>e \<in> set es. enrolled_row uid oid now e" "distinct (cid # cids)"
    using ih(1-4) notin by (simp_all add: es t e enrolled_row_def)
  moreover have "\<forall>k \<in> set (cid # cids). active_count k s' = active_count k s + 1 \<and>
      (\<exists>c. course_by_id k s = Some c \<and> active_count k s' \<le> c_max_students c)"
    using ih(5,6) notin c by (auto simp: count courses)
  moreover have "\<forall>k. k \<notin> set (cid # cids) \<longrightarrow> active_count k s' = active_count k s"
    using ih(6) by (simp add: count)
  moreover have "\<forall>k \<in> set (cid # cids). \<not> (\<exists>e \<in> set (enrolments s). active_in uid k e)"
    using ih(7) none by (auto simp: t)
  ultimately show ?case using frame by blast
qed simp

lemma enrol_batch_effect_spec:
  assumes "course_locks_ok locks"
    and "enrol_batch_from_purchase_tx locks buyer course_ids oid now s = Inr (es, s')"
  shows "enrolments s' = enrolments s @ es \<and> mset (map e_course_id es) = mset course_ids \<and>
    (\<forall>e \<in> set es. enrolled_row (bl_user_id buyer) oid now e) \<and> distinct course_ids \<and>
    (\<forall>cid \<in> set course_ids. course_covers locks cid \<and>
      \<not> (\<exists>e \<in> set (enrolments s). active_in (bl_user_id buyer) cid e) \<and>
      active_count cid s' = active_count cid s + 1 \<and>
      (\<exists>c. course_by_id cid s = Some c \<and> active_count cid s' \<le> c_max_students c)) \<and>
    (\<forall>cid. cid \<notin> set course_ids \<longrightarrow> active_count cid s' = active_count cid s) \<and>
    s' = s\<lparr>uuid_pos := uuid_pos s', enrolments := enrolments s'\<rparr>"
proof -
  obtain ordered where o: "course_lock_order locks (\<lambda>i. i) course_ids = Inr ordered"
    and run: "for_tx (\<lambda>cid. enrol_one_tx locks (bl_user_id buyer) cid oid now) ordered s = Inr (es, s')"
    using assms(2) by (auto simp: enrol_batch_from_purchase_tx_def bind_tx_Inr)
  have same: "mset ordered = mset course_ids" by (rule course_order.ordered_lines(1) [OF assms(1) o])
  then have sets: "set ordered = set course_ids" "distinct course_ids = distinct ordered"
    by (metis set_mset_mset, metis mset_eq_imp_distinct_iff)
  have cov: "\<forall>cid \<in> set course_ids. course_covers locks cid"
    using course_order.ordered_lines(3) [OF assms(1) o] by blast
  note all = enrol_all_Inr [OF run]
  have "mset (map e_course_id es) = mset course_ids" using all same by presburger
  then show ?thesis using all cov unfolding sets by blast
qed

text \<open>
  C11. A purchase enrols its buyer in exactly the courses of the cart: one active enrolment per course,
  in the buyer's name and for the order, appended to the table; the courses are distinct, exist and
  held no active enrolment of the buyer; each loses one seat and stays within its capacity, every
  other course keeps its seats, and no other table changes.
\<close>

theorem enrol_batch_effect:
  assumes "course_locks_ok locks"
    and "enrol_batch_from_purchase_tx locks buyer course_ids oid now s = Inr (es, s')"
  shows "enrolments s' = enrolments s @ es \<and> mset (map e_course_id es) = mset course_ids \<and>
    (\<forall>e \<in> set es. enrolled_row (bl_user_id buyer) oid now e) \<and> distinct course_ids \<and>
    (\<forall>cid \<in> set course_ids. course_covers locks cid \<and>
      \<not> (\<exists>e \<in> set (enrolments s). active_in (bl_user_id buyer) cid e) \<and>
      active_count cid s' = active_count cid s + 1 \<and>
      (\<exists>c. course_by_id cid s = Some c \<and> active_count cid s' \<le> c_max_students c)) \<and>
    (\<forall>cid. cid \<notin> set course_ids \<longrightarrow> active_count cid s' = active_count cid s) \<and>
    s' = s\<lparr>uuid_pos := uuid_pos s', enrolments := enrolments s'\<rparr>"
  using assms by (rule enrol_batch_effect_spec)

definition sample_course :: "uuid \<Rightarrow> int \<Rightarrow> course" where
  "sample_course i seats = \<lparr>c_id = i, c_name = ''Aerial'', c_slug = ''aerial'', c_level = CL_Beginner,
     c_description = None, c_duration_minutes = 60, c_price_cents = 200000, c_max_students = seats,
     c_min_age = None, c_max_age = None, c_features = [], c_is_active = True, c_coach_id = None,
     c_category = None, c_schedule_text = None, c_is_highlighted = False, c_created_at = 0\<rparr>"

definition studio_example :: db where
  "studio_example = empty_db\<lparr>courses := [sample_course 31 1, sample_course 32 8],
     enrolments := [\<lparr>e_id = 61, e_user_id = 12, e_course_id = 32, e_order_id = Some 70,
       e_status = Enr_Active, e_enrolled_at = 5, e_created_at = 5\<rparr>],
     leave_requests := [\<lparr>lr_id = 81, lr_enrolment_id = 61, lr_session_id = 91, lr_reason = None,
       lr_status = Leave_Pending, lr_makeup_session_id = None, lr_decided_by = None,
       lr_decided_at = None, lr_created_at = 6\<rparr>]\<rparr>"

lemma enrol_batch_effect_witness:
  "\<exists>es s'. enrol_batch_from_purchase_tx \<lparr>clk_ids = [31, 32]\<rparr> \<lparr>bl_user_id = 11, bl_balance = 0\<rparr>
      [32, 31] 77 99 studio_example = Inr (es, s') \<and>
    active_count 31 s' = 1 \<and> active_count 32 s' = 2 \<and> length es = 2"
proof -
  have "succeeds (enrol_batch_from_purchase_tx \<lparr>clk_ids = [31, 32]\<rparr> \<lparr>bl_user_id = 11, bl_balance = 0\<rparr>
      [32, 31] 77 99 studio_example)"
    by code_simp
  then obtain es s' where run: "enrol_batch_from_purchase_tx \<lparr>clk_ids = [31, 32]\<rparr>
      \<lparr>bl_user_id = 11, bl_balance = 0\<rparr> [32, 31] 77 99 studio_example = Inr (es, s')"
    by (auto elim: succeedsE)
  have ok: "course_locks_ok \<lparr>clk_ids = [31, 32]\<rparr>" by (simp add: course_locks_ok_def)
  have counts: "active_count 31 studio_example = 0" "active_count 32 studio_example = 1" by code_simp+
  note eff = enrol_batch_effect [OF ok run]
  have "mset (map e_course_id es) = mset [32, 31]" using eff by blast
  then have "length es = 2" by (metis length_map mset_eq_length length_Cons list.size(3) numeral_2_eq_2)
  moreover have "active_count 31 s' = 1" "active_count 32 s' = 2" using eff counts by auto
  ultimately show ?thesis using run by blast
qed

section \<open>Cancellation\<close>

definition cancel_leave :: "leave_request \<Rightarrow> leave_request" where
  "cancel_leave l = l\<lparr>lr_status := Leave_Cancelled\<rparr>"

lemma cancel_pending_Inr:
  "cancel_pending_for_enrolments_tx ids s = Inr (n, s') \<longleftrightarrow>
    n = int (count_where (pending_of ids) (leave_requests s)) \<and>
    s' = s\<lparr>leave_requests := update_where (pending_of ids) cancel_leave (leave_requests s)\<rparr>"
  by (auto simp: cancel_pending_for_enrolments_tx_def cancel_pending_for_enrolments_rows_def
      cancel_leave_def [abs_def])

lemma cancel_enrolments_by_order_tx_Inr:
  "cancel_enrolments_by_order_tx oid s = Inr (n, s') \<longleftrightarrow>
    n = int (count_where (of_order oid) (enrolments s)) \<and>
    s' = s\<lparr>enrolments := update_where (of_order oid) cancel_enrolment_row (enrolments s),
      leave_requests := update_where (pending_of (map e_id (filter (of_order oid) (enrolments s))))
        cancel_leave (leave_requests s)\<rparr>"
  (is "_ \<longleftrightarrow> _ \<and> s' = ?t")
proof (cases "filter (of_order oid) (enrolments s) = []")
  case True
  then have "update_where (pending_of (map e_id (filter (of_order oid) (enrolments s)))) cancel_leave
      (leave_requests s) = leave_requests s"
    by (intro update_where_none) (simp add: pending_of_def)
  moreover have "update_where (of_order oid) cancel_enrolment_row (enrolments s) = enrolments s"
    using True by (intro update_where_none) (auto simp: filter_empty_conv)
  ultimately show ?thesis using True
    by (auto simp: cancel_enrolments_by_order_tx_def cancel_enrolments_by_order_rows_def bind_tx_Inr
        count_where_def)
next
  case False
  then show ?thesis
    by (auto simp: cancel_enrolments_by_order_tx_def cancel_enrolments_by_order_rows_def bind_tx_Inr
        count_where_def cancel_pending_Inr)
qed

lemma cancel_rows_active:
  assumes "enrolments s' = update_where P cancel_enrolment_row (enrolments s)"
  shows "active_enrolments s' = filter (\<lambda>e. \<not> P e) (active_enrolments s)"
proof -
  have "filter is_active_enrolment (update_where P cancel_enrolment_row t) =
      filter (\<lambda>e. \<not> P e) (filter is_active_enrolment t)" for t
    by (induction t) (auto simp: is_active_enrolment_def cancel_enrolment_row_def)
  then show ?thesis by (simp add: active_enrolments_def assms)
qed

lemma count_where_filter_le: "count_where Q (filter P t) \<le> count_where Q t"
  by (induction t) auto

lemma cancel_rows_ok:
  assumes "enrolments_ok s" "enrolments s' = update_where P cancel_enrolment_row (enrolments s)"
    "courses s' = courses s"
  shows "enrolments_ok s'"
proof -
  note act = cancel_rows_active [OF assms(2)]
  have "distinct (map (\<lambda>e. (e_user_id e, e_course_id e)) (active_enrolments s'))"
    using assms(1) unfolding act enrolments_ok_def by (simp add: distinct_map_filter)
  moreover have "active_count k s' \<le> active_count k s" for k
    unfolding active_count_def act using count_where_filter_le by simp
  ultimately show ?thesis using assms(1,3)
    unfolding enrolments_ok_def by (metis order_trans)
qed

lemma count_where_split: "count_where Q t = count_where (\<lambda>e. Q e \<and> P e) t + count_where Q (filter (\<lambda>e. \<not> P e) t)"
  by (induction t) auto

definition order_holds :: "uuid \<Rightarrow> uuid \<Rightarrow> db \<Rightarrow> int" where
  "order_holds oid cid s =
    int (count_where (\<lambda>e. e_course_id e = cid \<and> e_order_id e = Some oid) (active_enrolments s))"

lemma cancel_order_releases_seats_spec:
  assumes "cancel_enrolments_by_order_tx oid s = Inr (n, s')"
  shows "(\<forall>e \<in> set (active_enrolments s'). e_order_id e \<noteq> Some oid) \<and>
    (\<forall>cid. active_count cid s' = active_count cid s - order_holds oid cid s) \<and>
    leave_requests s' = map (\<lambda>l. if lr_status l = Leave_Pending \<and>
        (\<exists>e \<in> set (active_enrolments s). e_order_id e = Some oid \<and> e_id e = lr_enrolment_id l)
      then l\<lparr>lr_status := Leave_Cancelled\<rparr> else l) (leave_requests s) \<and>
    n = int (count_where (\<lambda>e. e_order_id e = Some oid) (active_enrolments s)) \<and>
    cancel_enrolments_by_order_tx oid s' = Inr (0, s') \<and>
    s' = s\<lparr>enrolments := enrolments s', leave_requests := leave_requests s'\<rparr>"
proof -
  have n: "n = int (count_where (of_order oid) (enrolments s))"
    and s': "s' = s\<lparr>enrolments := update_where (of_order oid) cancel_enrolment_row (enrolments s),
      leave_requests := update_where (pending_of (map e_id (filter (of_order oid) (enrolments s))))
        cancel_leave (leave_requests s)\<rparr>"
    using assms by (simp_all add: cancel_enrolments_by_order_tx_Inr)
  have rows: "enrolments s' = update_where (of_order oid) cancel_enrolment_row (enrolments s)"
    by (simp add: s')
  note act = cancel_rows_active [OF rows]
  have alive: "e_status e \<noteq> Enr_Cancelled \<longleftrightarrow> is_active_enrolment e" for e
    by (cases "e_status e") (simp_all add: is_active_enrolment_def)
  have left: "\<forall>e \<in> set (active_enrolments s'). e_order_id e \<noteq> Some oid"
    unfolding act by (auto simp: of_order_def alive active_enrolments_def)
  have eq: "count_where (\<lambda>e. e_course_id e = cid \<and> of_order oid e) (active_enrolments s) =
      count_where (\<lambda>e. e_course_id e = cid \<and> e_order_id e = Some oid) (active_enrolments s)" for cid
    unfolding count_where_def
    by (rule arg_cong [where f = length], rule filter_cong) (auto simp: of_order_def alive active_enrolments_def)
  have seats: "\<forall>cid. active_count cid s' = active_count cid s - order_holds oid cid s"
  proof
    fix cid
    show "active_count cid s' = active_count cid s - order_holds oid cid s"
      unfolding active_count_def order_holds_def act
        count_where_split [of "\<lambda>e. e_course_id e = cid" "active_enrolments s" "of_order oid"] eq
      by simp
  qed
  have num: "n = int (count_where (\<lambda>e. e_order_id e = Some oid) (active_enrolments s))"
    unfolding n active_enrolments_def count_where_def filter_filter
    by (rule arg_cong [where f = "\<lambda>x. int (length x)"], rule filter_cong) (auto simp: of_order_def alive)
  have leaves: "leave_requests s' = map (\<lambda>l. if lr_status l = Leave_Pending \<and>
        (\<exists>e \<in> set (active_enrolments s). e_order_id e = Some oid \<and> e_id e = lr_enrolment_id l)
      then l\<lparr>lr_status := Leave_Cancelled\<rparr> else l) (leave_requests s)"
  proof -
    have "pending_of (map e_id (filter (of_order oid) (enrolments s))) l \<longleftrightarrow> lr_status l = Leave_Pending \<and>
        (\<exists>e \<in> set (active_enrolments s). e_order_id e = Some oid \<and> e_id e = lr_enrolment_id l)" for l
      by (force simp: pending_of_def of_order_def alive active_enrolments_def)
    then show ?thesis by (simp add: s' update_where_def cancel_leave_def)
  qed
  have none: "count_where (of_order oid) (enrolments s') = 0"
    unfolding rows count_where_def
    by (auto simp: filter_empty_conv set_update_where of_order_def cancel_enrolment_row_def)
  then have "filter (of_order oid) (enrolments s') = []" by (simp add: count_where_def)
  then have "update_where (of_order oid) cancel_enrolment_row (enrolments s') = enrolments s'"
    "update_where (pending_of (map e_id (filter (of_order oid) (enrolments s')))) cancel_leave
      (leave_requests s') = leave_requests s'"
    by (auto intro!: update_where_none simp: filter_empty_conv pending_of_def)
  then have again: "cancel_enrolments_by_order_tx oid s' = Inr (0, s')"
    using none by (simp add: cancel_enrolments_by_order_tx_Inr)
  have "s' = s\<lparr>enrolments := enrolments s', leave_requests := leave_requests s'\<rparr>" by (simp add: s')
  then show ?thesis using left seats leaves num again by blast
qed

text \<open>
  Cancelling an order's enrolments gives back exactly the order's seats: no active enrolment of the
  order is left, every course regains the seats the order held in it, the pending leave requests of
  the enrolments just cancelled (and no other leave request) are cancelled, the number returned is
  the number of enrolments cancelled, and a second call finds nothing to do.
\<close>

theorem cancel_order_releases_seats:
  assumes "cancel_enrolments_by_order_tx oid s = Inr (n, s')"
  shows "(\<forall>e \<in> set (active_enrolments s'). e_order_id e \<noteq> Some oid) \<and>
    (\<forall>cid. active_count cid s' = active_count cid s - order_holds oid cid s) \<and>
    leave_requests s' = map (\<lambda>l. if lr_status l = Leave_Pending \<and>
        (\<exists>e \<in> set (active_enrolments s). e_order_id e = Some oid \<and> e_id e = lr_enrolment_id l)
      then l\<lparr>lr_status := Leave_Cancelled\<rparr> else l) (leave_requests s) \<and>
    n = int (count_where (\<lambda>e. e_order_id e = Some oid) (active_enrolments s)) \<and>
    cancel_enrolments_by_order_tx oid s' = Inr (0, s') \<and>
    s' = s\<lparr>enrolments := enrolments s', leave_requests := leave_requests s'\<rparr>"
  using assms by (rule cancel_order_releases_seats_spec)

lemma cancel_order_releases_seats_witness:
  "\<exists>s'. cancel_enrolments_by_order_tx 70 studio_example = Inr (1, s') \<and> active_count 32 s' = 0 \<and>
    map lr_status (leave_requests s') = [Leave_Cancelled]"
proof -
  have "succeeds (cancel_enrolments_by_order_tx 70 studio_example)" by code_simp
  then obtain n s' where run: "cancel_enrolments_by_order_tx 70 studio_example = Inr (n, s')"
    by (auto elim: succeedsE)
  have facts: "active_count 32 studio_example = 1" "order_holds 70 32 studio_example = 1"
    "int (count_where (\<lambda>e. e_order_id e = Some 70) (active_enrolments studio_example)) = 1"
    "map lr_status (map (\<lambda>l. if lr_status l = Leave_Pending \<and>
        (\<exists>e \<in> set (active_enrolments studio_example). e_order_id e = Some 70 \<and> e_id e = lr_enrolment_id l)
      then l\<lparr>lr_status := Leave_Cancelled\<rparr> else l) (leave_requests studio_example)) = [Leave_Cancelled]"
    by code_simp+
  note eff = cancel_order_releases_seats [OF run]
  have n: "n = 1" using eff facts(3) by presburger
  have "active_count 32 s' = active_count 32 studio_example - order_holds 70 32 studio_example"
    using eff by blast
  then have seats: "active_count 32 s' = 0" using facts(1,2) by linarith
  have lv: "map lr_status (leave_requests s') = [Leave_Cancelled]" using eff facts(4) by presburger
  show ?thesis by (rule exI [of _ s'], intro conjI, rule run [unfolded n], rule seats, rule lv)
qed

lemma cancel_enrolment_steps_Inr:
  assumes "cancel_enrolment_steps auth i s = Inr (x, s')"
  obtains e c where "fetch_by (\<lambda>e. e_id e = i) (enrolments s) = Some e"
    "au_user_id auth = e_user_id e \<or> is_admin auth"
    "s' = s\<lparr>enrolments := update_where (\<lambda>e. e_id e = i \<and> e_status e \<noteq> Enr_Cancelled)
        cancel_enrolment_row (enrolments s),
      leave_requests := update_where (pending_of [i]) cancel_leave (leave_requests s)\<rparr>"
  using assms
  by (auto simp: cancel_enrolment_steps_def find_enrolment_by_id_tx_def cancel_if_active_tx_def
      bind_tx_Inr cancel_pending_Inr split: option.splits)

lemma enrol_batch_keeps:
  "keeps (\<lambda>s. courses_ok s \<and> enrolments_ok s) (enrol_batch_from_purchase_tx locks buyer cids oid now)"
proof -
  have "keeps (\<lambda>s. courses_ok s \<and> enrolments_ok s) (enrol_one_tx locks uid cid oid now)" for uid cid
  proof (rule keepsI)
    fix s x s'
    assume ok: "courses_ok s \<and> enrolments_ok s" and run: "enrol_one_tx locks uid cid oid now s = Inr (x, s')"
    have "leaves courses (enrol_one_tx locks uid cid oid now)" by (rule leaves_intros) simp
    then have "courses s' = courses s" using run by (rule leavesD)
    then show "courses_ok s' \<and> enrolments_ok s'"
      using ok enrol_one_tx_ok [OF _ _ run] by (simp add: courses_ok_def)
  qed
  then show ?thesis unfolding enrol_batch_from_purchase_tx_def by (intro keeps_intros)
qed



end
