(* ===== verification/Subscriptions.thy ===== *)
theory Subscriptions
  imports Enrolments
begin

text \<open>
  Subscriptions (\<open>src/modules/subscriptions\<close>): what a purchase entitles its buyer to, the row it
  writes, the status derived at read time, the redemption of one session and the cancellation of an
  order's subscriptions.

  A Rust panic unwinds the handler and drops its transaction; it is the error \<open>panicked\<close> here, with
  the same rollback.
\<close>

section \<open>Entitlement\<close>

definition wrap32 :: "int \<Rightarrow> int" where
  "wrap32 x = (x + 2 ^ 31) mod 2 ^ 32 - 2 ^ 31"

lemma wrap32_id [simp]: "in_i32 x \<Longrightarrow> wrap32 x = x"
  by (simp add: wrap32_def in_i32_def)

definition panicked :: "string \<Rightarrow> app_error" where
  "panicked msg = Internal (''panic: '' @ msg)"

definition max_utc :: instant where
  "max_utc = (day_number 262142 12 31 + 1) * micros_per_day - 1"

definition add_days :: "instant \<Rightarrow> int \<Rightarrow> app_error + instant" where
  "add_days now days =
    (let t = now + days * micros_per_day in
     if t \<le> max_utc then Inr t else Inl (panicked ''`DateTime + TimeDelta` overflowed''))"

record entitlement_grant =
  eg_total_sessions :: "int option"
  eg_remaining_sessions :: "int option"
  eg_expires_at :: "instant option"

definition add_days_option :: "instant \<Rightarrow> int option \<Rightarrow> app_error + instant option" where
  "add_days_option now days =
    (case days of None \<Rightarrow> Inr None
     | Some d \<Rightarrow> (case add_days now d of Inl e \<Rightarrow> Inl e | Inr t \<Rightarrow> Inr (Some t)))"

definition is_entitlement :: "product \<Rightarrow> bool" where
  "is_entitlement p = (p_product_type p = PT_Membership \<or> p_product_type p = PT_Ticket)"

definition entitlement_plan :: "product \<Rightarrow> int \<Rightarrow> instant \<Rightarrow> app_error + entitlement_grant option" where
  "entitlement_plan p quantity now =
    (if \<not> is_entitlement p then Inr None
     else case p_session_count p of
       Some per_pack \<Rightarrow>
         (let n = wrap32 (per_pack * quantity) in
          case add_days_option now (p_valid_days p) of
            Inl e \<Rightarrow> Inl e
          | Inr expires \<Rightarrow> Inr (Some \<lparr>eg_total_sessions = Some n, eg_remaining_sessions = Some n,
              eg_expires_at = expires\<rparr>))
     | None \<Rightarrow>
         (case p_valid_days p of
            Some days \<Rightarrow>
              (case add_days now days of
                 Inl e \<Rightarrow> Inl e
               | Inr t \<Rightarrow> Inr (Some \<lparr>eg_total_sessions = None, eg_remaining_sessions = None,
                   eg_expires_at = Some t\<rparr>))
          | None \<Rightarrow> Inr (Some \<lparr>eg_total_sessions = None, eg_remaining_sessions = None,
              eg_expires_at = None\<rparr>)))"

section \<open>Repository\<close>

definition subscription_derived_status ::
  "subscription_status \<Rightarrow> instant option \<Rightarrow> int option \<Rightarrow> instant \<Rightarrow> subscription_status" where
  "subscription_derived_status status expires_at quota now =
    (if status = Sub_Cancelled then Sub_Cancelled
     else if (case expires_at of None \<Rightarrow> False | Some e \<Rightarrow> e \<le> now) \<or> quota = Some 0 then Sub_Expired
     else Sub_Active)"

definition derived_status :: "subscription \<Rightarrow> instant \<Rightarrow> subscription_status" where
  "derived_status r now =
    subscription_derived_status (s_status r) (s_expires_at r) (s_remaining_sessions r) now"

definition insert_subscription_tx ::
  "uuid \<Rightarrow> uuid \<Rightarrow> uuid \<Rightarrow> instant option \<Rightarrow> int option \<Rightarrow> int option \<Rightarrow> int \<Rightarrow> instant \<Rightarrow> subscription sql" where
  "insert_subscription_tx uid pid order_id expires_at total_sessions remaining_sessions price_cents now =
    bind_tx fresh_uuid (\<lambda>i s.
      let row = \<lparr>s_id = i, s_user_id = uid, s_product_id = pid, s_order_id = Some order_id,
                 s_status = Sub_Active, s_started_at = now, s_expires_at = expires_at,
                 s_total_sessions = total_sessions, s_remaining_sessions = remaining_sessions,
                 s_price_cents = price_cents, s_created_at = now\<rparr> in
      if i \<in> s_id ` set (subscriptions s) then Inl (UniqueViolation ''subscriptions_pkey'')
      else if (case total_sessions of None \<Rightarrow> False | Some n \<Rightarrow> n \<le> 0)
      then Inl (CheckViolation ''subscriptions_total_sessions_check'')
      else if (case remaining_sessions of None \<Rightarrow> False | Some n \<Rightarrow> n < 0)
      then Inl (CheckViolation ''subscriptions_remaining_sessions_check'')
      else Inr (row, s\<lparr>subscriptions := subscriptions s @ [row]\<rparr>))"

definition find_subscription_by_id :: "uuid \<Rightarrow> subscription option sql" where
  "find_subscription_by_id i = get_tx (\<lambda>s. fetch_by (\<lambda>r. s_id r = i) (subscriptions s))"

record subscription_with_product =
  sp_row :: subscription
  sp_product_name :: string
  sp_derived_status :: subscription_status

definition with_product :: "db \<Rightarrow> subscription \<Rightarrow> subscription_with_product option" where
  "with_product s r = map_option (\<lambda>p. \<lparr>sp_row = r, sp_product_name = p_name p,
     sp_derived_status = derived_status r (db_now s)\<rparr>) (product_by_id (s_product_id r) s)"

definition find_subscriptions_by_user :: "uuid \<Rightarrow> subscription_with_product list sql" where
  "find_subscriptions_by_user uid = get_tx (\<lambda>s. List.map_filter (with_product s)
    (rev (sort_key s_created_at (filter (\<lambda>r. s_user_id r = uid) (subscriptions s)))))"

definition find_subscriptions_by_order :: "uuid \<Rightarrow> subscription_with_product list sql" where
  "find_subscriptions_by_order order_id = get_tx (\<lambda>s. List.map_filter (with_product s)
    (sort_key s_created_at (filter (\<lambda>r. s_order_id r = Some order_id) (subscriptions s))))"

definition sub_of_order :: "uuid \<Rightarrow> subscription \<Rightarrow> bool" where
  "sub_of_order order_id r = (s_order_id r = Some order_id \<and> s_status r \<noteq> Sub_Cancelled)"

definition cancel_subscriptions_by_order_rows :: "uuid \<Rightarrow> int sql" where
  "cancel_subscriptions_by_order_rows order_id = (\<lambda>s.
    Inr (int (count_where (sub_of_order order_id) (subscriptions s)),
      s\<lparr>subscriptions := update_where (sub_of_order order_id) (\<lambda>r. r\<lparr>s_status := Sub_Cancelled\<rparr>)
          (subscriptions s)\<rparr>))"

definition product_name :: "uuid \<Rightarrow> string sql" where
  "product_name pid =
    bind_tx (get_tx (product_by_id pid)) (\<lambda>p. of_option_tx RowNotFound (map_option p_name p))"

definition redeemable :: "uuid \<Rightarrow> instant \<Rightarrow> subscription \<Rightarrow> bool" where
  "redeemable i now r =
    (s_id r = i \<and> derived_status r now = Sub_Active \<and>
     (case s_remaining_sessions r of None \<Rightarrow> False | Some n \<Rightarrow> n > 0))"

definition take_session :: "subscription \<Rightarrow> subscription" where
  "take_session r = r\<lparr>s_remaining_sessions := map_option (\<lambda>n. n - 1) (s_remaining_sessions r)\<rparr>"

definition redeem_one_session :: "uuid \<Rightarrow> subscription option sql" where
  "redeem_one_session i = (\<lambda>s.
    Inr (map_option take_session (fetch_by (redeemable i (db_now s)) (subscriptions s)),
      s\<lparr>subscriptions := update_where (redeemable i (db_now s)) take_session (subscriptions s)\<rparr>))"

section \<open>Service\<close>

definition grant_from_purchase_tx ::
  "balance_lock \<Rightarrow> product \<Rightarrow> int \<Rightarrow> int \<Rightarrow> uuid \<Rightarrow> instant \<Rightarrow> subscription option app" where
  "grant_from_purchase_tx buyer p quantity price_cents order_id now =
    bind_tx (of_result_tx (entitlement_plan p quantity now)) (\<lambda>g.
    case g of
      None \<Rightarrow> return_tx None
    | Some grant \<Rightarrow>
        bind_tx (db_try (insert_subscription_tx (bl_user_id buyer) (p_id p) order_id (eg_expires_at grant)
          (eg_total_sessions grant) (eg_remaining_sessions grant) price_cents now)) (\<lambda>row.
        return_tx (Some row)))"

record subscription_response =
  sr_id :: uuid
  sr_product_id :: uuid
  sr_product_name :: string
  sr_status :: subscription_status
  sr_started_at :: instant
  sr_expires_at :: "instant option"
  sr_total_sessions :: "int option"
  sr_remaining_sessions :: "int option"
  sr_price_cents :: int

definition subscription_response_of :: "subscription \<Rightarrow> subscription_status \<Rightarrow> string \<Rightarrow> subscription_response" where
  "subscription_response_of r status name = \<lparr>sr_id = s_id r, sr_product_id = s_product_id r,
     sr_product_name = name, sr_status = status, sr_started_at = s_started_at r,
     sr_expires_at = s_expires_at r, sr_total_sessions = s_total_sessions r,
     sr_remaining_sessions = s_remaining_sessions r, sr_price_cents = s_price_cents r\<rparr>"

definition joined_response :: "subscription_with_product \<Rightarrow> subscription_response" where
  "joined_response j = subscription_response_of (sp_row j) (sp_derived_status j) (sp_product_name j)"

definition list_my_subscriptions :: "uuid \<Rightarrow> subscription_response list app" where
  "list_my_subscriptions uid =
    bind_tx (db_try (find_subscriptions_by_user uid)) (\<lambda>rows. return_tx (map joined_response rows))"

definition list_subscriptions_by_order :: "uuid \<Rightarrow> subscription_response list app" where
  "list_subscriptions_by_order order_id =
    bind_tx (db_try (find_subscriptions_by_order order_id)) (\<lambda>rows. return_tx (map joined_response rows))"

definition cancel_subscriptions_by_order_tx :: "uuid \<Rightarrow> int app" where
  "cancel_subscriptions_by_order_tx order_id = db_try (cancel_subscriptions_by_order_rows order_id)"

text \<open>The answers of a redemption that took nothing, and of one that did; both only read.\<close>

definition redeem_refused :: "uuid \<Rightarrow> subscription_response app" where
  "redeem_refused i =
    bind_tx (db_try (find_subscription_by_id i)) (\<lambda>r.
    bind_tx (of_option_tx (NotFound ''subscription not found'') r) (\<lambda>current.
    fail_tx (if s_remaining_sessions current = None then Conflict ''subscription has no session quota''
             else Conflict ''subscription is not redeemable'')))"

definition redeem_taken :: "subscription \<Rightarrow> subscription_response app" where
  "redeem_taken row =
    bind_tx (db_try (product_name (s_product_id row))) (\<lambda>name.
    bind_tx (get_tx db_now) (\<lambda>now.
    return_tx (subscription_response_of row (derived_status row now) name)))"

definition redeem_session :: "uuid \<Rightarrow> subscription_response handler" where
  "redeem_session i =
    after_commit (commit_tx (db_try (redeem_one_session i))) (\<lambda>r.
      case r of Some row \<Rightarrow> redeem_taken row | None \<Rightarrow> redeem_refused i)"

section \<open>What a purchase grants\<close>

definition catalogue_product :: "product \<Rightarrow> bool" where
  "catalogue_product p =
    ((case p_session_count p of None \<Rightarrow> True | Some n \<Rightarrow> 1 \<le> n \<and> n \<le> 1000) \<and>
     (case p_valid_days p of None \<Rightarrow> True | Some d \<Rightarrow> 1 \<le> d \<and> d \<le> 3650))"

lemma max_utc_value: "max_utc = 8210266876799999999"
  by (simp add: max_utc_def day_number_def Let_def)

lemma add_days_ok: "0 \<le> now \<Longrightarrow> now < 2 ^ 62 \<Longrightarrow> d \<le> 3650 \<Longrightarrow> add_days now d = Inr (now + d * micros_per_day)"
  by (simp add: add_days_def max_utc_value)

text \<open>
  What a purchase grants: for a product the catalogue accepts at creation, in a quantity its line
  rule admits, nothing is granted unless the product is a membership or a ticket; otherwise a session
  quota is the exact product of the pack's size and the quantity, all of it remaining and positive, a
  validity is counted once from the purchase instant, and a purely time-based product is bought one
  at a time. No arithmetic wraps and nothing fails.
\<close>

theorem entitlement_exact:
  assumes "catalogue_product p" "ensure_line_quantity p quantity = Inr ()" "0 \<le> now" "now < 2 ^ 62"
  shows "entitlement_plan p quantity now =
      Inr (if is_entitlement p then Some
        \<lparr>eg_total_sessions = map_option (\<lambda>n. n * quantity) (p_session_count p),
         eg_remaining_sessions = map_option (\<lambda>n. n * quantity) (p_session_count p),
         eg_expires_at = map_option (\<lambda>d. now + d * micros_per_day) (p_valid_days p)\<rparr> else None) \<and>
    (is_entitlement p \<and> p_session_count p = None \<and> p_valid_days p \<noteq> None \<longrightarrow> quantity = 1) \<and>
    (\<forall>n. p_session_count p = Some n \<longrightarrow> 0 < n * quantity)"
proof -
  have q: "1 \<le> quantity" "quantity \<le> 999" "is_time_based_entitlement p \<longrightarrow> quantity = 1"
    using assms(2) by (simp_all add: ensure_line_quantity_ok)
  have n: "in_i32 (n * quantity)" "0 < n * quantity" if "p_session_count p = Some n" for n
  proof -
    have n: "1 \<le> n" "n \<le> 1000" using assms(1) that by (simp_all add: catalogue_product_def)
    have "n * quantity \<le> 1000 * 999" using n q by (intro mult_mono) auto
    moreover show "0 < n * quantity" using n q by simp
    ultimately show "in_i32 (n * quantity)" by (simp add: in_i32_def)
  qed
  have d: "add_days now d = Inr (now + d * micros_per_day)" if "p_valid_days p = Some d" for d
    using assms that by (intro add_days_ok) (auto simp: catalogue_product_def)
  have "entitlement_plan p quantity now =
      Inr (if is_entitlement p then Some
        \<lparr>eg_total_sessions = map_option (\<lambda>n. n * quantity) (p_session_count p),
         eg_remaining_sessions = map_option (\<lambda>n. n * quantity) (p_session_count p),
         eg_expires_at = map_option (\<lambda>d. now + d * micros_per_day) (p_valid_days p)\<rparr> else None)"
    using n(1) d by (auto simp: entitlement_plan_def add_days_option_def Let_def split: option.splits)
  then show ?thesis using q(3) n(2) by (auto simp: is_time_based_entitlement_def is_entitlement_def)
qed

definition pass_product :: product where
  "pass_product = (sample_product 23 300000 None)\<lparr>p_product_type := PT_Ticket,
     p_session_count := Some 10, p_valid_days := Some 90\<rparr>"

lemma entitlement_exact_witness:
  "entitlement_plan pass_product 3 5 = Inr (Some \<lparr>eg_total_sessions = Some 30,
     eg_remaining_sessions = Some 30, eg_expires_at = Some 7776000000005\<rparr>)"
proof -
  have "catalogue_product pass_product" "ensure_line_quantity pass_product 3 = Inr ()"
    "(0 :: int) \<le> 5" "(5 :: int) < 2 ^ 62"
    by (simp_all add: catalogue_product_def pass_product_def ensure_line_quantity_ok
        is_time_based_entitlement_def)
  from entitlement_exact [OF this] show ?thesis
    by (simp add: pass_product_def is_entitlement_def)
qed

text \<open>
  The bounds of the catalogue are checked when a product is created, not when it is updated: with a
  pack size only an update can set, the unchecked 32-bit product of size and quantity wraps.
\<close>

lemma entitlement_wraps_beyond_catalogue:
  "entitlement_plan (pass_product\<lparr>p_session_count := Some 8589935\<rparr>) 500 5 =
    Inr (Some \<lparr>eg_total_sessions = Some 204, eg_remaining_sessions = Some 204,
      eg_expires_at = Some 7776000000005\<rparr>)"
  by (simp add: entitlement_plan_def pass_product_def is_entitlement_def Let_def wrap32_def
      add_days_option_def add_days_def max_utc_value)

section \<open>Redemption and cancellation\<close>

definition subs_ok :: "db \<Rightarrow> bool" where
  "subs_ok s = (distinct (map s_id (subscriptions s)) \<and>
    (\<forall>r \<in> set (subscriptions s). case s_remaining_sessions r of None \<Rightarrow> True | Some n \<Rightarrow> 0 \<le> n))"

definition sub_by_id :: "uuid \<Rightarrow> db \<Rightarrow> subscription option" where
  "sub_by_id i s = fetch_by (\<lambda>r. s_id r = i) (subscriptions s)"

definition sessions_left :: "uuid \<Rightarrow> db \<Rightarrow> nat" where
  "sessions_left i s =
    (case sub_by_id i s of None \<Rightarrow> 0
     | Some r \<Rightarrow> if derived_status r (db_now s) = Sub_Active
         then (case s_remaining_sessions r of None \<Rightarrow> 0 | Some n \<Rightarrow> nat n) else 0)"

lemma sub_by_id_iff:
  "subs_ok s \<Longrightarrow> sub_by_id i s = Some r \<longleftrightarrow> r \<in> set (subscriptions s) \<and> s_id r = i"
  using distinct_key_fetch [of s_id "subscriptions s" r]
  by (auto simp: subs_ok_def sub_by_id_def dest: fetch_by_Some)

lemma redeem_state:
  "snd (redeem_session i s) =
    s\<lparr>subscriptions := update_where (redeemable i (db_now s)) take_session (subscriptions s)\<rparr>"
proof -
  have "leaves (\<lambda>s. s) (case r of Some row \<Rightarrow> redeem_taken row | None \<Rightarrow> redeem_refused i)" for r
    by (cases r) (auto simp: leaves_def redeem_taken_def redeem_refused_def product_name_def
        find_subscription_by_id_def bind_tx_Inr)
  then show ?thesis unfolding redeem_session_def
    by (subst after_commit_state) (simp_all add: commit_tx_state redeem_one_session_def db_try_def
        map_err_tx_def)
qed

lemma redeemable_left:
  "subs_ok s \<Longrightarrow> (\<exists>r \<in> set (subscriptions s). redeemable i (db_now s) r) \<longleftrightarrow> 0 < sessions_left i s"
proof -
  assume ok: "subs_ok s"
  show ?thesis
  proof (cases "sub_by_id i s")
    case None
    then have "\<forall>r \<in> set (subscriptions s). s_id r \<noteq> i"
      unfolding sub_by_id_def fetch_by_None .
    then show ?thesis using None by (auto simp: sessions_left_def redeemable_def)
  next
    case (Some r)
    then have r: "r \<in> set (subscriptions s)" "s_id r = i" using sub_by_id_iff [OF ok] by auto
    have "r' = r" if "r' \<in> set (subscriptions s)" "s_id r' = i" for r'
      using that Some sub_by_id_iff [OF ok, of i r'] by simp
    then have "(\<exists>r \<in> set (subscriptions s). redeemable i (db_now s) r) \<longleftrightarrow> redeemable i (db_now s) r"
      using r by (metis redeemable_def)
    also have "\<dots> \<longleftrightarrow> 0 < sessions_left i s"
      using Some r by (auto simp: redeemable_def sessions_left_def split: option.splits)
    finally show ?thesis .
  qed
qed

lemma take_session_simps [simp]:
  "s_id (take_session r) = s_id r" "s_status (take_session r) = s_status r"
  "s_expires_at (take_session r) = s_expires_at r"
  "s_remaining_sessions (take_session r) = map_option (\<lambda>n. n - 1) (s_remaining_sessions r)"
  by (simp_all add: take_session_def)

lemma redeem_row:
  assumes "subs_ok s"
  shows "sub_by_id k (snd (redeem_session i s)) =
    map_option (\<lambda>r. if redeemable i (db_now s) r then take_session r else r) (sub_by_id k s)"
  unfolding sub_by_id_def redeem_state by (simp add: fetch_by_update_where)

lemma redeem_ok:
  assumes "subs_ok s"
  shows "subs_ok (snd (redeem_session i s))"
proof -
  have "map s_id (update_where (redeemable i (db_now s)) take_session (subscriptions s)) =
      map s_id (subscriptions s)" by (rule map_update_where) simp
  then show ?thesis using assms
    by (auto simp: subs_ok_def redeem_state set_update_where redeemable_def split: option.splits)
qed

lemma sessions_left_redeem:
  assumes "subs_ok s"
  shows "sessions_left i (snd (redeem_session i s)) = sessions_left i s - 1"
proof (cases "sub_by_id i s")
  case None
  then show ?thesis using redeem_row [OF assms, of i i] by (simp add: sessions_left_def)
next
  case (Some r)
  then have r: "s_id r = i" using sub_by_id_iff [OF assms] by simp
  have now: "db_now (snd (redeem_session i s)) = db_now s" by (simp add: redeem_state)
  show ?thesis
  proof (cases "redeemable i (db_now s) r")
    case True
    then obtain n where n: "s_remaining_sessions r = Some n" "0 < n" "derived_status r (db_now s) = Sub_Active"
      by (auto simp: redeemable_def split: option.splits)
    then show ?thesis using Some True redeem_row [OF assms, of i i]
      by (auto simp: sessions_left_def now derived_status_def subscription_derived_status_def
          nat_diff_distrib split: if_splits)
  next
    case False
    then have "sessions_left i s = 0" using Some r
      by (auto simp: sessions_left_def redeemable_def split: option.splits)
    then show ?thesis using Some False redeem_row [OF assms, of i i]
      by (simp add: sessions_left_def now)
  qed
qed

lemma redeem_result:
  assumes "subs_ok s" "\<And>r. r \<in> set (subscriptions s) \<Longrightarrow> product_by_id (s_product_id r) s \<noteq> None"
  shows "(\<exists>x. fst (redeem_session i s) = Inr x) \<longleftrightarrow> 0 < sessions_left i s"
proof (cases "fetch_by (redeemable i (db_now s)) (subscriptions s)")
  case None
  then have "\<not> 0 < sessions_left i s"
    using redeemable_left [OF assms(1), of i] unfolding fetch_by_None by blast
  moreover have "\<nexists>x. fst (redeem_session i s) = Inr x"
    using None by (auto simp: redeem_session_def after_commit_def commit_tx_def redeem_one_session_def
        db_try_def map_err_tx_def redeem_refused_def bind_tx_def split: sum.splits prod.splits)
  ultimately show ?thesis by blast
next
  case (Some r)
  then have r: "r \<in> set (subscriptions s)" "redeemable i (db_now s) r" using fetch_by_Some by fastforce+
  obtain p where p: "product_by_id (s_product_id r) s = Some p" using assms(2) [OF r(1)] by blast
  have "\<exists>x. fst (redeem_session i s) = Inr x"
    using Some p by (simp add: redeem_session_def after_commit_def commit_tx_def redeem_one_session_def
        db_try_def map_err_tx_def redeem_taken_def product_name_def bind_tx_def take_session_def
        product_by_id_def)
  then show ?thesis using redeemable_left [OF assms(1), of i] r by blast
qed

primrec redeem_times :: "nat \<Rightarrow> uuid \<Rightarrow> db \<Rightarrow> db" where
  "redeem_times 0 i s = s"
| "redeem_times (Suc n) i s = redeem_times n i (snd (redeem_session i s))"

text \<open>
  C2. A subscription yields exactly its quota: after any number \<open>n\<close> of redemptions the sessions left
  are the starting ones less \<open>n\<close>, never below zero, and the next redemption succeeds exactly when a
  session is left; a subscription that is cancelled, expired or without a quota has none. No other
  subscription and no other table is touched.
\<close>

theorem redeem_budget:
  assumes "subs_ok s" "\<And>r. r \<in> set (subscriptions s) \<Longrightarrow> product_by_id (s_product_id r) s \<noteq> None"
  shows "sessions_left i (redeem_times n i s) = sessions_left i s - n \<and>
    ((\<exists>x. fst (redeem_session i (redeem_times n i s)) = Inr x) \<longleftrightarrow> n < sessions_left i s) \<and>
    (\<forall>k. k \<noteq> i \<longrightarrow> sub_by_id k (redeem_times n i s) = sub_by_id k s) \<and>
    redeem_times n i s = s\<lparr>subscriptions := subscriptions (redeem_times n i s)\<rparr>"
  using assms
proof (induction n arbitrary: s)
  case 0
  then show ?case using redeem_result [OF 0] by simp
next
  case (Suc n)
  let ?t = "snd (redeem_session i s)"
  have t: "?t = s\<lparr>subscriptions := update_where (redeemable i (db_now s)) take_session (subscriptions s)\<rparr>"
    by (rule redeem_state)
  have ok: "subs_ok ?t" by (rule redeem_ok [OF Suc.prems(1)])
  have prods: "product_by_id (s_product_id r) ?t \<noteq> None" if "r \<in> set (subscriptions ?t)" for r
    using that Suc.prems(2)
    by (auto simp: t product_by_id_def set_update_where take_session_def)
  have other: "sub_by_id k ?t = sub_by_id k s" if "k \<noteq> i" for k
  proof (cases "sub_by_id k s")
    case (Some r)
    then have "s_id r = k" unfolding sub_by_id_def by (auto dest: fetch_by_Some)
    then show ?thesis using that Some redeem_row [OF Suc.prems(1), of k i] by (simp add: redeemable_def)
  qed (simp add: redeem_row [OF Suc.prems(1), of k i])
  note left = sessions_left_redeem [OF Suc.prems(1), of i]
  have ih: "sessions_left i (redeem_times n i ?t) = sessions_left i ?t - n"
    "(\<exists>x. fst (redeem_session i (redeem_times n i ?t)) = Inr x) \<longleftrightarrow> n < sessions_left i ?t"
    "\<forall>k. k \<noteq> i \<longrightarrow> sub_by_id k (redeem_times n i ?t) = sub_by_id k ?t"
    "redeem_times n i ?t = ?t\<lparr>subscriptions := subscriptions (redeem_times n i ?t)\<rparr>"
    using Suc.IH [OF ok] prods by blast+
  have "?t\<lparr>subscriptions := x\<rparr> = s\<lparr>subscriptions := x\<rparr>" for x by (simp add: t)
  note frame_t = this
  have frame: "redeem_times (Suc n) i s = s\<lparr>subscriptions := subscriptions (redeem_times (Suc n) i s)\<rparr>"
    unfolding redeem_times.simps by (rule trans [OF ih(4) frame_t])
  have "sessions_left i (redeem_times (Suc n) i s) = sessions_left i s - Suc n"
    using ih(1,2) left unfolding redeem_times.simps by linarith
  moreover have "(\<exists>x. fst (redeem_session i (redeem_times (Suc n) i s)) = Inr x) \<longleftrightarrow> Suc n < sessions_left i s"
    unfolding redeem_times.simps ih(2) left by (simp add: less_diff_conv)
  moreover have "\<forall>k. k \<noteq> i \<longrightarrow> sub_by_id k (redeem_times (Suc n) i s) = sub_by_id k s"
    unfolding redeem_times.simps by (simp add: ih(3) other)
  ultimately show ?case using frame by blast
qed

definition pass_row :: subscription where
  "pass_row = \<lparr>s_id = 65, s_user_id = 11, s_product_id = 23, s_order_id = Some 70,
     s_status = Sub_Active, s_started_at = 0, s_expires_at = None, s_total_sessions = Some 10,
     s_remaining_sessions = Some 2, s_price_cents = 300000, s_created_at = 0\<rparr>"

definition pass_example :: db where
  "pass_example = empty_db\<lparr>products := [pass_product], subscriptions := [pass_row]\<rparr>"

lemma redeem_budget_witness:
  "sessions_left 65 (redeem_times 2 65 pass_example) = 0 \<and>
   fst (redeem_session 65 (redeem_times 2 65 pass_example)) =
     Inl (Conflict ''subscription is not redeemable'')"
proof -
  have ok: "subs_ok pass_example" by code_simp
  have prods: "product_by_id (s_product_id r) pass_example \<noteq> None"
    if "r \<in> set (subscriptions pass_example)" for r
    using that by (auto simp: pass_example_def pass_row_def product_by_id_def pass_product_def sample_product_def)
  have "sessions_left 65 pass_example = 2" by code_simp
  then have "sessions_left 65 (redeem_times 2 65 pass_example) = 0"
    using redeem_budget [OF ok prods, of 65 2] by simp
  moreover have "fst (redeem_session 65 (redeem_times 2 65 pass_example)) =
      Inl (Conflict ''subscription is not redeemable'')" by code_simp
  ultimately show ?thesis by blast
qed

text \<open>The cancellation of an order's subscriptions, the third thing a refund takes back.\<close>

lemma cancel_subscriptions_by_order_tx_Inr:
  "cancel_subscriptions_by_order_tx oid s = Inr (n, s') \<longleftrightarrow>
    n = int (count_where (sub_of_order oid) (subscriptions s)) \<and>
    s' = s\<lparr>subscriptions := update_where (sub_of_order oid) (\<lambda>r. r\<lparr>s_status := Sub_Cancelled\<rparr>)
      (subscriptions s)\<rparr>"
  by (auto simp: cancel_subscriptions_by_order_tx_def cancel_subscriptions_by_order_rows_def)

lemma cancel_subscriptions_effect:
  assumes "cancel_subscriptions_by_order_tx oid s = Inr (n, s')"
  shows "\<forall>r \<in> set (subscriptions s'). s_order_id r = Some oid \<longrightarrow> derived_status r now = Sub_Cancelled"
    and "s' = s\<lparr>subscriptions := subscriptions s'\<rparr>"
    and "filter (\<lambda>r. s_order_id r \<noteq> Some oid) (subscriptions s') =
      filter (\<lambda>r. s_order_id r \<noteq> Some oid) (subscriptions s)"
proof -
  have s': "s' = s\<lparr>subscriptions := update_where (sub_of_order oid) (\<lambda>r. r\<lparr>s_status := Sub_Cancelled\<rparr>)
      (subscriptions s)\<rparr>" using assms by (simp add: cancel_subscriptions_by_order_tx_Inr)
  show "\<forall>r \<in> set (subscriptions s'). s_order_id r = Some oid \<longrightarrow> derived_status r now = Sub_Cancelled"
    by (auto simp: s' set_update_where sub_of_order_def derived_status_def subscription_derived_status_def)
  show "s' = s\<lparr>subscriptions := subscriptions s'\<rparr>" by (simp add: s')
  have "filter (\<lambda>r. s_order_id r \<noteq> Some oid) (update_where (sub_of_order oid) (\<lambda>r. r\<lparr>s_status := Sub_Cancelled\<rparr>) t)
      = filter (\<lambda>r. s_order_id r \<noteq> Some oid) t" for t
    by (induction t) (auto simp: sub_of_order_def)
  then show "filter (\<lambda>r. s_order_id r \<noteq> Some oid) (subscriptions s') =
      filter (\<lambda>r. s_order_id r \<noteq> Some oid) (subscriptions s)" by (simp add: s')
qed

lemma insert_subscription_tx_Inr:
  "insert_subscription_tx uid pid oid e t r price now s = Inr (row, s') \<longleftrightarrow>
    row = \<lparr>s_id = uuid_supply s (uuid_pos s), s_user_id = uid, s_product_id = pid, s_order_id = Some oid,
      s_status = Sub_Active, s_started_at = now, s_expires_at = e, s_total_sessions = t,
      s_remaining_sessions = r, s_price_cents = price, s_created_at = now\<rparr> \<and>
    s' = s\<lparr>uuid_pos := uuid_pos s + 1, subscriptions := subscriptions s @ [row]\<rparr> \<and>
    s_id row \<notin> s_id ` set (subscriptions s) \<and> (case t of None \<Rightarrow> True | Some n \<Rightarrow> 0 < n) \<and>
    (case r of None \<Rightarrow> True | Some n \<Rightarrow> 0 \<le> n)"
  by (auto simp: insert_subscription_tx_def Let_def split: option.splits if_splits)

lemma entitlement_plan_None: "entitlement_plan p q now = Inr None \<longleftrightarrow> \<not> is_entitlement p"
  by (auto simp: entitlement_plan_def Let_def split: option.splits sum.splits)

lemma grant_from_purchase_tx_None:
  assumes "grant_from_purchase_tx buyer p q price oid now s = Inr (None, s')"
  shows "s' = s \<and> \<not> is_entitlement p"
  using assms by (auto simp: grant_from_purchase_tx_def bind_tx_Inr entitlement_plan_None
      split: option.splits)

definition granted_row :: "uuid \<Rightarrow> uuid \<Rightarrow> instant \<Rightarrow> subscription \<Rightarrow> bool" where
  "granted_row uid oid now r = (s_user_id r = uid \<and> s_order_id r = Some oid \<and> s_status r = Sub_Active \<and>
    s_started_at r = now \<and> s_created_at r = now)"

lemma grant_from_purchase_tx_Some:
  assumes "grant_from_purchase_tx buyer p q price oid now s = Inr (Some row, s')"
  shows "is_entitlement p" "granted_row (bl_user_id buyer) oid now row" "s_product_id row = p_id p"
    "s_price_cents row = price" "s' = s\<lparr>uuid_pos := uuid_pos s', subscriptions := subscriptions s @ [row]\<rparr>"
proof -
  obtain g where "entitlement_plan p q now = Inr (Some g)"
    and ins: "insert_subscription_tx (bl_user_id buyer) (p_id p) oid (eg_expires_at g) (eg_total_sessions g)
      (eg_remaining_sessions g) price now s = Inr (row, s')"
    using assms by (auto simp: grant_from_purchase_tx_def bind_tx_Inr split: option.splits)
  then show "is_entitlement p" using entitlement_plan_None [of p q now] by (metis Inr_inject option.distinct(1))
  show "granted_row (bl_user_id buyer) oid now row" "s_product_id row = p_id p"
    "s_price_cents row = price" "s' = s\<lparr>uuid_pos := uuid_pos s', subscriptions := subscriptions s @ [row]\<rparr>"
    using ins by (simp_all add: insert_subscription_tx_Inr granted_row_def)
qed

end
