(* ===== verification/Outbox.thy ===== *)
theory Outbox
  imports Schema "HOL-Library.Multiset"
begin

text \<open>
  The transactional outbox (\<open>src/kafka/outbox.rs\<close>): an event is a row written in the business
  transaction; a drain claims due rows under a lease, publishes them outside any transaction and
  books the outcome. The broker is a parameter: for each claimed row, whether its publication was
  acknowledged, failed, or was still pending at the batch deadline.
\<close>

section \<open>Queueing an event\<close>

definition insert_event_tx ::
  "string \<Rightarrow> string \<Rightarrow> string \<Rightarrow> domain_event \<Rightarrow> string option \<Rightarrow> unit sql" where
  "insert_event_tx topic event_type key data correlation_id =
    bind_tx fresh_uuid (\<lambda>event_id.
    bind_tx (get_tx db_wall) (\<lambda>wall.
    bind_tx fresh_uuid (\<lambda>i s.
      if i \<in> ob_id ` set (events_outbox s) then Inl (UniqueViolation ''events_outbox_pkey'')
      else Inr ((), s\<lparr>events_outbox := events_outbox s @
        [\<lparr>ob_id = i, ob_topic = topic, ob_key = key,
          ob_payload = \<lparr>ke_version = current_envelope_version, ke_event_id = event_id,
            ke_event_type = event_type, ke_timestamp = wall, ke_correlation_id = correlation_id,
            ke_data = data\<rparr>,
          ob_created_at = db_now s, ob_published_at = None, ob_attempts = 0, ob_last_error = None,
          ob_next_attempt_at = db_now s\<rparr>]\<rparr>))))"

definition insert_domain_event_tx :: "domain_event \<Rightarrow> string option \<Rightarrow> unit sql" where
  "insert_domain_event_tx event correlation_id =
    insert_event_tx (es_topic (event_spec_of event)) (es_event_type (event_spec_of event))
      (kafka_key event) event correlation_id"

section \<open>Draining\<close>

definition batch_size :: nat where "batch_size = 100"
definition lease :: int where "lease = 60 * micros_per_second"
definition max_retry_delay :: int where "max_retry_delay = 60 * 60"

datatype publish_outcome =
    Acked
  | PublishError string
  | SerializeError string
  | DeadlineHit

record failed_publish =
  fpb_id :: uuid
  fpb_attempts_before :: int
  fpb_reason :: string

record batch_outcome =
  bo_published :: "uuid list"
  bo_failed :: "failed_publish list"

definition fail_of :: "outbox_row \<Rightarrow> string \<Rightarrow> failed_publish" where
  "fail_of r reason = \<lparr>fpb_id = ob_id r, fpb_attempts_before = ob_attempts r, fpb_reason = reason\<rparr>"

primrec publish_loop ::
  "(outbox_row \<Rightarrow> publish_outcome) \<Rightarrow> outbox_row list \<Rightarrow> batch_outcome \<Rightarrow> batch_outcome" where
  "publish_loop publisher [] acc = acc"
| "publish_loop publisher (r # rs) acc =
    (case publisher r of
       Acked \<Rightarrow> publish_loop publisher rs (acc\<lparr>bo_published := bo_published acc @ [ob_id r]\<rparr>)
     | SerializeError e \<Rightarrow> publish_loop publisher rs
         (acc\<lparr>bo_failed := bo_failed acc @ [fail_of r (''payload re-serialize error: '' @ e)]\<rparr>)
     | PublishError e \<Rightarrow> publish_loop publisher rs
         (acc\<lparr>bo_failed := bo_failed acc @ [fail_of r (''kafka: '' @ e)]\<rparr>)
     | DeadlineHit \<Rightarrow>
         acc\<lparr>bo_failed := bo_failed acc @ [fail_of r ''publish exceeded the 15s batch budget'']\<rparr>)"

definition publish_batch :: "(outbox_row \<Rightarrow> publish_outcome) \<Rightarrow> outbox_row list \<Rightarrow> batch_outcome" where
  "publish_batch publisher rows = publish_loop publisher rows \<lparr>bo_published = [], bo_failed = []\<rparr>"

definition retry_delay :: "nat \<Rightarrow> int" where
  "retry_delay attempts =
    (let secs = (if attempts < 64 then 2 ^ attempts else 2 ^ 64 - 1) in min secs max_retry_delay)"

definition saturating_succ32 :: "int \<Rightarrow> int" where
  "saturating_succ32 n = min (n + 1) 2147483647"

definition u32_of :: "int \<Rightarrow> nat" where
  "u32_of n = (if n < 0 then 4294967295 else nat n)"

definition due :: "instant \<Rightarrow> outbox_row \<Rightarrow> bool" where
  "due now r = (ob_published_at r = None \<and> ob_next_attempt_at r \<le> now)"

definition claim_ids :: "instant \<Rightarrow> outbox_row list \<Rightarrow> uuid list" where
  "claim_ids now rows = map ob_id (take batch_size (sort_key ob_next_attempt_at (filter (due now) rows)))"

definition claim_row :: "instant \<Rightarrow> outbox_row \<Rightarrow> outbox_row" where
  "claim_row now r = r\<lparr>ob_next_attempt_at := now + lease\<rparr>"

definition claim :: "outbox_row list sql" where
  "claim = (\<lambda>s.
    let ids = claim_ids (db_now s) (events_outbox s);
        rows = update_where (\<lambda>r. ob_id r \<in> set ids) (claim_row (db_now s)) (events_outbox s)
    in Inr (filter (\<lambda>r. ob_id r \<in> set ids) rows, s\<lparr>events_outbox := rows\<rparr>))"

definition book_published :: "uuid list \<Rightarrow> unit sql" where
  "book_published ids = put_tx (\<lambda>s. s\<lparr>events_outbox := update_where (\<lambda>r. ob_id r \<in> set ids)
    (\<lambda>r. r\<lparr>ob_published_at := Some (db_now s)\<rparr>) (events_outbox s)\<rparr>)"

definition book_failed :: "failed_publish \<Rightarrow> unit sql" where
  "book_failed f = (\<lambda>s.
    let attempts = saturating_succ32 (fpb_attempts_before f);
        delay = retry_delay (u32_of attempts)
    in if \<exists>r \<in> set (events_outbox s). ob_id r = fpb_id f \<and> \<not> in_i32 (ob_attempts r + 1)
       then Inl NumericOutOfRange
       else Inr ((), s\<lparr>events_outbox := update_where (\<lambda>r. ob_id r = fpb_id f)
         (\<lambda>r. r\<lparr>ob_attempts := ob_attempts r + 1, ob_last_error := Some (fpb_reason f),
              ob_next_attempt_at := db_now s + delay * micros_per_second\<rparr>) (events_outbox s)\<rparr>))"

definition bookkeeping :: "batch_outcome \<Rightarrow> unit sql" where
  "bookkeeping outcome =
    bind_tx (if bo_published outcome \<noteq> [] then book_published (bo_published outcome) else return_tx ()) (\<lambda>_.
    bind_tx (for_tx book_failed (bo_failed outcome)) (\<lambda>_. return_tx ()))"

text \<open>
  One drain: the claim commits on its own, publication happens outside any transaction, the
  bookkeeping is one transaction at a later instant \<open>at\<close>; an error there leaves the claim.
\<close>

definition drain_once ::
  "(outbox_row \<Rightarrow> publish_outcome) \<Rightarrow> instant \<Rightarrow> db \<Rightarrow> (sqlx_error + unit) \<times> db" where
  "drain_once publisher at s =
    (case claim s of
       Inl e \<Rightarrow> (Inl e, s)
     | Inr (rows, s') \<Rightarrow>
         if rows = [] then (Inr (), s')
         else (case bookkeeping (publish_batch publisher (sort_key ob_created_at rows)) (s'\<lparr>db_now := at\<rparr>) of
                 Inl e \<Rightarrow> (Inl e, s'\<lparr>db_now := at\<rparr>)
               | Inr (_, s'') \<Rightarrow> (Inr (), s'')))"

section \<open>Nothing is lost\<close>

definition event_of :: "outbox_row \<Rightarrow> uuid \<times> string \<times> string \<times> kafka_event" where
  "event_of r = (ob_id r, ob_topic r, ob_key r, ob_payload r)"

definition published :: "db \<Rightarrow> uuid \<Rightarrow> bool" where
  "published s i = (\<exists>r \<in> set (events_outbox s). ob_id r = i \<and> ob_published_at r \<noteq> None)"

lemma publish_loop_published:
  "bo_published (publish_loop publisher rs acc) = bo_published acc @
    map ob_id (filter (\<lambda>r. publisher r = Acked) (takeWhile (\<lambda>r. publisher r \<noteq> DeadlineHit) rs))"
  by (induction rs arbitrary: acc) (auto split: publish_outcome.splits)

lemma published_by_key:
  "map (\<lambda>r. (ob_id r, ob_published_at r)) (events_outbox s') =
    map (\<lambda>r. (ob_id r, ob_published_at r)) (events_outbox s) \<Longrightarrow> published s' = published s"
proof -
  have "published s i = (\<exists>p \<in> set (map (\<lambda>r. (ob_id r, ob_published_at r)) (events_outbox s)). fst p = i \<and> snd p \<noteq> None)"
    for s i by (simp add: published_def)
  note p = this
  assume same: "map (\<lambda>r. (ob_id r, ob_published_at r)) (events_outbox s') =
      map (\<lambda>r. (ob_id r, ob_published_at r)) (events_outbox s)"
  show "published s' = published s" by (rule ext) (simp only: p same)
qed

lemma book_published_Inr [simp]:
  "book_published ids s = Inr (u, s') \<longleftrightarrow> s' = s\<lparr>events_outbox := update_where (\<lambda>r. ob_id r \<in> set ids)
    (\<lambda>r. r\<lparr>ob_published_at := Some (db_now s)\<rparr>) (events_outbox s)\<rparr>"
  by (auto simp: book_published_def)

definition rows_kept :: "db \<Rightarrow> db \<Rightarrow> bool" where
  "rows_kept s s' = (map event_of (events_outbox s') = map event_of (events_outbox s))"

lemma rows_kept_refl [simp]: "rows_kept s s"
  by (simp add: rows_kept_def)

lemma rows_kept_trans: "rows_kept s t \<Longrightarrow> rows_kept t u \<Longrightarrow> rows_kept s u"
  by (simp add: rows_kept_def)

lemma book_failed_Inr:
  assumes "book_failed f s = Inr (u, s')"
  shows "rows_kept s s' \<and> published s' = published s \<and>
    s' = s\<lparr>events_outbox := events_outbox s'\<rparr>"
proof -
  let ?g = "\<lambda>r. r\<lparr>ob_attempts := ob_attempts r + 1, ob_last_error := Some (fpb_reason f),
    ob_next_attempt_at := db_now s + retry_delay (u32_of (saturating_succ32 (fpb_attempts_before f))) *
      micros_per_second\<rparr>"
  have s': "s' = s\<lparr>events_outbox := update_where (\<lambda>r. ob_id r = fpb_id f) ?g (events_outbox s)\<rparr>"
    using assms by (auto simp: book_failed_def Let_def split: if_splits)
  have "map event_of (events_outbox s') = map event_of (events_outbox s)"
    unfolding s' by (simp, rule map_update_where) (simp add: event_of_def)
  moreover have "published s' = published s"
    unfolding s' by (rule published_by_key, simp, rule map_update_where) simp
  ultimately show ?thesis by (simp add: rows_kept_def s')
qed

lemma book_all_failed_Inr:
  "for_tx book_failed fs s = Inr (us, s') \<Longrightarrow> rows_kept s s' \<and> published s' = published s \<and>
    s' = s\<lparr>events_outbox := events_outbox s'\<rparr>"
proof (induction fs arbitrary: s us)
  case (Cons f fs)
  obtain u t us' where one: "book_failed f s = Inr (u, t)" and rest: "for_tx book_failed fs t = Inr (us', s')"
    using Cons.prems by (auto simp: bind_tx_Inr)
  note t = book_failed_Inr [OF one] and s' = Cons.IH [OF rest]
  have upd: "t\<lparr>events_outbox := x\<rparr> = s\<lparr>events_outbox := x\<rparr>" for x
    using arg_cong [OF t [THEN conjunct2, THEN conjunct2], of "\<lambda>d. d\<lparr>events_outbox := x\<rparr>"] by simp
  have "s' = t\<lparr>events_outbox := events_outbox s'\<rparr>" using s' by blast
  then have "s' = s\<lparr>events_outbox := events_outbox s'\<rparr>" unfolding upd .
  then show ?case using t s' rows_kept_trans by metis
qed simp

definition outbox_ok :: "db \<Rightarrow> bool" where
  "outbox_ok s = (distinct (map ob_id (events_outbox s)) \<and> (\<forall>r \<in> set (events_outbox s). in_i32 (ob_attempts r)))"

definition claimed :: "db \<Rightarrow> outbox_row list" where
  "claimed s = take batch_size (sort_key ob_next_attempt_at (filter (due (db_now s)) (events_outbox s)))"

lemma claimed_due: "r \<in> set (claimed s) \<Longrightarrow> r \<in> set (events_outbox s) \<and> due (db_now s) r"
  unfolding claimed_def by (drule in_set_takeD) simp

lemma claim_Inr:
  "claim s = Inr (rows, s') \<longleftrightarrow>
    s' = s\<lparr>events_outbox := update_where (\<lambda>r. ob_id r \<in> ob_id ` set (claimed s)) (claim_row (db_now s)) (events_outbox s)\<rparr> \<and>
    rows = filter (\<lambda>r. ob_id r \<in> ob_id ` set (claimed s)) (events_outbox s')"
  by (auto simp: claim_def claim_ids_def claimed_def Let_def)

lemma id_in_claimed:
  assumes "outbox_ok s" "r \<in> set (events_outbox s)"
  shows "ob_id r \<in> ob_id ` set (claimed s) \<longleftrightarrow> r \<in> set (claimed s)"
proof
  assume "ob_id r \<in> ob_id ` set (claimed s)"
  then obtain r' where r': "r' \<in> set (claimed s)" "ob_id r' = ob_id r" by auto
  then have "r' = r" using claimed_due [OF r'(1)] assms
    by (auto simp: outbox_ok_def distinct_map inj_on_def)
  then show "r \<in> set (claimed s)" using r' by simp
qed auto

lemma claim_rows:
  assumes "outbox_ok s" "claim s = Inr (rows, s')"
  shows "rows_kept s s'" "published s' = published s"
    "set rows = claim_row (db_now s) ` set (claimed s)" "map ob_id (events_outbox s') = map ob_id (events_outbox s)"
proof -
  have s': "s' = s\<lparr>events_outbox := update_where (\<lambda>r. ob_id r \<in> ob_id ` set (claimed s)) (claim_row (db_now s)) (events_outbox s)\<rparr>"
    and rows: "rows = filter (\<lambda>r. ob_id r \<in> ob_id ` set (claimed s)) (events_outbox s')"
    using assms(2) by (simp_all add: claim_Inr)
  show "rows_kept s s'" unfolding s' rows_kept_def
    by (simp, rule map_update_where) (simp add: event_of_def claim_row_def)
  show "published s' = published s" unfolding s'
    by (rule published_by_key, simp, rule map_update_where) (simp add: claim_row_def)
  show "map ob_id (events_outbox s') = map ob_id (events_outbox s)" unfolding s'
    by (simp, rule map_update_where) (simp add: claim_row_def)
  have sub: "set (claimed s) \<subseteq> set (events_outbox s)" using claimed_due by blast
  have "set rows = claim_row (db_now s) ` {r \<in> set (events_outbox s). ob_id r \<in> ob_id ` set (claimed s)}"
    unfolding rows s' by (auto simp: set_update_where claim_row_def)
  also have "{r \<in> set (events_outbox s). ob_id r \<in> ob_id ` set (claimed s)} = set (claimed s)"
    using id_in_claimed [OF assms(1)] sub by blast
  finally show "set rows = claim_row (db_now s) ` set (claimed s)" .
qed

lemma bookkeeping_Inr:
  assumes "bookkeeping out s = Inr (u, s')"
  shows "rows_kept s s' \<and> (\<forall>i. published s' i \<longleftrightarrow> published s i \<or>
      (i \<in> set (bo_published out) \<and> i \<in> ob_id ` set (events_outbox s)))"
proof -
  obtain t us where t: "t = s\<lparr>events_outbox := update_where (\<lambda>r. ob_id r \<in> set (bo_published out))
      (\<lambda>r. r\<lparr>ob_published_at := Some (db_now s)\<rparr>) (events_outbox s)\<rparr>"
    and rest: "for_tx book_failed (bo_failed out) t = Inr (us, s')"
  proof (cases "bo_published out = []")
    case True
    have "s = s\<lparr>events_outbox := update_where (\<lambda>r. ob_id r \<in> set (bo_published out))
      (\<lambda>r. r\<lparr>ob_published_at := Some (db_now s)\<rparr>) (events_outbox s)\<rparr>"
      using True by (simp add: update_where_none)
    then show ?thesis using that assms True by (auto simp: bookkeeping_def bind_tx_Inr)
  next
    case False
    then have "bind_tx (book_published (bo_published out)) (\<lambda>_. bind_tx (for_tx book_failed (bo_failed out)) (\<lambda>_. return_tx ())) s
        = Inr (u, s')" using assms by (simp add: bookkeeping_def)
    then obtain t us where "book_published (bo_published out) s = Inr ((), t)"
      "for_tx book_failed (bo_failed out) t = Inr (us, s')"
      unfolding bind_tx_Inr by auto
    then show ?thesis using that unfolding book_published_Inr by blast
  qed
  have "rows_kept s t" unfolding t rows_kept_def
    by (simp, rule map_update_where) (simp add: event_of_def)
  moreover have "published t i \<longleftrightarrow> published s i \<or> (i \<in> set (bo_published out) \<and> i \<in> ob_id ` set (events_outbox s))" for i
  proof
    assume "published s i \<or> (i \<in> set (bo_published out) \<and> i \<in> ob_id ` set (events_outbox s))"
    then obtain r where r: "r \<in> set (events_outbox s)" "ob_id r = i"
      "ob_published_at r \<noteq> None \<or> i \<in> set (bo_published out)" by (auto simp: published_def)
    let ?r = "if ob_id r \<in> set (bo_published out) then r\<lparr>ob_published_at := Some (db_now s)\<rparr> else r"
    have "?r \<in> set (events_outbox t)" using r(1) by (simp add: t update_where_def)
    then show "published t i" unfolding published_def using r by (intro bexI [of _ ?r]) auto
  qed (auto simp: published_def t set_update_where)
  moreover have "rows_kept t s'" "published s' = published t" using book_all_failed_Inr [OF rest] by blast+
  ultimately show ?thesis using rows_kept_trans by metis
qed

text \<open>
  C13. At least once, and never silently dropped: a drain, whatever the broker answers and even when
  its bookkeeping fails, keeps every queued event with its topic, key and payload, never
  un-publishes one, and marks an event published only if it was due, was claimed by this drain and
  the broker acknowledged it.
\<close>

theorem outbox_at_least_once:
  assumes "outbox_ok s" and "drain_once publisher at s = (res, s')"
  shows "map event_of (events_outbox s') = map event_of (events_outbox s) \<and>
    (\<forall>i. published s i \<longrightarrow> published s' i) \<and>
    (\<forall>i. published s' i \<and> \<not> published s i \<longrightarrow>
      (\<exists>r \<in> set (claimed s). ob_id r = i \<and> due (db_now s) r \<and> publisher (claim_row (db_now s) r) = Acked))"
proof -
  obtain rows t where c: "claim s = Inr (rows, t)" by (simp add: claim_def Let_def)
  note cl = claim_rows [OF assms(1) c]
  let ?t = "t\<lparr>db_now := at\<rparr>" and ?out = "publish_batch publisher (sort_key ob_created_at rows)"
  have frame: "rows_kept t ?t" "published ?t = published t"
    by (simp_all add: rows_kept_def published_def fun_eq_iff)
  have run: "(if rows = [] then (Inr (), t) else (case bookkeeping ?out ?t of
      Inl e \<Rightarrow> (Inl e, ?t) | Inr (_, s'') \<Rightarrow> (Inr (), s''))) = (res, s')"
    using assms(2) by (simp add: drain_once_def c)
  consider "s' = t" | "s' = ?t" | u where "bookkeeping ?out ?t = Inr (u, s')"
  proof (cases "rows = []")
    case True
    have "s' = t" using run True by simp
    then show ?thesis by (rule that(1))
  next
    case False
    note run' = run [unfolded if_not_P [OF False]]
    show ?thesis
    proof (cases "bookkeeping ?out ?t")
      case (Inl e)
      then have "s' = ?t" using run' by simp
      then show ?thesis by (rule that(2))
    next
      case (Inr r)
      then have "bookkeeping ?out ?t = Inr (fst r, s')" using run' by (cases r) simp
      then show ?thesis by (rule that(3))
    qed
  qed
  then show ?thesis
  proof cases
    case 3
    have acked: "\<exists>r \<in> set (claimed s). ob_id r = i \<and> due (db_now s) r \<and> publisher (claim_row (db_now s) r) = Acked"
      if "i \<in> set (bo_published ?out)" for i
    proof -
      note mem = that
      obtain r where r: "r \<in> set rows" "ob_id r = i" "publisher r = Acked"
        using mem by (auto simp: publish_batch_def publish_loop_published dest: set_takeWhileD)
      then obtain r\<^sub>0 where "r\<^sub>0 \<in> set (claimed s)" "r = claim_row (db_now s) r\<^sub>0" using cl(3) by auto
      then show ?thesis using r claimed_due [of r\<^sub>0 s] by (intro bexI [of _ r\<^sub>0]) (simp_all add: claim_row_def)
    qed
    have b: "rows_kept ?t s'" "\<forall>i. published s' i \<longleftrightarrow> published s i \<or>
      (i \<in> set (bo_published ?out) \<and> i \<in> ob_id ` set (events_outbox ?t))"
      using bookkeeping_Inr [OF 3] unfolding frame(2) cl(2) by blast+
    have "rows_kept s s'" by (rule rows_kept_trans [OF rows_kept_trans [OF cl(1) frame(1)] b(1)])
    then show ?thesis using b(2) acked unfolding rows_kept_def by blast
  qed (use cl frame in \<open>auto simp: rows_kept_def\<close>)
qed

definition queued :: "uuid \<Rightarrow> instant \<Rightarrow> outbox_row" where
  "queued i at = \<lparr>ob_id = i, ob_topic = orders_created, ob_key = ''7'',
     ob_payload = \<lparr>ke_version = 1, ke_event_id = 1 + i, ke_event_type = ''order_status_changed'',
       ke_timestamp = 0, ke_correlation_id = None,
       ke_data = OrderStatusChanged \<lparr>os_order_id = 7, os_user_id = 11, os_status = ''refunded''\<rparr>\<rparr>,
     ob_created_at = 0, ob_published_at = None, ob_attempts = 0, ob_last_error = None,
     ob_next_attempt_at = at\<rparr>"

definition outbox_example :: db where
  "outbox_example = empty_db\<lparr>events_outbox := [queued 51 0, queued 52 0, queued 53 900], db_now := 10\<rparr>"

definition flaky :: "outbox_row \<Rightarrow> publish_outcome" where
  "flaky r = (if ob_id r = 51 then Acked else PublishError ''broker down'')"

lemma outbox_at_least_once_witness:
  "map ob_id (events_outbox (snd (drain_once flaky 20 outbox_example))) = [51, 52, 53] \<and>
   published (snd (drain_once flaky 20 outbox_example)) 51 \<and>
   \<not> published (snd (drain_once flaky 20 outbox_example)) 52"
proof -
  have ok: "outbox_ok outbox_example" by code_simp
  obtain res s' where run: "drain_once flaky 20 outbox_example = (res, s')" by (rule prod.exhaust)
  have "published outbox_example 52 = False" "flaky (claim_row (db_now outbox_example) (queued 52 0)) \<noteq> Acked"
    by code_simp+
  have "map event_of (events_outbox s') = map event_of (events_outbox outbox_example)"
    using outbox_at_least_once [OF ok run] by blast
  then have "map fst (map event_of (events_outbox s')) = [51, 52, 53]"
    by (simp add: event_of_def outbox_example_def queued_def)
  then have "map ob_id (events_outbox s') = [51, 52, 53]" by (simp add: event_of_def comp_def)
  moreover have "\<exists>x. drain_once flaky 20 outbox_example = x \<and> published (snd x) 51 \<and> \<not> published (snd x) 52"
    by (intro exI conjI, rule refl) code_simp+
  ultimately show ?thesis using run by auto
qed

section \<open>The backlog is worked off\<close>

text \<open>
  The backoff of a failing row doubles with every failure and is capped at one hour, also where
  the shift of the code would overflow.
\<close>

theorem retry_delay_doubles:
  "retry_delay n = min (2 ^ n) 3600 \<and> (n < 11 \<longrightarrow> retry_delay (Suc n) = 2 * retry_delay n) \<and>
    (12 \<le> n \<longrightarrow> retry_delay n = 3600) \<and> 1 \<le> retry_delay n"
proof -
  have big: "3600 \<le> (2 :: int) ^ n" if "12 \<le> n" for n
    using power_increasing [OF that, of "2 :: int"] by simp
  have eq: "retry_delay n = min (2 ^ n) 3600" for n
    using big [of n] by (simp add: retry_delay_def max_retry_delay_def Let_def)
  have small: "(2 :: int) ^ Suc n \<le> 3600" if "n < 11"
    using power_increasing [of "Suc n" 11 "2 :: int"] that by simp
  show ?thesis using big [of n] small by (auto simp: eq)
qed

lemma retry_delay_doubles_witness: "retry_delay 3 = 8 \<and> retry_delay 4 = 2 * 8 \<and> retry_delay 70 = 3600"
  using retry_delay_doubles [of 3] retry_delay_doubles [of 4] retry_delay_doubles [of 70] by simp

lemma take_filter_sorted:
  "sorted (map f xs) \<Longrightarrow> filter (\<lambda>x. f x \<le> T) (take n xs) = take n (filter (\<lambda>x. f x \<le> T) xs)"
proof (induction xs arbitrary: n)
  case (Cons x xs)
  show ?case
  proof (cases "f x \<le> T")
    case True
    then show ?thesis using Cons by (cases n) auto
  next
    case False
    then have "\<forall>y \<in> set xs. \<not> f y \<le> T" using Cons.prems by force
    then have "filter (\<lambda>x. f x \<le> T) xs = []" "filter (\<lambda>x. f x \<le> T) (take m xs) = []" for m
      by (auto simp: filter_empty_conv dest: in_set_takeD)
    then show ?thesis using False by (cases n) auto
  qed
qed simp

lemma claimed_backlog:
  assumes "T \<le> db_now s"
  shows "length (filter (due T) (claimed s)) = min batch_size (count_where (due T) (events_outbox s))"
proof -
  let ?D = "filter (due (db_now s)) (events_outbox s)" and ?k = "\<lambda>r. ob_next_attempt_at r \<le> T"
  have D: "filter (due T) (claimed s) = filter ?k (claimed s)"
    using claimed_due by (intro filter_cong) (auto simp: due_def)
  have "length (filter ?k (claimed s)) = min batch_size (length (filter ?k (sort_key ob_next_attempt_at ?D)))"
    unfolding claimed_def by (subst take_filter_sorted) (simp_all add: min.commute)
  also have "length (filter ?k (sort_key ob_next_attempt_at ?D)) = length (filter ?k ?D)"
    by (metis mset_filter mset_sort size_mset)
  also have "filter ?k ?D = filter (due T) (events_outbox s)"
    unfolding filter_filter using assms by (intro filter_cong) (auto simp: due_def)
  finally show ?thesis unfolding D by (simp add: count_where_def)
qed

definition acks :: "outbox_row \<Rightarrow> publish_outcome" where
  "acks r = Acked"

definition booked :: "instant \<Rightarrow> instant \<Rightarrow> outbox_row \<Rightarrow> outbox_row" where
  "booked now at r = (claim_row now r)\<lparr>ob_published_at := Some at\<rparr>"

lemma publish_batch_acks: "publish_batch acks rows = \<lparr>bo_published = map ob_id rows, bo_failed = []\<rparr>"
proof -
  have "publish_loop acks rows acc = acc\<lparr>bo_published := bo_published acc @ map ob_id rows\<rparr>" for acc
    by (induction rows arbitrary: acc) (simp_all add: acks_def)
  then show ?thesis by (simp add: publish_batch_def)
qed

lemma drain_acks:
  assumes "outbox_ok s"
  shows "\<exists>now'. drain_once acks at s = (Inr (), s\<lparr>db_now := now',
      events_outbox := map (\<lambda>r. if r \<in> set (claimed s) then booked (db_now s) at r else r) (events_outbox s)\<rparr>) \<and>
    (now' = at \<or> now' = db_now s)"
proof -
  obtain rows t where c: "claim s = Inr (rows, t)" by (simp add: claim_def Let_def)
  note cl = claim_rows [OF assms c]
  have t: "t = s\<lparr>events_outbox := map (\<lambda>r. if r \<in> set (claimed s) then claim_row (db_now s) r else r) (events_outbox s)\<rparr>"
    using c id_in_claimed [OF assms] by (simp add: claim_Inr update_where_def cong: map_cong)
  show ?thesis
  proof (cases "rows = []")
    case True
    then have "set (claimed s) = {}" using cl(3) by simp
    then have "claimed s = []" by simp
    then show ?thesis using True c t by (intro exI [of _ "db_now s"]) (simp add: drain_once_def)
  next
    case False
    have ids: "set (map ob_id (sort_key ob_created_at rows)) = ob_id ` set (claimed s)"
      by (simp add: cl(3) image_image claim_row_def)
    have row: "(if ob_id (if r \<in> set (claimed s) then claim_row (db_now s) r else r) \<in> ob_id ` set (claimed s)
        then (if r \<in> set (claimed s) then claim_row (db_now s) r else r)\<lparr>ob_published_at := Some at\<rparr>
        else (if r \<in> set (claimed s) then claim_row (db_now s) r else r)) =
        (if r \<in> set (claimed s) then booked (db_now s) at r else r)" if "r \<in> set (events_outbox s)" for r
      using id_in_claimed [OF assms that] by (simp add: booked_def claim_row_def)
    have "update_where (\<lambda>r. ob_id r \<in> ob_id ` set (claimed s)) (\<lambda>r. r\<lparr>ob_published_at := Some at\<rparr>) (events_outbox t) =
        map (\<lambda>r. if r \<in> set (claimed s) then booked (db_now s) at r else r) (events_outbox s)"
      unfolding update_where_def t using row by simp
    moreover have sorted: "sort_key ob_created_at rows \<noteq> []" using False by (metis length_0_conv length_sort)
    ultimately have "bookkeeping (publish_batch acks (sort_key ob_created_at rows)) (t\<lparr>db_now := at\<rparr>) =
        Inr ((), s\<lparr>db_now := at, events_outbox :=
          map (\<lambda>r. if r \<in> set (claimed s) then booked (db_now s) at r else r) (events_outbox s)\<rparr>)"
      using False ids sorted by (simp add: bookkeeping_def publish_batch_acks book_published_def bind_tx_def t)
    then show ?thesis using False c by (intro exI [of _ at]) (simp add: drain_once_def)
  qed
qed

lemma count_where_drop:
  assumes "distinct xs" "set ys \<subseteq> set xs" "distinct ys" "\<And>r. r \<in> set ys \<Longrightarrow> \<not> P (g r)"
  shows "count_where P (map (\<lambda>r. if r \<in> set ys then g r else r) xs) = count_where P xs - length (filter P ys)"
proof -
  have "count_where P (map (\<lambda>r. if r \<in> set ys then g r else r) xs) = length (filter (\<lambda>r. P r \<and> r \<notin> set ys) xs)"
    using assms(4) by (induction xs) auto
  also have "\<dots> = card ({r \<in> set xs. P r} - {r \<in> set ys. P r})"
    using assms(1) by (subst distinct_card [symmetric]) (auto intro!: arg_cong [where f = card])
  also have "\<dots> = card {r \<in> set xs. P r} - card {r \<in> set ys. P r}"
    using assms(2) by (intro card_Diff_subset) auto
  finally show ?thesis using assms(1,3)
    by (simp add: count_where_def distinct_card [symmetric])
qed

lemma drain_acks_step:
  assumes "outbox_ok s" "T \<le> db_now s" "T \<le> at"
  shows "outbox_ok (snd (drain_once acks at s))" "T \<le> db_now (snd (drain_once acks at s))"
    "count_where (due T) (events_outbox (snd (drain_once acks at s))) =
      count_where (due T) (events_outbox s) - batch_size"
proof -
  let ?h = "\<lambda>r. if r \<in> set (claimed s) then booked (db_now s) at r else r"
  obtain now' where d: "drain_once acks at s = (Inr (), s\<lparr>db_now := now', events_outbox := map ?h (events_outbox s)\<rparr>)"
    and now': "now' = at \<or> now' = db_now s" using drain_acks [OF assms(1)] by blast
  have "map ob_id (map ?h (events_outbox s)) = map ob_id (events_outbox s)"
    by (simp add: booked_def claim_row_def)
  then have "distinct (map ob_id (map ?h (events_outbox s)))" using assms(1) by (simp only: outbox_ok_def)
  moreover have "\<forall>r \<in> set (map ?h (events_outbox s)). in_i32 (ob_attempts r)"
    using assms(1) by (auto simp: outbox_ok_def booked_def claim_row_def)
  ultimately show "outbox_ok (snd (drain_once acks at s))" unfolding d outbox_ok_def by simp
  show "T \<le> db_now (snd (drain_once acks at s))" using now' assms(2,3) by (auto simp: d)
  have dist: "distinct (events_outbox s)" using assms(1) by (simp add: outbox_ok_def distinct_map)
  then have "distinct (claimed s)" by (simp add: claimed_def)
  then have "count_where (due T) (map ?h (events_outbox s)) =
      count_where (due T) (events_outbox s) - length (filter (due T) (claimed s))"
    using dist claimed_due by (intro count_where_drop) (auto simp: booked_def due_def)
  then show "count_where (due T) (events_outbox (snd (drain_once acks at s))) =
      count_where (due T) (events_outbox s) - batch_size"
    by (simp add: d claimed_backlog [OF assms(2)])
qed

primrec drains :: "instant list \<Rightarrow> db \<Rightarrow> db" where
  "drains [] s = s"
| "drains (at # ats) s = drains ats (snd (drain_once acks at s))"

text \<open>
  C3. A backlog is worked off while the broker answers: each drain publishes the hundred longest due
  events (or all, when fewer are due), so after \<open>n\<close> drains the events that were due at the start are
  down by \<open>100 n\<close>, and none is left once \<open>n\<close> reaches a hundredth of them.
\<close>

theorem outbox_backlog_drains:
  assumes "outbox_ok s" "T \<le> db_now s" "\<And>at. at \<in> set ats \<Longrightarrow> T \<le> at"
  shows "count_where (due T) (events_outbox (drains ats s)) =
      count_where (due T) (events_outbox s) - 100 * length ats"
  using assms
proof (induction ats arbitrary: s)
  case (Cons at ats)
  note st = drain_acks_step [OF Cons.prems(1,2), of at]
  have at: "T \<le> at" using Cons.prems(3) by simp
  have "count_where (due T) (events_outbox (drains ats (snd (drain_once acks at s)))) =
      count_where (due T) (events_outbox (snd (drain_once acks at s))) - 100 * length ats"
    using Cons.prems(3) by (intro Cons.IH st at) auto
  then show ?case using st(3) [OF at] by (simp add: batch_size_def)
qed simp

lemma outbox_backlog_drains_witness:
  "count_where (due 10) (events_outbox outbox_example) = 2 \<and>
   count_where (due 10) (events_outbox (drains [20] outbox_example)) = 0"
proof -
  have "outbox_ok outbox_example" "10 \<le> db_now outbox_example"
    "count_where (due 10) (events_outbox outbox_example) = 2" by code_simp+
  then show ?thesis using outbox_backlog_drains [of outbox_example 10 "[20]"] by simp
qed

end
