(* ===== verification/Orders.thy ===== *)
theory Orders
  imports Pricing Subscriptions Outbox
begin

text \<open>
  Orders (\<open>src/modules/orders\<close>): the status machine and its transition decision, the order rows, the
  two halves of the lock protocol, the idempotency table and the response every read path shares.
\<close>

section \<open>Status machine\<close>

fun can_transition_to :: "order_status \<Rightarrow> order_status \<Rightarrow> bool" where
  "can_transition_to OS_Pending OS_Cancelled = True"
| "can_transition_to OS_Paid OS_Processing = True"
| "can_transition_to OS_Paid OS_Refunded = True"
| "can_transition_to OS_Paid OS_Cancelled = True"
| "can_transition_to OS_Processing OS_Completed = True"
| "can_transition_to OS_Processing OS_Refunded = True"
| "can_transition_to OS_Completed OS_Refunded = True"
| "can_transition_to _ _ = False"

fun is_revenue :: "order_status \<Rightarrow> bool" where
  "is_revenue OS_Paid = True"
| "is_revenue OS_Processing = True"
| "is_revenue OS_Completed = True"
| "is_revenue OS_Pending = False"
| "is_revenue OS_Cancelled = False"
| "is_revenue OS_Refunded = False"

definition revenue_statuses :: "string list" where
  "revenue_statuses = [''paid'', ''processing'', ''completed'']"

definition payment_methods :: "string list" where
  "payment_methods = [''credit_card'', ''line_pay'', ''atm'', ''jkopay'', ''cash'']"

datatype transition_decision = NoOp | Flip | FlipAndCompensate

definition compensation_required :: "order_status \<Rightarrow> order_status \<Rightarrow> bool" where
  "compensation_required current target =
    (is_revenue current \<and> (target = OS_Cancelled \<or> target = OS_Refunded))"

definition decide_transition :: "order_status \<Rightarrow> order_status \<Rightarrow> app_error + transition_decision" where
  "decide_transition current target =
    (if current = target then Inr NoOp
     else if \<not> can_transition_to current target
     then Inl (BadRequest (''cannot transition order from '' @ [CHR 0x27] @ order_status_as_str current @
       [CHR 0x27] @ '' to '' @ [CHR 0x27] @ order_status_as_str target @ [CHR 0x27]))
     else if compensation_required current target then Inr FlipAndCompensate
     else Inr Flip)"

section \<open>Repository\<close>

record order_amounts =
  am_total_cents :: int
  am_discount_cents :: int
  am_points_used :: int
  am_points_earned :: int

record new_order =
  no_user_id :: uuid
  no_order_number :: string
  no_status :: order_status
  no_amounts :: order_amounts
  no_coupon_code :: "string option"
  no_payment_method :: "string option"
  no_paid_at :: "instant option"
  no_created_at :: instant

definition order_checks :: "order_amounts \<Rightarrow> sqlx_error option" where
  "order_checks a =
    (if am_total_cents a < 0 then Some (CheckViolation ''orders_total_nonneg'')
     else if am_discount_cents a < 0 then Some (CheckViolation ''orders_discount_nonneg'')
     else if am_points_used a < 0 then Some (CheckViolation ''orders_points_used_check'')
     else if am_points_earned a < 0 then Some (CheckViolation ''orders_points_earned_check'')
     else None)"

definition create_order :: "new_order \<Rightarrow> order_row sql" where
  "create_order n =
    bind_tx fresh_uuid (\<lambda>i s.
      let a = no_amounts n;
          row = \<lparr>o_id = i, o_user_id = no_user_id n, o_order_number = no_order_number n,
                 o_status = no_status n, o_total_cents = am_total_cents a,
                 o_discount_cents = am_discount_cents a, o_coupon_code = no_coupon_code n,
                 o_points_used = am_points_used a, o_points_earned = am_points_earned a,
                 o_payment_method = no_payment_method n, o_paid_at = no_paid_at n,
                 o_created_at = no_created_at n\<rparr> in
      case order_checks a of
        Some e \<Rightarrow> Inl e
      | None \<Rightarrow>
          if i \<in> o_id ` set (orders s) then Inl (UniqueViolation ''orders_pkey'')
          else if no_order_number n \<in> o_order_number ` set (orders s)
          then Inl (UniqueViolation ''orders_order_number_key'')
          else Inr (row, s\<lparr>orders := orders s @ [row]\<rparr>))"

definition create_order_item :: "uuid \<Rightarrow> instant \<Rightarrow> order_line \<Rightarrow> order_item sql" where
  "create_order_item order_id created_at l =
    bind_tx fresh_uuid (\<lambda>i s.
      let row = \<lparr>oi_id = i, oi_order_id = order_id, oi_item_type = item_type_of (ol_target l),
                 oi_product_id = product_id_of (ol_target l), oi_course_id = course_id_of (ol_target l),
                 oi_quantity = ol_quantity l, oi_unit_price_cents = ol_price_cents l,
                 oi_name = ol_name l, oi_stock_decremented = ol_stock_decremented l,
                 oi_created_at = created_at\<rparr> in
      if i \<in> oi_id ` set (order_items s) then Inl (UniqueViolation ''order_items_pkey'')
      else if ol_quantity l \<le> 0 then Inl (CheckViolation ''order_items_quantity_pos'')
      else if ol_price_cents l < 0 then Inl (CheckViolation ''order_items_unit_price_nonneg'')
      else Inr (row, s\<lparr>order_items := order_items s @ [row]\<rparr>))"

definition create_order_items :: "uuid \<Rightarrow> order_line list \<Rightarrow> instant \<Rightarrow> order_item list sql" where
  "create_order_items order_id items created_at = for_tx (create_order_item order_id created_at) items"

definition order_by_id :: "uuid \<Rightarrow> db \<Rightarrow> order_row option" where
  "order_by_id i s = fetch_by (\<lambda>r. o_id r = i) (orders s)"

definition find_order_by_id :: "uuid \<Rightarrow> order_row option sql" where
  "find_order_by_id i = get_tx (order_by_id i)"

definition find_order_by_id_tx :: "uuid \<Rightarrow> order_row option sql" where
  "find_order_by_id_tx i = get_tx (order_by_id i)"

definition find_items_by_order :: "uuid \<Rightarrow> order_item list sql" where
  "find_items_by_order i =
    get_tx (\<lambda>s. sort_key oi_created_at (filter (\<lambda>r. oi_order_id r = i) (order_items s)))"

definition update_status_tx :: "uuid \<Rightarrow> order_status \<Rightarrow> order_row option sql" where
  "update_status_tx i status = (\<lambda>s. Inr (
    map_option (\<lambda>r. r\<lparr>o_status := status\<rparr>) (order_by_id i s),
    s\<lparr>orders := update_where (\<lambda>r. o_id r = i) (\<lambda>r. r\<lparr>o_status := status\<rparr>) (orders s)\<rparr>))"

record order_item_brief =
  oib_name :: string
  oib_quantity :: int

record order_summary =
  osu_id :: uuid
  osu_order_number :: string
  osu_status :: order_status
  osu_total_cents :: int
  osu_created_at :: instant
  osu_items :: "order_item_brief list"

definition item_briefs :: "db \<Rightarrow> uuid \<Rightarrow> order_item_brief list" where
  "item_briefs s i = map (\<lambda>r. \<lparr>oib_name = oi_name r, oib_quantity = oi_quantity r\<rparr>)
    (sort_key oi_created_at (filter (\<lambda>r. oi_order_id r = i) (order_items s)))"

definition summary_of :: "db \<Rightarrow> order_row \<Rightarrow> order_summary" where
  "summary_of s r = \<lparr>osu_id = o_id r, osu_order_number = o_order_number r, osu_status = o_status r,
     osu_total_cents = o_total_cents r, osu_created_at = o_created_at r,
     osu_items = item_briefs s (o_id r)\<rparr>"

definition find_orders_by_user :: "uuid \<Rightarrow> pagination_params \<Rightarrow> order_summary list sql" where
  "find_orders_by_user uid p = get_tx (\<lambda>s. map (summary_of s)
    (page_rows p (rev (sort_key o_created_at (filter (\<lambda>r. o_user_id r = uid) (orders s))))))"

definition count_orders_by_user :: "uuid \<Rightarrow> int sql" where
  "count_orders_by_user uid = get_tx (\<lambda>s. int (count_where (\<lambda>r. o_user_id r = uid) (orders s)))"

record admin_order_summary = order_summary +
  aos_user_name :: string
  aos_user_email :: string
  aos_points_used :: int
  aos_coupon_code :: "string option"
  aos_paid_at :: "instant option"

definition admin_summary_of :: "db \<Rightarrow> order_row \<Rightarrow> admin_order_summary option" where
  "admin_summary_of s r = map_option (\<lambda>u. \<lparr>osu_id = o_id r, osu_order_number = o_order_number r,
     osu_status = o_status r, osu_total_cents = o_total_cents r, osu_created_at = o_created_at r,
     osu_items = item_briefs s (o_id r), aos_user_name = u_name u, aos_user_email = u_email u,
     aos_points_used = o_points_used r, aos_coupon_code = o_coupon_code r,
     aos_paid_at = o_paid_at r\<rparr>) (user_by_id (o_user_id r) s)"

definition find_all_with_user :: "pagination_params \<Rightarrow> admin_order_summary list sql" where
  "find_all_with_user p = get_tx (\<lambda>s. page_rows p
    (List.map_filter (admin_summary_of s) (rev (sort_key o_created_at (orders s)))))"

definition count_all_orders :: "int sql" where
  "count_all_orders = get_tx (\<lambda>s. int (length (orders s)))"

section \<open>Lock protocol\<close>

record checkout_locks =
  chk_balance :: balance_lock
  chk_products :: product_locks
  chk_courses :: course_locks

definition acquire_checkout_locks :: "uuid \<Rightarrow> checkout_locks app" where
  "acquire_checkout_locks uid =
    bind_tx (lock_balance_tx uid) (\<lambda>balance.
    bind_tx (find_checkout_targets_tx balance) (\<lambda>targets.
    bind_tx (lock_products_tx (ct_product_ids targets)) (\<lambda>products.
    bind_tx (db_try (lock_courses_tx (ct_course_ids targets))) (\<lambda>courses.
    return_tx \<lparr>chk_balance = balance, chk_products = products, chk_courses = courses\<rparr>))))"

record refund_locks =
  rfl_balance :: balance_lock
  rfl_restock :: restock_locks

definition acquire_refund_locks :: "order_row \<Rightarrow> refund_locks app" where
  "acquire_refund_locks order =
    bind_tx (lock_balance_tx (o_user_id order)) (\<lambda>balance.
    bind_tx (lock_restock_for_order_tx (o_id order)) (\<lambda>restock.
    return_tx \<lparr>rfl_balance = balance, rfl_restock = restock\<rparr>))"

section \<open>Responses\<close>

record order_item_response =
  oir_id :: uuid
  oir_item_type :: cart_item_type
  oir_product_id :: "uuid option"
  oir_course_id :: "uuid option"
  oir_quantity :: int
  oir_unit_price_cents :: int

definition item_from_model :: "order_item \<Rightarrow> order_item_response" where
  "item_from_model r = \<lparr>oir_id = oi_id r, oir_item_type = oi_item_type r,
     oir_product_id = oi_product_id r, oir_course_id = oi_course_id r, oir_quantity = oi_quantity r,
     oir_unit_price_cents = oi_unit_price_cents r\<rparr>"

record order_response =
  orp_id :: uuid
  orp_order_number :: string
  orp_status :: order_status
  orp_total_cents :: int
  orp_discount_cents :: int
  orp_coupon_code :: "string option"
  orp_points_used :: int
  orp_points_earned :: int
  orp_payment_method :: "string option"
  orp_paid_at :: "instant option"
  orp_created_at :: instant
  orp_items :: "order_item_response list"
  orp_enrolments :: "enrolment_with_course list"
  orp_subscriptions :: "subscription_response list"

definition assemble ::
  "order_row \<Rightarrow> order_item list \<Rightarrow> enrolment_with_course list \<Rightarrow> subscription_response list \<Rightarrow> order_response" where
  "assemble r items es subs = \<lparr>orp_id = o_id r, orp_order_number = o_order_number r,
     orp_status = o_status r, orp_total_cents = o_total_cents r, orp_discount_cents = o_discount_cents r,
     orp_coupon_code = o_coupon_code r, orp_points_used = o_points_used r,
     orp_points_earned = o_points_earned r, orp_payment_method = o_payment_method r,
     orp_paid_at = o_paid_at r, orp_created_at = o_created_at r, orp_items = map item_from_model items,
     orp_enrolments = es, orp_subscriptions = subs\<rparr>"

definition fetch_artifacts :: "uuid \<Rightarrow> (enrolment_with_course list \<times> subscription_response list) app" where
  "fetch_artifacts i =
    bind_tx (list_enrolments_by_order i) (\<lambda>es.
    bind_tx (list_subscriptions_by_order i) (\<lambda>subs. return_tx (es, subs)))"

definition assemble_response :: "order_row \<Rightarrow> order_response app" where
  "assemble_response r =
    bind_tx (db_try (find_items_by_order (o_id r))) (\<lambda>items.
    bind_tx (fetch_artifacts (o_id r)) (\<lambda>arts.
    return_tx (assemble r items (fst arts) (snd arts))))"

definition get_order :: "uuid \<Rightarrow> auth_user \<Rightarrow> order_response app" where
  "get_order i auth =
    bind_tx (db_try (find_order_by_id i)) (\<lambda>r.
    bind_tx (of_option_tx (NotFound ''order not found'') r) (\<lambda>order.
    bind_tx (of_result_tx (owns_or_admin auth (o_user_id order) ''not authorized to view this order'')) (\<lambda>_.
    assemble_response order)))"

definition my_orders :: "uuid \<Rightarrow> pagination_params \<Rightarrow> (order_summary list \<times> page_meta) app" where
  "my_orders uid p =
    bind_tx (db_try (find_orders_by_user uid p)) (\<lambda>rows.
    bind_tx (db_try (count_orders_by_user uid)) (\<lambda>n. return_tx (rows, meta p n)))"

definition list_all_orders :: "pagination_params \<Rightarrow> (admin_order_summary list \<times> page_meta) app" where
  "list_all_orders p =
    bind_tx (db_try count_all_orders) (\<lambda>n.
    bind_tx (db_try (find_all_with_user p)) (\<lambda>rows. return_tx (rows, meta p n)))"

section \<open>Idempotency\<close>

datatype idempotency_key = IdempotencyKey (key_text: string)

definition is_ascii_graphic :: "char \<Rightarrow> bool" where
  "is_ascii_graphic c = (let n = of_char c :: nat in 33 \<le> n \<and> n \<le> 126)"

definition invalid_key :: app_error where
  "invalid_key = BadRequest ''Idempotency-Key must be 1-128 ASCII printable characters''"

definition parse_key :: "string \<Rightarrow> app_error + idempotency_key" where
  "parse_key raw =
    (let t = trim raw in
     if t = [] \<or> length t > 128 \<or>
        \<not> list_all (\<lambda>c. is_ascii_graphic c \<or> c = CHR ''-'' \<or> c = CHR ''_'') t
     then Inl invalid_key else Inr (IdempotencyKey t))"

text \<open>A header value is absent, present and readable as text, or present and not text.\<close>

definition key_from_headers :: "string option option \<Rightarrow> app_error + idempotency_key option" where
  "key_from_headers header =
    (case header of
       None \<Rightarrow> Inr None
     | Some None \<Rightarrow> Inl invalid_key
     | Some (Some value) \<Rightarrow>
         (case parse_key value of Inl e \<Rightarrow> Inl e | Inr k \<Rightarrow> Inr (Some k)))"

definition find_idempotency :: "uuid \<Rightarrow> string \<Rightarrow> uuid option sql" where
  "find_idempotency uid key = get_tx (\<lambda>s. map_option ik_order_id
    (fetch_by (\<lambda>r. ik_user_id r = uid \<and> ik_key r = key) (idempotency s)))"

definition insert_idempotency_tx :: "uuid \<Rightarrow> string \<Rightarrow> uuid \<Rightarrow> unit sql" where
  "insert_idempotency_tx uid key order_id = (\<lambda>s.
    if \<exists>r \<in> set (idempotency s). ik_user_id r = uid \<and> ik_key r = key
    then Inl (UniqueViolation ''order_idempotency_pkey'')
    else Inr ((), s\<lparr>idempotency := idempotency s @
      [\<lparr>ik_user_id = uid, ik_key = key, ik_order_id = order_id, ik_created_at = db_now s\<rparr>]\<rparr>))"

definition replay_by_key :: "uuid \<Rightarrow> string \<Rightarrow> order_response option app" where
  "replay_by_key uid key =
    bind_tx (db_try (find_idempotency uid key)) (\<lambda>r.
    case r of
      None \<Rightarrow> return_tx None
    | Some existing \<Rightarrow>
        bind_tx (db_try (find_order_by_id existing)) (\<lambda>o'.
        bind_tx (of_option_tx (Internal (''idempotency row referenced missing order '' @
          show_nat existing)) o') (\<lambda>order.
        bind_tx (assemble_response order) (\<lambda>response. return_tx (Some response)))))"

definition replay :: "uuid \<Rightarrow> idempotency_key option \<Rightarrow> order_response option app" where
  "replay uid key =
    (case key of None \<Rightarrow> return_tx None | Some k \<Rightarrow> replay_by_key uid (key_text k))"

text \<open>
  \<open>replay_or\<close> and the losing branch of \<open>record\<close> release the transaction and answer from the
  committed state: their result is a response or an error, and the transaction's writes are gone.
\<close>

definition replay_or :: "balance_lock \<Rightarrow> idempotency_key option \<Rightarrow> app_error \<Rightarrow> order_response app" where
  "replay_or buyer key otherwise =
    (case key of
       None \<Rightarrow> fail_tx otherwise
     | Some k \<Rightarrow> bind_tx (replay_by_key (bl_user_id buyer) (key_text k)) (of_option_tx otherwise))"

definition no_committed_row :: app_error where
  "no_committed_row = Internal ''idempotency unique violation but no committed row''"

datatype recorded = Fresh | Twin

definition record_key :: "balance_lock \<Rightarrow> idempotency_key option \<Rightarrow> uuid \<Rightarrow> recorded app" where
  "record_key buyer key order_id = (\<lambda>s.
    case key of
      None \<Rightarrow> Inr (Fresh, s)
    | Some k \<Rightarrow>
        (case insert_idempotency_tx (bl_user_id buyer) (key_text k) order_id s of
           Inr (_, s') \<Rightarrow> Inr (Fresh, s')
         | Inl e \<Rightarrow> if sqlstate e = Some pg_unique_violation then Inr (Twin, s) else Inl (Database e)))"

end
