(* ===== verification/Notices.thy ===== *)
theory Notices
  imports Paging
begin

text \<open>
  In-app notifications (\<open>src/modules/notifications/service.rs\<close>, \<open>repository.rs\<close>). A notification is
  built as a value and written by \<open>deliver\<close> after the transaction it reports has committed; a failed
  write is logged and dropped, so delivery cannot fail. A calendar day is shown by chrono, the
  argument \<open>show_date\<close>.
\<close>

section \<open>Building\<close>

record notification_content =
  nc_type :: notification_type
  nc_title :: string
  nc_message :: string
  nc_metadata :: "json option"

record pending_notification =
  pn_user_id :: uuid
  pn_content :: notification_content

definition booking_confirmed_content :: "uuid \<Rightarrow> notification_content" where
  "booking_confirmed_content booking_id = \<lparr>nc_type = NT_BookingConfirmed, nc_title = ''Booking Confirmed'',
     nc_message = ''Your booking has been confirmed.'',
     nc_metadata = Some (JObj [(''booking_id'', json_uuid booking_id)])\<rparr>"

definition booking_cancelled_content :: "uuid \<Rightarrow> notification_content" where
  "booking_cancelled_content booking_id = \<lparr>nc_type = NT_BookingCancelled, nc_title = ''Booking Cancelled'',
     nc_message = ''Your booking has been cancelled.'',
     nc_metadata = Some (JObj [(''booking_id'', json_uuid booking_id)])\<rparr>"

definition order_placed_content :: "uuid \<Rightarrow> string \<Rightarrow> notification_content" where
  "order_placed_content order_id number = \<lparr>nc_type = NT_OrderPlaced, nc_title = ''Order Placed'',
     nc_message = ''Your order '' @ number @ '' has been placed.'',
     nc_metadata = Some (JObj [(''order_id'', json_uuid order_id), (''order_number'', JStr number)])\<rparr>"

definition order_status_changed_content :: "uuid \<Rightarrow> string \<Rightarrow> string \<Rightarrow> notification_content" where
  "order_status_changed_content order_id number status = \<lparr>nc_type = NT_OrderStatus, nc_title = ''Order Update'',
     nc_message = ''Your order status has been updated to: '' @ status,
     nc_metadata = Some (JObj [(''order_id'', json_uuid order_id), (''order_number'', JStr number),
       (''status'', JStr status)])\<rparr>"

definition user_welcomed_content :: notification_content where
  "user_welcomed_content = \<lparr>nc_type = NT_System, nc_title = ''Welcome to Dream Fly'',
     nc_message = ''Welcome to Dream Fly! Your account is ready.'', nc_metadata = None\<rparr>"

definition leave_request_decided_content ::
  "(date \<Rightarrow> string) \<Rightarrow> bool \<Rightarrow> string \<Rightarrow> date \<Rightarrow> notification_content" where
  "leave_request_decided_content show_date approved course_name session_date =
    \<lparr>nc_type = NT_System,
     nc_title = utf8 [232, 171, 139, 229, 129, 135, 231, 148, 179, 232, 171, 139, 231, 181, 144, 230, 158, 156],
     nc_message = utf8 [228, 189, 160, 231, 154, 132, 232, 171, 139, 229, 129, 135, 231, 148, 179, 232, 171, 139] @
       (if approved then utf8 [229, 183, 178, 230, 160, 184, 229, 135, 134] else utf8 [229, 183, 178, 229, 169, 137, 230, 139, 146]) @
       utf8 [239, 188, 154] @ course_name @ '' '' @ show_date session_date,
     nc_metadata = Some (JObj [(''course_name'', JStr course_name),
       (''session_date'', JStr (show_date session_date)), (''approved'', JBool approved)])\<rparr>"

definition certificate_issued_content :: "string \<Rightarrow> notification_content" where
  "certificate_issued_content title = \<lparr>nc_type = NT_System, nc_title = utf8 [230, 150, 176, 232, 173, 137, 230, 155, 184],
     nc_message = utf8 [228, 189, 160, 231, 141, 178, 229, 190, 151, 228, 186, 134, 230, 150, 176, 232, 173, 137, 230, 155, 184, 239, 188, 154] @ title,
     nc_metadata = Some (JObj [(''certificate_title'', JStr title)])\<rparr>"

definition booking_confirmed :: "uuid \<Rightarrow> uuid \<Rightarrow> pending_notification" where
  "booking_confirmed uid booking_id = \<lparr>pn_user_id = uid, pn_content = booking_confirmed_content booking_id\<rparr>"

definition booking_cancelled :: "uuid \<Rightarrow> uuid \<Rightarrow> pending_notification" where
  "booking_cancelled uid booking_id = \<lparr>pn_user_id = uid, pn_content = booking_cancelled_content booking_id\<rparr>"

definition order_placed :: "uuid \<Rightarrow> uuid \<Rightarrow> string \<Rightarrow> pending_notification" where
  "order_placed uid order_id number = \<lparr>pn_user_id = uid, pn_content = order_placed_content order_id number\<rparr>"

definition order_status_changed :: "uuid \<Rightarrow> uuid \<Rightarrow> string \<Rightarrow> string \<Rightarrow> pending_notification" where
  "order_status_changed uid order_id number status =
    \<lparr>pn_user_id = uid, pn_content = order_status_changed_content order_id number status\<rparr>"

definition user_welcomed :: "uuid \<Rightarrow> pending_notification" where
  "user_welcomed uid = \<lparr>pn_user_id = uid, pn_content = user_welcomed_content\<rparr>"

definition leave_request_decided ::
  "(date \<Rightarrow> string) \<Rightarrow> uuid \<Rightarrow> bool \<Rightarrow> string \<Rightarrow> date \<Rightarrow> pending_notification" where
  "leave_request_decided show_date uid approved course_name session_date =
    \<lparr>pn_user_id = uid, pn_content = leave_request_decided_content show_date approved course_name session_date\<rparr>"

definition certificate_issued :: "uuid \<Rightarrow> string \<Rightarrow> pending_notification" where
  "certificate_issued uid title = \<lparr>pn_user_id = uid, pn_content = certificate_issued_content title\<rparr>"

section \<open>Writing and reading\<close>

definition create_notification :: "uuid \<Rightarrow> notification_content \<Rightarrow> notification sql" where
  "create_notification uid c = bind_tx fresh_uuid (\<lambda>i s.
    let row = \<lparr>nt_id = i, nt_user_id = uid, nt_type = nc_type c, nt_title = nc_title c,
      nt_message = nc_message c, nt_is_read = False, nt_metadata = nc_metadata c, nt_created_at = db_now s\<rparr>
    in if i \<in> nt_id ` set (notifications s) then Inl (UniqueViolation ''notifications_pkey'')
       else Inr (row, s\<lparr>notifications := notifications s @ [row]\<rparr>))"

definition emit :: "uuid \<Rightarrow> notification_content \<Rightarrow> db \<Rightarrow> db" where
  "emit uid c s = (case create_notification uid c s of Inl _ \<Rightarrow> s | Inr (_, s') \<Rightarrow> s')"

definition deliver :: "pending_notification \<Rightarrow> db \<Rightarrow> db" where
  "deliver p s = emit (pn_user_id p) (pn_content p) s"

text \<open>The shape of a handler that tells the user once its transaction is committed.\<close>

definition then_deliver :: "'a handler \<Rightarrow> ('a \<Rightarrow> pending_notification) \<Rightarrow> 'a handler" where
  "then_deliver h tell = (\<lambda>s. case h s of
     (Inl e, s') \<Rightarrow> (Inl e, s')
   | (Inr x, s') \<Rightarrow> (Inr x, deliver (tell x) s'))"

definition newest_first :: "('r \<Rightarrow> instant) \<Rightarrow> 'r list \<Rightarrow> 'r list" where
  "newest_first k rows = sort_key (\<lambda>r. - k r) rows"

definition find_notifications_by_user :: "uuid \<Rightarrow> pagination_params \<Rightarrow> notification list sql" where
  "find_notifications_by_user uid p = get_tx (\<lambda>s.
    page_rows p (newest_first nt_created_at (filter (\<lambda>n. nt_user_id n = uid) (notifications s))))"

definition list_notifications :: "uuid \<Rightarrow> pagination_params \<Rightarrow> notification list app" where
  "list_notifications uid p = db_try (find_notifications_by_user uid p)"

definition count_unread :: "uuid \<Rightarrow> nat sql" where
  "count_unread uid = get_tx (\<lambda>s. count_where (\<lambda>n. nt_user_id n = uid \<and> \<not> nt_is_read n) (notifications s))"

definition get_unread_count :: "uuid \<Rightarrow> nat app" where
  "get_unread_count uid = db_try (count_unread uid)"

definition mark_notification_read :: "uuid \<Rightarrow> uuid \<Rightarrow> notification option sql" where
  "mark_notification_read i uid = (\<lambda>s.
    let mine = (\<lambda>n. nt_id n = i \<and> nt_user_id n = uid);
        rows = update_where mine (\<lambda>n. n\<lparr>nt_is_read := True\<rparr>) (notifications s)
    in Inr (fetch_by mine rows, s\<lparr>notifications := rows\<rparr>))"

definition mark_as_read :: "uuid \<Rightarrow> uuid \<Rightarrow> notification app" where
  "mark_as_read i uid = bind_tx (db_try (mark_notification_read i uid)) (\<lambda>r.
    of_option_tx (NotFound ''notification not found'') r)"

section \<open>Delivery touches nothing else\<close>

lemma deliver_cases:
  obtains "deliver p s = s"
  | n where "deliver p s = s\<lparr>uuid_pos := uuid_pos s + 1, notifications := notifications s @ [n]\<rparr>"
      "nt_user_id n = pn_user_id p" "\<not> nt_is_read n"
proof (cases "uuid_supply s (uuid_pos s) \<in> nt_id ` set (notifications s)")
  case True
  then show thesis
    by (intro that(1)) (simp add: deliver_def emit_def create_notification_def bind_tx_def Let_def)
next
  case False
  then show thesis
    by (intro that(2) [where n = "\<lparr>nt_id = uuid_supply s (uuid_pos s), nt_user_id = pn_user_id p,
        nt_type = nc_type (pn_content p), nt_title = nc_title (pn_content p),
        nt_message = nc_message (pn_content p), nt_is_read = False,
        nt_metadata = nc_metadata (pn_content p), nt_created_at = db_now s\<rparr>"])
      (simp_all add: deliver_def emit_def create_notification_def bind_tx_def Let_def)
qed

lemma deliver_frame [simp]:
  "users (deliver p s) = users s" "products (deliver p s) = products s" "courses (deliver p s) = courses s"
  "cart_items (deliver p s) = cart_items s" "coupons (deliver p s) = coupons s"
  "orders (deliver p s) = orders s" "order_items (deliver p s) = order_items s"
  "idempotency (deliver p s) = idempotency s" "point_ledger (deliver p s) = point_ledger s"
  "enrolments (deliver p s) = enrolments s" "subscriptions (deliver p s) = subscriptions s"
  "leave_requests (deliver p s) = leave_requests s" "attendance (deliver p s) = attendance s"
  "sessions (deliver p s) = sessions s" "time_slots (deliver p s) = time_slots s"
  "bookings (deliver p s) = bookings s" "events_outbox (deliver p s) = events_outbox s"
  "refresh_tokens (deliver p s) = refresh_tokens s" "user_roles (deliver p s) = user_roles s"
  "coaches (deliver p s) = coaches s" "role_names (deliver p s) = role_names s"
  "uuid_supply (deliver p s) = uuid_supply s" "db_now (deliver p s) = db_now s" "db_wall (deliver p s) = db_wall s"
  by (rule deliver_cases [of p s]; simp)+

lemma then_deliver_cases:
  obtains e where "m s = Inl e" "then_deliver (commit_tx m) tell s = (Inl e, s)"
  | x s' where "m s = Inr (x, s')" "then_deliver (commit_tx m) tell s = (Inr x, deliver (tell x) s')"
  by (cases "m s") (auto simp: then_deliver_def)

lemma then_deliver_state:
  "snd (then_deliver (commit_tx m) tell s) = (case m s of Inl e \<Rightarrow> s | Inr (x, s') \<Rightarrow> deliver (tell x) s')"
  by (rule then_deliver_cases [of m s tell]) simp_all

end
