(* ===== verification/Checkout.thy ===== *)
theory Checkout
  imports Orders Notices
begin

text \<open>
  Checkout (\<open>checkout\<close> of \<open>src/modules/orders/service.rs\<close>): the pre-check for a replay, the one
  transaction that reserves, writes, enrols, grants, empties the cart and queues the event, and the
  two ways it ends without placing an order although nothing failed: an empty cart and a same-key
  twin that committed first. \<open>checkout_transaction\<close> is that transaction up to its commit;
  \<open>checkout\<close> is the whole handler. The buyer is notified after the commit, and the
  response is read from the state the notification left.
\<close>

section \<open>The request\<close>

record checkout_request =
  cq_coupon_code :: "string option"
  cq_use_points :: "bool option"
  cq_payment_method :: "string option"

record checkout_intent =
  int_payment_method :: string
  int_coupon_code :: "string option"
  int_use_points :: bool

definition nonblank :: "string option \<Rightarrow> string option" where
  "nonblank code = (case code of None \<Rightarrow> None | Some c \<Rightarrow> if trim c = [] then None else Some (trim c))"

definition parse_request :: "checkout_request \<Rightarrow> app_error + checkout_intent" where
  "parse_request req =
    (case (case cq_payment_method req of
             None \<Rightarrow> Inr ''credit_card''
           | Some m \<Rightarrow> (case List.find (\<lambda>p. p = m) payment_methods of
                          None \<Rightarrow> Inl (Validation (''invalid payment method: '' @ m))
                        | Some p \<Rightarrow> Inr p)) of
       Inl e \<Rightarrow> Inl e
     | Inr payment_method \<Rightarrow> Inr \<lparr>int_payment_method = payment_method,
         int_coupon_code = nonblank (cq_coupon_code req),
         int_use_points = (case cq_use_points req of None \<Rightarrow> False | Some b \<Rightarrow> b)\<rparr>)"

section \<open>The order number\<close>

definition hex_digit :: "int \<Rightarrow> char" where
  "hex_digit d = ''0123456789ABCDEF'' ! nat d"

definition hex8 :: "int \<Rightarrow> string" where
  "hex8 n = map (\<lambda>k. hex_digit ((n div 16 ^ k) mod 16)) (rev [0..<8])"

text \<open>The date prefix is chrono's \<open>%Y%m%d\<close> of the studio's day: a parameter \<open>ymd\<close>.\<close>

definition order_number :: "(date \<Rightarrow> string) \<Rightarrow> studio_now \<Rightarrow> uuid \<Rightarrow> string" where
  "order_number ymd at i = ''DF-'' @ ymd (studio_today at) @ hex8 (int i mod 2 ^ 32)"

section \<open>The transaction\<close>

definition load_coupon :: "string option \<Rightarrow> instant \<Rightarrow> coupon option app" where
  "load_coupon code now =
    (case code of
       None \<Rightarrow> return_tx None
     | Some c \<Rightarrow> bind_tx (find_valid_by_code_tx c now) (\<lambda>r.
         bind_tx (of_option_tx (Validation ''invalid coupon'') r) (\<lambda>coupon. return_tx (Some coupon))))"

definition lines_to_reserve :: "fulfilment_plan \<Rightarrow> (uuid \<times> int \<times> string) list" where
  "lines_to_reserve p = map (\<lambda>f. (pf_product_id f, pf_quantity f, pf_name f)) (fp_products p)"

definition fresh_order_number :: "(date \<Rightarrow> string) \<Rightarrow> studio_now \<Rightarrow> string app" where
  "fresh_order_number ymd at = bind_tx fresh_uuid (\<lambda>i. return_tx (order_number ymd at i))"

definition checkout_order :: "balance_lock \<Rightarrow> string \<Rightarrow> pricing_outcome \<Rightarrow> checkout_intent \<Rightarrow> instant \<Rightarrow> new_order" where
  "checkout_order buyer number outcome intent now =
    \<lparr>no_user_id = bl_user_id buyer, no_order_number = number, no_status = OS_Paid,
     no_amounts = \<lparr>am_total_cents = po_total_cents outcome, am_discount_cents = po_discount_cents outcome,
       am_points_used = po_points_used outcome, am_points_earned = po_points_earned outcome\<rparr>,
     no_coupon_code = po_applied_coupon_code outcome,
     no_payment_method = Some (int_payment_method intent), no_paid_at = Some now, no_created_at = now\<rparr>"

definition grant_line ::
  "balance_lock \<Rightarrow> (uuid \<Rightarrow> product option) \<Rightarrow> uuid \<Rightarrow> instant \<Rightarrow> product_fulfilment \<Rightarrow> subscription option app" where
  "grant_line buyer reserved order_id now f =
    bind_tx (of_option_tx (Internal ''product line was reserved by reserve_stock_tx'')
      (reserved (pf_product_id f))) (\<lambda>p.
    grant_from_purchase_tx buyer p (pf_quantity f) (pf_price_cents f) order_id now)"

text \<open>The artifacts of an order: ledger rows, enrolments, subscriptions, and the emptied cart.\<close>

definition write_artifacts ::
  "checkout_locks \<Rightarrow> pricing_outcome \<Rightarrow> fulfilment_plan \<Rightarrow> (uuid \<Rightarrow> product option) \<Rightarrow> uuid \<Rightarrow> instant \<Rightarrow> unit app" where
  "write_artifacts locks outcome fplan reserved order_id now =
    bind_tx (for_tx (\<lambda>ld. apply_delta_tx (chk_balance locks) ld now) (ledger_deltas outcome order_id)) (\<lambda>_.
    bind_tx (enrol_batch_from_purchase_tx (chk_courses locks) (chk_balance locks)
      (fp_course_ids fplan) order_id now) (\<lambda>_.
    bind_tx (for_tx (grant_line (chk_balance locks) reserved order_id now) (fp_products fplan)) (\<lambda>_.
    clear_cart_tx (chk_balance locks))))"

definition order_created_event :: "order_row \<Rightarrow> domain_event" where
  "order_created_event r = OrderCreated \<lparr>oc_order_id = o_id r, oc_user_id = o_user_id r,
     oc_order_number = o_order_number r, oc_total_cents = o_total_cents r,
     oc_discount_cents = o_discount_cents r, oc_coupon_code = o_coupon_code r,
     oc_points_used = o_points_used r, oc_points_earned = o_points_earned r\<rparr>"

text \<open>
  How the transaction ends when no check fails: an order placed, or released for the answer of
  \<open>replay_or\<close> with the error to give when there is nothing to replay.
\<close>

datatype checkout_end = Placed order_row | Released balance_lock app_error

definition finish_order ::
  "checkout_locks \<Rightarrow> idempotency_key option \<Rightarrow> order_row \<Rightarrow> string option \<Rightarrow> checkout_end app" where
  "finish_order locks key order correlation_id =
    bind_tx (record_key (chk_balance locks) key (o_id order)) (\<lambda>r.
    case r of
      Twin \<Rightarrow> return_tx (Released (chk_balance locks) no_committed_row)
    | Fresh \<Rightarrow>
        bind_tx (db_try (insert_domain_event_tx (order_created_event order) correlation_id)) (\<lambda>_.
        return_tx (Placed order)))"

definition place_order ::
  "(date \<Rightarrow> string) \<Rightarrow> checkout_locks \<Rightarrow> purchasable_cart \<Rightarrow> checkout_intent \<Rightarrow> idempotency_key option \<Rightarrow> string option \<Rightarrow>
    studio_now \<Rightarrow> checkout_end app" where
  "place_order ymd locks cart intent key correlation_id at =
    bind_tx (load_coupon (int_coupon_code intent) (sn_now at)) (\<lambda>coupon.
    bind_tx (of_result_tx (price cart coupon (bl_balance (chk_balance locks)) (int_use_points intent))) (\<lambda>outcome.
    bind_tx (reserve_stock_tx (chk_products locks) (lines_to_reserve (plan cart))) (\<lambda>reserved.
    bind_tx (fresh_order_number ymd at) (\<lambda>number.
    bind_tx (db_try (create_order (checkout_order (chk_balance locks) number outcome intent (sn_now at)))) (\<lambda>order.
    bind_tx (db_try (create_order_items (o_id order) (order_lines cart reserved) (sn_now at))) (\<lambda>_.
    bind_tx (write_artifacts locks outcome (plan cart) reserved (o_id order) (sn_now at)) (\<lambda>_.
    finish_order locks key order correlation_id)))))))"

definition checkout_transaction ::
  "(date \<Rightarrow> string) \<Rightarrow> uuid \<Rightarrow> idempotency_key option \<Rightarrow> checkout_intent \<Rightarrow> string option \<Rightarrow> studio_now \<Rightarrow> checkout_end app" where
  "checkout_transaction ymd uid key intent correlation_id at =
    bind_tx (acquire_checkout_locks uid) (\<lambda>locks.
    bind_tx (find_cart_items_for_checkout_tx (chk_balance locks)) (\<lambda>items.
    if items = [] then return_tx (Released (chk_balance locks) (BadRequest ''cart is empty''))
    else bind_tx (of_result_tx (ensure_all_purchasable items)) (\<lambda>cart.
      place_order ymd locks cart intent key correlation_id at)))"

section \<open>The handler\<close>

abbreviation placed_notice :: "order_row \<Rightarrow> pending_notification" where
  "placed_notice order \<equiv> order_placed (o_user_id order) (o_id order) (o_order_number order)"

definition run_checkout ::
  "(date \<Rightarrow> string) \<Rightarrow> uuid \<Rightarrow> idempotency_key option \<Rightarrow> checkout_intent \<Rightarrow> string option \<Rightarrow> studio_now \<Rightarrow> order_response handler" where
  "run_checkout ymd uid key intent correlation_id at = (\<lambda>s.
    case checkout_transaction ymd uid key intent correlation_id at s of
      Inl e \<Rightarrow> (Inl e, s)
    | Inr (Released buyer otherwise, _) \<Rightarrow> commit_tx (replay_or buyer key otherwise) s
    | Inr (Placed order, s') \<Rightarrow> commit_tx (assemble_response order) (deliver (placed_notice order) s'))"

definition checkout ::
  "(date \<Rightarrow> string) \<Rightarrow> uuid \<Rightarrow> idempotency_key option \<Rightarrow> checkout_request \<Rightarrow> string option \<Rightarrow> studio_now \<Rightarrow> order_response handler" where
  "checkout ymd uid key req correlation_id at = (\<lambda>s.
    case replay uid key s of
      Inl e \<Rightarrow> (Inl e, s)
    | Inr (Some response, _) \<Rightarrow> (Inr response, s)
    | Inr (None, _) \<Rightarrow>
        (case parse_request req of
           Inl e \<Rightarrow> (Inl e, s)
         | Inr intent \<Rightarrow> run_checkout ymd uid key intent correlation_id at s))"

section \<open>What each step changes\<close>

lemma acquire_checkout_locks_Inr:
  assumes "acquire_checkout_locks uid s = Inr (locks, s')"
  shows "s' = s" "bl_user_id (chk_balance locks) = uid"
    "user_balance s uid = Some (bl_balance (chk_balance locks))"
    "product_locks_ok (chk_products locks)" "course_locks_ok (chk_courses locks)"
  using assms lock_products_tx_good(1)
  by (auto simp: acquire_checkout_locks_def bind_tx_Inr find_checkout_targets_tx_def
      find_checkout_targets_rows_def lock_products_tx_def lock_products_rows_def lock_courses_tx_Inr
      product_locks_ok_def course_locks_ok_def)

lemma load_coupon_Inr:
  assumes "load_coupon code now s = Inr (c, s')"
  shows "s' = s" "case c of None \<Rightarrow> True | Some x \<Rightarrow> x \<in> set (coupons s)"
  using assms
  by (auto simp: load_coupon_def find_valid_by_code_tx_def find_valid_by_code_def bind_tx_Inr
      split: option.splits dest: fetch_by_Some)

lemma fresh_order_number_Inr:
  "fresh_order_number ymd at s = Inr (n, s') \<longleftrightarrow>
    n = order_number ymd at (uuid_supply s (uuid_pos s)) \<and> s' = s\<lparr>uuid_pos := uuid_pos s + 1\<rparr>"
  by (auto simp: fresh_order_number_def bind_tx_Inr)

lemma create_order_Inr:
  "create_order n s = Inr (r, s') \<longleftrightarrow>
    r = \<lparr>o_id = uuid_supply s (uuid_pos s), o_user_id = no_user_id n, o_order_number = no_order_number n,
      o_status = no_status n, o_total_cents = am_total_cents (no_amounts n),
      o_discount_cents = am_discount_cents (no_amounts n), o_coupon_code = no_coupon_code n,
      o_points_used = am_points_used (no_amounts n), o_points_earned = am_points_earned (no_amounts n),
      o_payment_method = no_payment_method n, o_paid_at = no_paid_at n, o_created_at = no_created_at n\<rparr> \<and>
    s' = s\<lparr>uuid_pos := uuid_pos s + 1, orders := orders s @ [r]\<rparr> \<and> order_checks (no_amounts n) = None \<and>
    o_id r \<notin> o_id ` set (orders s) \<and> o_order_number r \<notin> o_order_number ` set (orders s)"
  by (auto simp: create_order_def Let_def split: option.splits)

definition item_of_line :: "uuid \<Rightarrow> instant \<Rightarrow> order_line \<Rightarrow> order_item \<Rightarrow> bool" where
  "item_of_line oid at l r = (oi_order_id r = oid \<and> oi_item_type r = item_type_of (ol_target l) \<and>
    oi_product_id r = product_id_of (ol_target l) \<and> oi_course_id r = course_id_of (ol_target l) \<and>
    oi_quantity r = ol_quantity l \<and> oi_unit_price_cents r = ol_price_cents l \<and> oi_name r = ol_name l \<and>
    oi_stock_decremented r = ol_stock_decremented l \<and> oi_created_at r = at)"

lemma create_order_item_Inr:
  assumes "create_order_item oid at l s = Inr (r, s')"
  shows "item_of_line oid at l r \<and> s' = s\<lparr>uuid_pos := uuid_pos s + 1, order_items := order_items s @ [r]\<rparr>"
  using assms by (auto simp: create_order_item_def item_of_line_def Let_def split: if_splits)

lemma create_order_items_Inr:
  "create_order_items oid ls at s = Inr (rs, s') \<Longrightarrow> list_all2 (item_of_line oid at) ls rs \<and>
    (\<exists>n. s' = s\<lparr>uuid_pos := n, order_items := order_items s @ rs\<rparr>)"
  unfolding create_order_items_def
proof (induction ls arbitrary: s rs)
  case Nil
  then show ?case by (auto intro: exI [of _ "uuid_pos s"])
next
  case (Cons l ls)
  then obtain r t rs' where one: "create_order_item oid at l s = Inr (r, t)"
    and rest: "for_tx (create_order_item oid at) ls t = Inr (rs', s')" and rs: "rs = r # rs'"
    by (auto simp: bind_tx_Inr)
  note t = create_order_item_Inr [OF one]
  obtain n where n: "s' = t\<lparr>uuid_pos := n, order_items := order_items t @ rs'\<rparr>"
    using Cons.IH [OF rest] by blast
  have "s' = s\<lparr>uuid_pos := n, order_items := order_items s @ rs\<rparr>" unfolding n rs using t by simp
  then show ?case using t Cons.IH [OF rest] rs by auto
qed

definition row_of_delta :: "uuid \<Rightarrow> instant \<Rightarrow> ledger_delta \<Rightarrow> ledger_row \<Rightarrow> bool" where
  "row_of_delta uid at d r = (l_user_id r = uid \<and> l_delta r = ld_delta d \<and> l_reason r = ld_reason d \<and>
    l_order_id r = ld_order_id d \<and> l_created_at r = at)"

lemma apply_deltas_Inr:
  "for_tx (\<lambda>ld. apply_delta_tx lock ld now) ds s = Inr (bs, s') \<Longrightarrow>
    \<exists>us n rows. s' = s\<lparr>users := us, uuid_pos := n, point_ledger := point_ledger s @ rows\<rparr> \<and>
      list_all2 (row_of_delta (bl_user_id lock) now) ds rows"
proof (induction ds arbitrary: s bs)
  case Nil
  have "s = s\<lparr>users := users s, uuid_pos := uuid_pos s, point_ledger := point_ledger s @ []\<rparr>" by simp
  moreover have "s' = s" using Nil by simp
  ultimately show ?case by (metis list_all2_Nil)
next
  case (Cons d ds)
  then obtain b t bs' where one: "apply_delta_tx lock d now s = Inr (b, t)"
    and rest: "for_tx (\<lambda>ld. apply_delta_tx lock ld now) ds t = Inr (bs', s')"
    by (auto simp: bind_tx_Inr)
  obtain us n row where t: "t = s\<lparr>users := us, uuid_pos := n, point_ledger := point_ledger s @ [row]\<rparr>"
    and row: "row_of_delta (bl_user_id lock) now d row"
    using one by (elim apply_delta_tx_Inr) (auto simp: row_of_delta_def)
  obtain us' n' rows where "s' = t\<lparr>users := us', uuid_pos := n', point_ledger := point_ledger t @ rows\<rparr>"
    and rows: "list_all2 (row_of_delta (bl_user_id lock) now) ds rows"
    using Cons.IH [OF rest] by blast
  then have "s' = s\<lparr>users := us', uuid_pos := n', point_ledger := point_ledger s @ (row # rows)\<rparr>"
    by (simp add: t)
  then show ?case using row rows by (intro exI [of _ us'] exI [of _ n'] exI [of _ "row # rows"]) simp
qed

lemma grant_line_Inr:
  assumes "grant_line buyer reserved oid now f s = Inr (r, s')"
  obtains p n where "reserved (pf_product_id f) = Some p"
    "s' = s\<lparr>uuid_pos := n, subscriptions := subscriptions s @ (case r of None \<Rightarrow> [] | Some row \<Rightarrow> [row])\<rparr>"
    "\<forall>row. r = Some row \<longrightarrow> granted_row (bl_user_id buyer) oid now row \<and> s_product_id row = p_id p"
    "r = None \<longleftrightarrow> \<not> is_entitlement p"
proof -
  obtain p where p: "reserved (pf_product_id f) = Some p"
    and g: "grant_from_purchase_tx buyer p (pf_quantity f) (pf_price_cents f) oid now s = Inr (r, s')"
    using assms by (auto simp: grant_line_def bind_tx_Inr)
  show thesis
  proof (cases r)
    case None
    then have "s' = s" "\<not> is_entitlement p" using g grant_from_purchase_tx_None by blast+
    then show thesis using None p by (intro that [of p "uuid_pos s"]) simp_all
  next
    case (Some row)
    note gr = grant_from_purchase_tx_Some [OF g [unfolded Some]]
    show thesis using gr Some p by (intro that [of p "uuid_pos s'"]) simp_all
  qed
qed

definition granted_for :: "(uuid \<Rightarrow> product option) \<Rightarrow> product_fulfilment list \<Rightarrow> uuid list" where
  "granted_for reserved fs = map pf_product_id
    (filter (\<lambda>f. \<exists>p. reserved (pf_product_id f) = Some p \<and> is_entitlement p) fs)"

lemma grant_lines_Inr:
  assumes "\<And>k p. reserved k = Some p \<Longrightarrow> p_id p = k"
  shows "for_tx (grant_line buyer reserved oid now) fs s = Inr (rs, s') \<Longrightarrow>
    \<exists>n subs. s' = s\<lparr>uuid_pos := n, subscriptions := subscriptions s @ subs\<rparr> \<and>
      (\<forall>r \<in> set subs. granted_row (bl_user_id buyer) oid now r) \<and>
      map s_product_id subs = granted_for reserved fs"
proof (induction fs arbitrary: s rs)
  case Nil
  have "s = s\<lparr>uuid_pos := uuid_pos s, subscriptions := subscriptions s @ []\<rparr>" by simp
  moreover have "s' = s" using Nil by simp
  ultimately show ?case unfolding granted_for_def
    by (intro exI [of _ "uuid_pos s"] exI [of _ "[]"]) simp
next
  case (Cons f fs)
  then obtain r t rs' where one: "grant_line buyer reserved oid now f s = Inr (r, t)"
    and rest: "for_tx (grant_line buyer reserved oid now) fs t = Inr (rs', s')"
    by (auto simp: bind_tx_Inr)
  define new where "new = (case r of None \<Rightarrow> [] | Some row \<Rightarrow> [row])"
  obtain p n where p: "reserved (pf_product_id f) = Some p"
    and t: "t = s\<lparr>uuid_pos := n, subscriptions := subscriptions s @ new\<rparr>"
    and r: "\<forall>row. r = Some row \<longrightarrow> granted_row (bl_user_id buyer) oid now row \<and> s_product_id row = p_id p"
    "r = None \<longleftrightarrow> \<not> is_entitlement p"
    using one unfolding new_def by (rule grant_line_Inr) blast
  obtain n' subs where s': "s' = t\<lparr>uuid_pos := n', subscriptions := subscriptions t @ subs\<rparr>"
    and subs: "\<forall>r \<in> set subs. granted_row (bl_user_id buyer) oid now r"
    "map s_product_id subs = granted_for reserved fs"
    using Cons.IH [OF rest] by blast
  have "s' = s\<lparr>uuid_pos := n', subscriptions := subscriptions s @ (new @ subs)\<rparr>" by (simp add: s' t)
  moreover have "\<forall>r \<in> set (new @ subs). granted_row (bl_user_id buyer) oid now r"
    using subs(1) r by (auto simp: new_def split: option.splits)
  moreover have "map s_product_id (new @ subs) = granted_for reserved (f # fs)"
    using subs(2) r p assms [OF p] by (cases r) (auto simp: new_def granted_for_def)
  ultimately show ?case by blast
qed

lemma record_key_Inr:
  "record_key buyer key oid s = Inr (Fresh, s') \<Longrightarrow>
    (\<exists>rows. s' = s\<lparr>idempotency := idempotency s @ rows\<rparr> \<and>
      map (\<lambda>r. (ik_user_id r, ik_key r, ik_order_id r)) rows =
        (case key of None \<Rightarrow> [] | Some k \<Rightarrow> [(bl_user_id buyer, key_text k, oid)]))"
  "record_key buyer key oid s = Inr (Twin, s') \<Longrightarrow> s' = s"
  by (cases key; auto simp: record_key_def insert_idempotency_tx_def pg_unique_violation_def split: if_splits)+

lemma insert_domain_event_Inr:
  assumes "insert_domain_event_tx e cid s = Inr (u, s')"
  obtains n row where "s' = s\<lparr>uuid_pos := n, events_outbox := events_outbox s @ [row]\<rparr>"
    "ke_data (ob_payload row) = e" "ob_topic row = es_topic (event_spec_of e)" "ob_published_at row = None"
proof -
  define row where "row = \<lparr>ob_id = uuid_supply s (Suc (uuid_pos s)), ob_topic = es_topic (event_spec_of e),
    ob_key = kafka_key e,
    ob_payload = \<lparr>ke_version = current_envelope_version, ke_event_id = uuid_supply s (uuid_pos s),
      ke_event_type = es_event_type (event_spec_of e), ke_timestamp = db_wall s, ke_correlation_id = cid,
      ke_data = e\<rparr>,
    ob_created_at = db_now s, ob_published_at = None, ob_attempts = 0, ob_last_error = None,
    ob_next_attempt_at = db_now s\<rparr>"
  have "s' = s\<lparr>uuid_pos := Suc (Suc (uuid_pos s)), events_outbox := events_outbox s @ [row]\<rparr>"
    using assms by (auto simp: row_def insert_domain_event_tx_def insert_event_tx_def bind_tx_Inr split: if_splits)
  then show thesis by (rule that) (simp_all add: row_def)
qed

lemma reserve_step:
  assumes "stock_ok s" "reserve_stock_tx locks lines s = Inr (m, s')"
  obtains P where "s' = s\<lparr>products := P\<rparr>" "stock_ok s'"
    "\<And>pid. stock_of s' pid =
      map_option (map_option (\<lambda>n. n - line_sum pid (quantities lines))) (stock_of s pid)"
    "\<And>pid. but_stock s' pid = but_stock s pid" "dom m = fst ` set lines"
    "\<And>pid q. m pid = Some q \<Longrightarrow> product_by_id pid s' = Some q"
proof -
  note r = reserve_stock_effect_spec [OF assms]
  show thesis
  proof (rule that [of "products s'"])
    show "s' = s\<lparr>products := products s'\<rparr>" using r by blast
    show "stock_of s' pid = map_option (map_option (\<lambda>n. n - line_sum pid (quantities lines))) (stock_of s pid)"
      "but_stock s' pid = but_stock s pid" for pid using r by blast+
    show "stock_ok s'" "dom m = fst ` set lines" using r by blast+
    show "product_by_id pid s' = Some q" if "m pid = Some q" for pid q using r that by blast
  qed
qed

lemma enrol_step:
  assumes "course_locks_ok locks" "enrol_batch_from_purchase_tx locks buyer cids oid now s = Inr (es, s')"
  obtains n where "s' = s\<lparr>uuid_pos := n, enrolments := enrolments s @ es\<rparr>"
    "mset (map e_course_id es) = mset cids" "distinct cids"
    "\<forall>e \<in> set es. enrolled_row (bl_user_id buyer) oid now e"
    "\<And>cid. cid \<in> set cids \<Longrightarrow> \<exists>c. course_by_id cid s = Some c \<and> active_count cid s' \<le> c_max_students c"
proof -
  note r = enrol_batch_effect_spec [OF assms]
  have f: "s' = s\<lparr>uuid_pos := uuid_pos s', enrolments := enrolments s'\<rparr>" and e: "enrolments s' = enrolments s @ es"
    using r by blast+
  show thesis
  proof (rule that [of "uuid_pos s'"])
    show "s' = s\<lparr>uuid_pos := uuid_pos s', enrolments := enrolments s @ es\<rparr>" using f unfolding e .
    show "mset (map e_course_id es) = mset cids" "distinct cids" using r by blast+
    show "\<forall>e \<in> set es. enrolled_row (bl_user_id buyer) oid now e" using r by blast
    show "\<exists>c. course_by_id cid s = Some c \<and> active_count cid s' \<le> c_max_students c" if "cid \<in> set cids" for cid
      using r that by blast
  qed
qed

lemma balance_step:
  assumes "for_tx (\<lambda>ld. apply_delta_tx lock ld now) ds s = Inr (bs, s')"
  shows "user_balance s' k = (if k = bl_user_id lock
    then map_option (\<lambda>b. b + sum_list (map ld_delta ds)) (user_balance s k) else user_balance s k)"
  by (rule ledger.posts_bal [OF assms])

text \<open>
  What a placed order has written, as one record of the new rows: the abstract effect of the whole
  transaction on the state.
\<close>

record purchase =
  pu_products :: "product list"
  pu_users :: "user list"
  pu_uuid_pos :: nat
  pu_order :: order_row
  pu_items :: "order_item list"
  pu_ledger :: "ledger_row list"
  pu_enrolments :: "enrolment list"
  pu_subscriptions :: "subscription list"
  pu_keys :: "idempotency_row list"
  pu_event :: outbox_row

definition write_purchase :: "uuid \<Rightarrow> purchase \<Rightarrow> db \<Rightarrow> db" where
  "write_purchase uid w s = s\<lparr>products := pu_products w, users := pu_users w, uuid_pos := pu_uuid_pos w,
     orders := orders s @ [pu_order w], order_items := order_items s @ pu_items w,
     point_ledger := point_ledger s @ pu_ledger w, enrolments := enrolments s @ pu_enrolments w,
     subscriptions := subscriptions s @ pu_subscriptions w,
     cart_items := delete_where (\<lambda>i. ci_user_id i = uid) (cart_items s),
     idempotency := idempotency s @ pu_keys w, events_outbox := events_outbox s @ [pu_event w]\<rparr>"

lemma finish_order_Placed:
  assumes "finish_order locks key order cid s = Inr (Placed order', s')"
  obtains n ks ev where "order' = order"
    "s' = s\<lparr>uuid_pos := n, idempotency := idempotency s @ ks, events_outbox := events_outbox s @ [ev]\<rparr>"
    "map (\<lambda>r. (ik_user_id r, ik_key r, ik_order_id r)) ks =
      (case key of None \<Rightarrow> [] | Some k \<Rightarrow> [(bl_user_id (chk_balance locks), key_text k, o_id order)])"
    "ke_data (ob_payload ev) = order_created_event order" "ob_topic ev = orders_created" "ob_published_at ev = None"
proof -
  obtain r t where k: "record_key (chk_balance locks) key (o_id order) s = Inr (r, t)"
    and rest: "(case r of Twin \<Rightarrow> return_tx (Released (chk_balance locks) no_committed_row)
      | Fresh \<Rightarrow> bind_tx (db_try (insert_domain_event_tx (order_created_event order) cid)) (\<lambda>_.
          return_tx (Placed order))) t = Inr (Placed order', s')"
    using assms by (auto simp: finish_order_def bind_tx_Inr)
  then have fresh: "r = Fresh" by (cases r) simp_all
  obtain u where o: "order' = order" and ev: "insert_domain_event_tx (order_created_event order) cid t = Inr (u, s')"
    using rest by (auto simp: fresh bind_tx_Inr)
  obtain ks where t: "t = s\<lparr>idempotency := idempotency s @ ks\<rparr>"
    and ks: "map (\<lambda>r. (ik_user_id r, ik_key r, ik_order_id r)) ks =
      (case key of None \<Rightarrow> [] | Some k \<Rightarrow> [(bl_user_id (chk_balance locks), key_text k, o_id order)])"
    using record_key_Inr(1) [OF k [unfolded fresh]] by blast
  obtain n row where s': "s' = t\<lparr>uuid_pos := n, events_outbox := events_outbox t @ [row]\<rparr>"
    and row: "ke_data (ob_payload row) = order_created_event order"
    "ob_topic row = es_topic (event_spec_of (order_created_event order))" "ob_published_at row = None"
    using ev by (rule insert_domain_event_Inr)
  show thesis
  proof (rule that [OF o _ ks row(1) _ row(3)])
    show "s' = s\<lparr>uuid_pos := n, idempotency := idempotency s @ ks, events_outbox := events_outbox s @ [row]\<rparr>"
      by (simp add: s' t)
    show "ob_topic row = orders_created" by (simp add: row(2) order_created_event_def order_created_spec_def)
  qed
qed

lemma apply_deltas_step:
  assumes "for_tx (\<lambda>ld. apply_delta_tx lock ld now) ds s = Inr (bs, s')"
  obtains us n rows where "s' = s\<lparr>users := us, uuid_pos := n, point_ledger := point_ledger s @ rows\<rparr>"
    "list_all2 (row_of_delta (bl_user_id lock) now) ds rows"
    "\<And>k. user_balance s' k = (if k = bl_user_id lock
      then map_option (\<lambda>b. b + sum_list (map ld_delta ds)) (user_balance s k) else user_balance s k)"
proof -
  obtain us n rows where "s' = s\<lparr>users := us, uuid_pos := n, point_ledger := point_ledger s @ rows\<rparr>"
    and "list_all2 (row_of_delta (bl_user_id lock) now) ds rows"
    using apply_deltas_Inr [OF assms] by blast
  then show thesis by (rule that) (rule balance_step [OF assms])
qed

lemma grants_step:
  assumes "\<And>k p. reserved k = Some p \<Longrightarrow> p_id p = k"
    and "for_tx (grant_line buyer reserved oid now) fs s = Inr (rs, s')"
  obtains n subs where "s' = s\<lparr>uuid_pos := n, subscriptions := subscriptions s @ subs\<rparr>"
    "\<forall>r \<in> set subs. granted_row (bl_user_id buyer) oid now r"
    "map s_product_id subs = granted_for reserved fs"
  using grant_lines_Inr [OF assms(1) assms(2)] by blast

text \<open>The rows of a purchase are the ones its cart, price and fulfilment plan call for.\<close>

definition purchase_matches ::
  "uuid \<Rightarrow> idempotency_key option \<Rightarrow> string \<Rightarrow> instant \<Rightarrow> purchasable_cart \<Rightarrow>
    pricing_outcome \<Rightarrow> (uuid \<Rightarrow> product option) \<Rightarrow> purchase \<Rightarrow> bool" where
  "purchase_matches uid key pay now cart pr reserved w \<longleftrightarrow>
    o_user_id (pu_order w) = uid \<and> o_status (pu_order w) = OS_Paid \<and>
    o_total_cents (pu_order w) = po_total_cents pr \<and> o_discount_cents (pu_order w) = po_discount_cents pr \<and>
    o_points_used (pu_order w) = po_points_used pr \<and> o_points_earned (pu_order w) = po_points_earned pr \<and>
    o_coupon_code (pu_order w) = po_applied_coupon_code pr \<and> o_payment_method (pu_order w) = Some pay \<and>
    o_paid_at (pu_order w) = Some now \<and> o_created_at (pu_order w) = now \<and>
    list_all2 (item_of_line (o_id (pu_order w)) now) (order_lines cart reserved) (pu_items w) \<and>
    list_all2 (row_of_delta uid now) (ledger_deltas pr (o_id (pu_order w))) (pu_ledger w) \<and>
    mset (map e_course_id (pu_enrolments w)) = mset (fp_course_ids (plan cart)) \<and>
    distinct (fp_course_ids (plan cart)) \<and>
    (\<forall>e \<in> set (pu_enrolments w). enrolled_row uid (o_id (pu_order w)) now e) \<and>
    (\<forall>r \<in> set (pu_subscriptions w). granted_row uid (o_id (pu_order w)) now r) \<and>
    map s_product_id (pu_subscriptions w) = granted_for reserved (fp_products (plan cart)) \<and>
    map (\<lambda>r. (ik_user_id r, ik_key r, ik_order_id r)) (pu_keys w) =
      (case key of None \<Rightarrow> [] | Some k \<Rightarrow> [(uid, key_text k, o_id (pu_order w))]) \<and>
    ke_data (ob_payload (pu_event w)) = order_created_event (pu_order w) \<and>
    ob_topic (pu_event w) = orders_created \<and> ob_published_at (pu_event w) = None"

lemma write_artifacts_Inr:
  assumes ok: "course_locks_ok (chk_courses locks)" "\<And>k p. reserved k = Some p \<Longrightarrow> p_id p = k"
    and run: "write_artifacts locks pr fplan reserved oid now s = Inr (u, s')"
  obtains us n rows es subs where
    "s' = s\<lparr>users := us, uuid_pos := n, point_ledger := point_ledger s @ rows, enrolments := enrolments s @ es,
      subscriptions := subscriptions s @ subs,
      cart_items := delete_where (\<lambda>i. ci_user_id i = bl_user_id (chk_balance locks)) (cart_items s)\<rparr>"
    "list_all2 (row_of_delta (bl_user_id (chk_balance locks)) now) (ledger_deltas pr oid) rows"
    "\<And>k. user_balance s' k = (if k = bl_user_id (chk_balance locks)
      then map_option (\<lambda>b. b + sum_list (map ld_delta (ledger_deltas pr oid))) (user_balance s k)
      else user_balance s k)"
    "mset (map e_course_id es) = mset (fp_course_ids fplan)" "distinct (fp_course_ids fplan)"
    "\<forall>e \<in> set es. enrolled_row (bl_user_id (chk_balance locks)) oid now e"
    "\<And>cid. cid \<in> set (fp_course_ids fplan) \<Longrightarrow>
      \<exists>c. course_by_id cid s = Some c \<and> active_count cid s' \<le> c_max_students c"
    "\<forall>r \<in> set subs. granted_row (bl_user_id (chk_balance locks)) oid now r"
    "map s_product_id subs = granted_for reserved (fp_products fplan)"
proof -
  let ?b = "chk_balance locks"
  obtain bs t1 es t2 rs t3 where
    d: "for_tx (\<lambda>ld. apply_delta_tx ?b ld now) (ledger_deltas pr oid) s = Inr (bs, t1)" and
    e: "enrol_batch_from_purchase_tx (chk_courses locks) ?b (fp_course_ids fplan) oid now t1 = Inr (es, t2)" and
    g: "for_tx (grant_line ?b reserved oid now) (fp_products fplan) t2 = Inr (rs, t3)" and
    c: "clear_cart_tx ?b t3 = Inr (u, s')"
    using run by (auto simp: write_artifacts_def bind_tx_Inr)
  obtain us n rows where t1: "t1 = s\<lparr>users := us, uuid_pos := n, point_ledger := point_ledger s @ rows\<rparr>"
    and rows: "list_all2 (row_of_delta (bl_user_id ?b) now) (ledger_deltas pr oid) rows"
    and bal: "\<And>k. user_balance t1 k = (if k = bl_user_id ?b
      then map_option (\<lambda>b. b + sum_list (map ld_delta (ledger_deltas pr oid))) (user_balance s k)
      else user_balance s k)"
    using d by (rule apply_deltas_step) blast
  obtain n2 where t2: "t2 = t1\<lparr>uuid_pos := n2, enrolments := enrolments t1 @ es\<rparr>"
    and es: "mset (map e_course_id es) = mset (fp_course_ids fplan)" "distinct (fp_course_ids fplan)"
    "\<forall>e \<in> set es. enrolled_row (bl_user_id ?b) oid now e"
    and seats: "\<And>cid. cid \<in> set (fp_course_ids fplan) \<Longrightarrow>
      \<exists>c. course_by_id cid t1 = Some c \<and> active_count cid t2 \<le> c_max_students c"
    using ok(1) e by (rule enrol_step) blast
  obtain n3 subs where t3: "t3 = t2\<lparr>uuid_pos := n3, subscriptions := subscriptions t2 @ subs\<rparr>"
    and subs: "\<forall>r \<in> set subs. granted_row (bl_user_id ?b) oid now r"
    "map s_product_id subs = granted_for reserved (fp_products fplan)"
    using ok(2) g by (rule grants_step) blast
  have s': "s' = t3\<lparr>cart_items := delete_where (\<lambda>i. ci_user_id i = bl_user_id ?b) (cart_items t3)\<rparr>"
    using c by (simp add: clear_cart_tx_def clear_cart_rows_def)
  show thesis
  proof (rule that [OF _ rows _ es(1,2,3) _ subs])
    show "s' = s\<lparr>users := us, uuid_pos := n3, point_ledger := point_ledger s @ rows,
      enrolments := enrolments s @ es, subscriptions := subscriptions s @ subs,
      cart_items := delete_where (\<lambda>i. ci_user_id i = bl_user_id ?b) (cart_items s)\<rparr>"
      by (simp add: s' t3 t2 t1)
    have "user_balance s' k = user_balance t1 k" for k
      by (simp add: s' t3 t2 user_balance_def user_by_id_def)
    then show "user_balance s' k = (if k = bl_user_id ?b
      then map_option (\<lambda>b. b + sum_list (map ld_delta (ledger_deltas pr oid))) (user_balance s k)
      else user_balance s k)" for k unfolding bal .
    show "\<exists>c. course_by_id cid s = Some c \<and> active_count cid s' \<le> c_max_students c"
      if "cid \<in> set (fp_course_ids fplan)" for cid
    proof -
      have "active_count cid s' = active_count cid t2" by (simp add: s' t3 active_count_def active_enrolments_def)
      moreover have "course_by_id cid t1 = course_by_id cid s" by (simp add: t1 course_by_id_def)
      ultimately show ?thesis using seats [OF that] by simp
    qed
  qed
qed

lemma place_order_Placed:
  assumes ok: "stock_ok s" "course_locks_ok (chk_courses locks)"
    and run: "place_order ymd locks cart intent key cid at s = Inr (Placed order, s')"
  obtains coupon pr reserved w where
    "case coupon of None \<Rightarrow> True | Some x \<Rightarrow> x \<in> set (coupons s)"
    "price cart coupon (bl_balance (chk_balance locks)) (int_use_points intent) = Inr pr"
    "s' = write_purchase (bl_user_id (chk_balance locks)) w s" "pu_order w = order"
    "purchase_matches (bl_user_id (chk_balance locks)) key (int_payment_method intent) (sn_now at) cart pr reserved w"
    "0 \<le> po_points_used pr" "0 \<le> po_points_earned pr"
    "\<And>pid. stock_of s' pid =
      map_option (map_option (\<lambda>n. n - line_sum pid (quantities (lines_to_reserve (plan cart))))) (stock_of s pid)"
    "stock_ok s'" "\<And>pid. but_stock s' pid = but_stock s pid"
    "dom reserved = fst ` set (lines_to_reserve (plan cart))"
    "\<And>pid p. reserved pid = Some p \<Longrightarrow> product_by_id pid s' = Some p"
    "\<And>k. user_balance s' k = (if k = bl_user_id (chk_balance locks)
      then map_option (\<lambda>b. b + sum_list (map ld_delta (ledger_deltas pr (o_id order)))) (user_balance s k)
      else user_balance s k)"
    "\<And>cid. cid \<in> set (fp_course_ids (plan cart)) \<Longrightarrow>
      \<exists>c. course_by_id cid s = Some c \<and> active_count cid s' \<le> c_max_students c"
    "o_id order \<notin> o_id ` set (orders s)" "o_order_number order \<notin> o_order_number ` set (orders s)"
proof -
  let ?b = "chk_balance locks" and ?now = "sn_now at" and ?fp = "plan cart"
  obtain coupon t0 pr reserved t1 number t2 ord t3 items t4 u t5 where
    c: "load_coupon (int_coupon_code intent) ?now s = Inr (coupon, t0)" and
    p: "price cart coupon (bl_balance ?b) (int_use_points intent) = Inr pr" and
    r: "reserve_stock_tx (chk_products locks) (lines_to_reserve ?fp) t0 = Inr (reserved, t1)" and
    n: "fresh_order_number ymd at t1 = Inr (number, t2)" and
    o: "create_order (checkout_order ?b number pr intent ?now) t2 = Inr (ord, t3)" and
    i: "create_order_items (o_id ord) (order_lines cart reserved) ?now t3 = Inr (items, t4)" and
    a: "write_artifacts locks pr ?fp reserved (o_id ord) ?now t4 = Inr (u, t5)" and
    f: "finish_order locks key ord cid t5 = Inr (Placed order, s')"
    using run by (auto simp: place_order_def bind_tx_Inr)
  have t0: "t0 = s" and coup: "case coupon of None \<Rightarrow> True | Some x \<Rightarrow> x \<in> set (coupons s)"
    using load_coupon_Inr [OF c] by blast+
  obtain P where t1: "t1 = s\<lparr>products := P\<rparr>" and stok: "stock_ok t1"
    and stock: "\<And>pid. stock_of t1 pid = map_option (map_option (\<lambda>n. n -
        line_sum pid (quantities (lines_to_reserve ?fp)))) (stock_of s pid)"
    and but: "\<And>pid. but_stock t1 pid = but_stock s pid"
    and dom: "dom reserved = fst ` set (lines_to_reserve ?fp)"
    and res: "\<And>pid q. reserved pid = Some q \<Longrightarrow> product_by_id pid t1 = Some q"
    using ok(1) r [unfolded t0] by (rule reserve_step) blast
  have pid: "p_id q = k" if "reserved k = Some q" for k q
    using res [OF that] by (auto simp: product_by_id_def dest: fetch_by_Some)
  have t2: "t2 = t1\<lparr>uuid_pos := uuid_pos t1 + 1\<rparr>" using n by (simp add: fresh_order_number_Inr)
  note ord = o [unfolded create_order_Inr]
  have t3: "t3 = t2\<lparr>uuid_pos := uuid_pos t2 + 1, orders := orders t2 @ [ord]\<rparr>" using ord by blast
  obtain m where t4: "t4 = t3\<lparr>uuid_pos := m, order_items := order_items t3 @ items\<rparr>"
    and its: "list_all2 (item_of_line (o_id ord) ?now) (order_lines cart reserved) items"
    using create_order_items_Inr [OF i] by blast
  obtain us k rows es subs where
    t5: "t5 = t4\<lparr>users := us, uuid_pos := k, point_ledger := point_ledger t4 @ rows,
      enrolments := enrolments t4 @ es, subscriptions := subscriptions t4 @ subs,
      cart_items := delete_where (\<lambda>i. ci_user_id i = bl_user_id ?b) (cart_items t4)\<rparr>" and
    rows: "list_all2 (row_of_delta (bl_user_id ?b) ?now) (ledger_deltas pr (o_id ord)) rows" and
    bal: "\<And>k. user_balance t5 k = (if k = bl_user_id ?b
      then map_option (\<lambda>b. b + sum_list (map ld_delta (ledger_deltas pr (o_id ord)))) (user_balance t4 k)
      else user_balance t4 k)" and
    es: "mset (map e_course_id es) = mset (fp_course_ids ?fp)" "distinct (fp_course_ids ?fp)"
      "\<forall>e \<in> set es. enrolled_row (bl_user_id ?b) (o_id ord) ?now e" and
    seats: "\<And>cid. cid \<in> set (fp_course_ids ?fp) \<Longrightarrow>
      \<exists>c. course_by_id cid t4 = Some c \<and> active_count cid t5 \<le> c_max_students c" and
    subs: "\<forall>r \<in> set subs. granted_row (bl_user_id ?b) (o_id ord) ?now r"
      "map s_product_id subs = granted_for reserved (fp_products ?fp)"
    by (rule write_artifacts_Inr [OF ok(2) _ a]) (erule pid, (rule that; assumption))
  obtain j ks ev where fo: "order = ord" and
    s': "s' = t5\<lparr>uuid_pos := j, idempotency := idempotency t5 @ ks, events_outbox := events_outbox t5 @ [ev]\<rparr>" and
    ks: "map (\<lambda>r. (ik_user_id r, ik_key r, ik_order_id r)) ks =
      (case key of None \<Rightarrow> [] | Some k \<Rightarrow> [(bl_user_id ?b, key_text k, o_id ord)])" and
    ev: "ke_data (ob_payload ev) = order_created_event ord" "ob_topic ev = orders_created" "ob_published_at ev = None"
    using f by (rule finish_order_Placed) blast
  define w where "w = \<lparr>pu_products = P, pu_users = us, pu_uuid_pos = j, pu_order = ord, pu_items = items,
    pu_ledger = rows, pu_enrolments = es, pu_subscriptions = subs, pu_keys = ks, pu_event = ev\<rparr>"
  have prods: "products s' = products t1" by (simp add: s' t5 t4 t3 t2)
  have same: "orders t2 = orders s" by (simp add: t2 t1)
  have fresh: "o_id ord \<notin> o_id ` set (orders t2)" "o_order_number ord \<notin> o_order_number ` set (orders t2)"
    using ord by blast+
  have amounts: "order_checks (no_amounts (checkout_order ?b number pr intent ?now)) = None" using ord by blast
  have fields: "o_user_id ord = bl_user_id ?b" "o_status ord = OS_Paid"
    "o_total_cents ord = po_total_cents pr" "o_discount_cents ord = po_discount_cents pr"
    "o_points_used ord = po_points_used pr" "o_points_earned ord = po_points_earned pr"
    "o_coupon_code ord = po_applied_coupon_code pr" "o_payment_method ord = Some (int_payment_method intent)"
    "o_paid_at ord = Some ?now" "o_created_at ord = ?now"
    using conjunct1 [OF ord] by (simp_all add: checkout_order_def)
  show thesis
  proof (rule that [OF coup p])
    show "s' = write_purchase (bl_user_id ?b) w s"
      by (simp add: write_purchase_def w_def s' t5 t4 t3 t2 t1)
    show "pu_order w = order" by (simp add: w_def fo)
    show "purchase_matches (bl_user_id ?b) key (int_payment_method intent) ?now cart pr reserved w"
      unfolding purchase_matches_def using its rows es subs(1)
      by (intro conjI) (simp_all add: w_def fields ks ev subs(2) split: option.split)
    show "0 \<le> po_points_used pr" "0 \<le> po_points_earned pr"
      using amounts by (simp_all add: order_checks_def checkout_order_def split: if_splits)
    show "stock_of s' pid = map_option (map_option (\<lambda>n. n -
        line_sum pid (quantities (lines_to_reserve ?fp)))) (stock_of s pid)" for pid
      using stock by (simp add: stock_of_def product_by_id_def prods)
    show "stock_ok s'" using stok by (simp add: stock_ok_def prods)
    show "but_stock s' pid = but_stock s pid" for pid
      using but by (simp add: but_stock_def product_by_id_def prods)
    show "dom reserved = fst ` set (lines_to_reserve ?fp)" by (rule dom)
    show "product_by_id pid s' = Some q" if "reserved pid = Some q" for pid q
      using res [OF that] by (simp add: product_by_id_def prods)
    show "user_balance s' k = (if k = bl_user_id ?b
      then map_option (\<lambda>b. b + sum_list (map ld_delta (ledger_deltas pr (o_id order)))) (user_balance s k)
      else user_balance s k)" for k
    proof -
      have "user_balance s' k = user_balance t5 k" "user_balance t4 = user_balance s"
        by (simp_all add: fun_eq_iff s' t4 t3 t2 t1 user_balance_def user_by_id_def)
      then show ?thesis by (simp only: bal fo)
    qed
    show "\<exists>c. course_by_id cid s = Some c \<and> active_count cid s' \<le> c_max_students c"
      if "cid \<in> set (fp_course_ids ?fp)" for cid
    proof -
      have "active_count cid s' = active_count cid t5" by (simp add: s' active_count_def active_enrolments_def)
      moreover have "course_by_id cid t4 = course_by_id cid s" by (simp add: t4 t3 t2 t1 course_by_id_def)
      ultimately show ?thesis using seats [OF that] by simp
    qed
    show "o_id order \<notin> o_id ` set (orders s)" "o_order_number order \<notin> o_order_number ` set (orders s)"
      using fresh unfolding fo same by blast+
  qed
qed

end
