(* ===== verification/Purchase.thy ===== *)
theory Purchase
  imports Checkout
begin

text \<open>
  What a checkout (\<open>checkout\<close> of \<open>src/modules/orders/service.rs\<close>) guarantees as a whole: what it
  charges, what it fulfils, that it is all or nothing, and that a key buys at most once.
\<close>

section \<open>Properties\<close>

text \<open>
  The CHECK constraints of the tables a checkout reads: prices and quantities are not negative, a
  coupon takes something off, a finite stock and a balance are 32- and 64-bit and not negative.
\<close>

definition shop_ok :: "db \<Rightarrow> bool" where
  "shop_ok s = (stock_ok s \<and> (\<forall>p \<in> set (products s). 0 \<le> p_price_cents p) \<and>
    (\<forall>c \<in> set (courses s). 0 \<le> c_price_cents c) \<and> (\<forall>i \<in> set (cart_items s). 0 \<le> ci_quantity i) \<and>
    (\<forall>c \<in> set (coupons s). 0 < co_discount_cents c) \<and>
    (\<forall>u \<in> set (users s). 0 \<le> u_points_balance u \<and> in_i64 (u_points_balance u)))"

lemma checkout_lines_admitted:
  assumes "shop_ok s" "l \<in> set (checkout_lines uid s)" shows "line_admitted l"
proof -
  have "0 \<le> p_price_cents p" if "product_by_id k s = Some p" for k p
    using that assms(1) by (auto simp: product_by_id_def shop_ok_def dest: fetch_by_Some)
  moreover have "0 \<le> c_price_cents c" if "course_by_id k s = Some c" for k c
    using that assms(1) by (auto simp: course_by_id_def shop_ok_def dest: fetch_by_Some)
  moreover have "0 \<le> ci_quantity i" if "i \<in> set (user_cart uid s)" for i
    using that assms(1) by (auto simp: user_cart_def shop_ok_def)
  ultimately show ?thesis using assms(2)
    by (auto simp: checkout_lines_def List.map_filter_def product_line_def course_line_def line_admitted_def
        split: line_target.splits)
qed

lemma sum_rows_of_deltas:
  "list_all2 (row_of_delta uid at) ds rows \<Longrightarrow>
    sum_where (\<lambda>r. l_user_id r = k) l_delta rows = (if k = uid then sum_list (map ld_delta ds) else 0)"
  by (induction rule: list_all2_induct) (auto simp: row_of_delta_def sum_where_def)

lemma checkout_transaction_Placed:
  assumes "checkout_transaction ymd uid key intent cid at s = Inr (Placed order, s')"
  obtains locks where "acquire_checkout_locks uid s = Inr (locks, s)" "checkout_lines uid s \<noteq> []"
    "\<forall>l \<in> set (checkout_lines uid s). cl_is_active l"
    "place_order ymd locks (PurchasableCart (checkout_lines uid s)) intent key cid at s = Inr (Placed order, s')"
proof -
  obtain locks t where l: "acquire_checkout_locks uid s = Inr (locks, t)"
    and rest: "bind_tx (find_cart_items_for_checkout_tx (chk_balance locks)) (\<lambda>items.
      if items = [] then return_tx (Released (chk_balance locks) (BadRequest ''cart is empty''))
      else bind_tx (of_result_tx (ensure_all_purchasable items)) (\<lambda>cart.
        place_order ymd locks cart intent key cid at)) t = Inr (Placed order, s')"
    using assms by (auto simp: checkout_transaction_def bind_tx_Inr)
  have t: "t = s" and uid: "bl_user_id (chk_balance locks) = uid"
    using acquire_checkout_locks_Inr [OF l] by blast+
  show thesis
    using that [OF l [unfolded t]] rest
    by (auto simp: t uid bind_tx_Inr find_cart_items_for_checkout_tx_def
        find_cart_items_for_checkout_rows_def ensure_all_purchasable_Inr split: if_splits)
qed

lemma placed_price:
  assumes shop: "shop_ok s" and l: "acquire_checkout_locks uid s = Inr (locks, s)"
    and coup: "case coupon of None \<Rightarrow> True | Some x \<Rightarrow> x \<in> set (coupons s)"
    and pr: "price (PurchasableCart (checkout_lines uid s)) coupon (bl_balance (chk_balance locks)) use = Inr pr"
  shows "0 \<le> po_subtotal_cents pr" "0 \<le> po_discount_cents pr" "po_discount_cents pr \<le> po_subtotal_cents pr"
    "0 \<le> po_points_used pr" "po_points_used pr \<le> bl_balance (chk_balance locks)" "0 \<le> po_total_cents pr"
    "0 \<le> po_points_earned pr" "in_i64 (po_points_earned pr)" "in_i64 (po_points_used pr)"
    "po_total_cents pr = po_subtotal_cents pr - po_discount_cents pr - 100 * po_points_used pr"
    "po_discount_cents pr = coupon_discount coupon (subtotal_of (checkout_lines uid s))"
    "po_subtotal_cents pr = subtotal_of (checkout_lines uid s)"
proof -
  let ?cart = "PurchasableCart (checkout_lines uid s)" and ?b = "bl_balance (chk_balance locks)"
  have b: "0 \<le> ?b" "in_i64 ?b"
    using acquire_checkout_locks_Inr(3) [OF l] shop
    by (auto simp: user_balance_def user_by_id_def shop_ok_def dest!: fetch_by_Some)
  have admitted: "\<forall>l \<in> set (lines_of ?cart). line_admitted l" "coupon_admitted coupon"
    using checkout_lines_admitted [OF shop] coup shop
    by (auto simp: coupon_admitted_def shop_ok_def split: option.splits)
  note pb = price_bounds [OF admitted b pr]
  show "0 \<le> po_subtotal_cents pr" "0 \<le> po_discount_cents pr" "po_discount_cents pr \<le> po_subtotal_cents pr"
    "0 \<le> po_points_used pr" "po_points_used pr \<le> ?b" "0 \<le> po_total_cents pr"
    "0 \<le> po_points_earned pr" "in_i64 (po_points_earned pr)" "in_i64 (po_points_used pr)"
    "po_total_cents pr = po_subtotal_cents pr - po_discount_cents pr - 100 * po_points_used pr"
    using pb by blast+
  show "po_discount_cents pr = coupon_discount coupon (subtotal_of (checkout_lines uid s))"
    "po_subtotal_cents pr = subtotal_of (checkout_lines uid s)"
    using pr price_exact_spec [OF admitted b, of use] by (auto simp: Let_def split: if_splits)
qed

text \<open>
  C1. A checkout charges exactly: a placed order is paid, its discount is the coupon's, clamped to the
  subtotal of the buyer's cart; its total is what the discount and the points leave of the subtotal and
  is never negative; the points used never exceed the balance; the buyer's balance moves by the points
  earned less the points used and nobody else's moves; the order's ledger rows sum to that same
  change, so the gap between balance and ledger stays what it was for everyone.
\<close>

theorem checkout_charges:
  assumes shop: "shop_ok s"
    and run: "checkout_transaction ymd uid key intent cid at s = Inr (Placed order, s')"
  shows "(\<exists>coupon b. user_balance s uid = Some b \<and>
      o_discount_cents order = coupon_discount coupon (subtotal_of (checkout_lines uid s)) \<and>
      (case coupon of None \<Rightarrow> True | Some c \<Rightarrow> c \<in> set (coupons s)) \<and>
      o_total_cents order = subtotal_of (checkout_lines uid s) - o_discount_cents order - 100 * o_points_used order \<and>
      0 \<le> o_total_cents order \<and> 0 \<le> o_points_used order \<and> o_points_used order \<le> b \<and>
      user_balance s' uid = Some (b - o_points_used order + o_points_earned order)) \<and>
    (\<forall>k. k \<noteq> uid \<longrightarrow> user_balance s' k = user_balance s k) \<and>
    (\<forall>k. ledger_gap s' k = ledger_gap s k) \<and>
    o_status order = OS_Paid \<and> o_user_id order = uid \<and> orders s' = orders s @ [order]"
proof -
  let ?cart = "PurchasableCart (checkout_lines uid s)"
  obtain locks where l: "acquire_checkout_locks uid s = Inr (locks, s)"
    and p: "place_order ymd locks ?cart intent key cid at s = Inr (Placed order, s')"
    using run by (rule checkout_transaction_Placed)
  note lk = acquire_checkout_locks_Inr [OF l]
  have stok: "stock_ok s" using shop by (simp add: shop_ok_def)
  let ?b = "bl_balance (chk_balance locks)"
  obtain coupon pr reserved w where
    coup: "case coupon of None \<Rightarrow> True | Some x \<Rightarrow> x \<in> set (coupons s)" and
    pr: "price ?cart coupon ?b (int_use_points intent) = Inr pr" and
    s': "s' = write_purchase (bl_user_id (chk_balance locks)) w s" and w: "pu_order w = order" and
    m: "purchase_matches (bl_user_id (chk_balance locks)) key (int_payment_method intent) (sn_now at) ?cart pr reserved w" and
    bal: "\<And>k. user_balance s' k = (if k = bl_user_id (chk_balance locks)
      then map_option (\<lambda>b. b + sum_list (map ld_delta (ledger_deltas pr (o_id order)))) (user_balance s k)
      else user_balance s k)"
    by (rule place_order_Placed [OF stok lk(5) p]) (rule that; assumption)
  note pb = placed_price [OF shop l coup pr]
  note disc = pb(11,12)
  have total: "sum_list (map ld_delta (ledger_deltas pr (o_id order))) = po_points_earned pr - po_points_used pr"
    using pb by (intro ledger_deltas_sum) simp_all
  have o: "o_total_cents order = po_total_cents pr" "o_discount_cents order = po_discount_cents pr"
    "o_points_used order = po_points_used pr" "o_points_earned order = po_points_earned pr"
    "o_status order = OS_Paid" "o_user_id order = uid"
    "list_all2 (row_of_delta uid (sn_now at)) (ledger_deltas pr (o_id order)) (pu_ledger w)"
    using m by (simp_all add: purchase_matches_def w lk(2))
  have "ledger_sum s' k = ledger_sum s k + (if k = uid then po_points_earned pr - po_points_used pr else 0)" for k
    using sum_rows_of_deltas [OF o(7), of k]
    by (simp add: ledger_sum_def s' write_purchase_def sum_where_def total)
  then have gap: "ledger_gap s' k = ledger_gap s k" for k
    by (auto simp: ledger_gap_def bal lk(2) total option.map_comp comp_def)
  have "user_balance s' uid = Some (?b - o_points_used order + o_points_earned order)"
    by (simp add: bal lk(2,3) total o)
  moreover have "\<forall>k. k \<noteq> uid \<longrightarrow> user_balance s' k = user_balance s k" by (simp add: bal lk(2))
  moreover have "orders s' = orders s @ [order]" by (simp add: s' write_purchase_def w)
  ultimately show ?thesis using lk(3) coup disc pb o gap by auto
qed

definition checkout_example :: db where
  "checkout_example = empty_db\<lparr>users := [member 11 30, member 12 5],
     products := [sample_product 22 50000 (Some 5)], courses := [sample_course 31 1],
     cart_items := [\<lparr>ci_id = 41, ci_user_id = 11, ci_target = TargetProduct 22, ci_quantity = 2, ci_created_at = 1\<rparr>,
       \<lparr>ci_id = 42, ci_user_id = 11, ci_target = TargetCourse 31, ci_quantity = 1, ci_created_at = 2\<rparr>,
       \<lparr>ci_id = 43, ci_user_id = 12, ci_target = TargetProduct 22, ci_quantity = 1, ci_created_at = 3\<rparr>],
     coupons := [\<lparr>co_id = 45, co_code = ''SPRING'', co_discount_cents = 150, co_is_active = True,
       co_expires_at = None, co_created_at = 0\<rparr>]\<rparr>"

definition checkout_run :: "app_error + (checkout_end \<times> db)" where
  "checkout_run = checkout_transaction (\<lambda>_. ''20240101'') 11 (Some (IdempotencyKey ''abc''))
     \<lparr>int_payment_method = ''atm'', int_coupon_code = Some ''spring'', int_use_points = True\<rparr> None
     \<lparr>sn_tz = taipei, sn_now = 99\<rparr> checkout_example"

definition places :: "app_error + (checkout_end \<times> db) \<Rightarrow> bool" where
  "places r = (case r of Inr (Placed _, _) \<Rightarrow> True | _ \<Rightarrow> False)"

lemma placesE: "places r \<Longrightarrow> (\<And>order s'. r = Inr (Placed order, s') \<Longrightarrow> P) \<Longrightarrow> P"
  by (auto simp: places_def split: sum.splits checkout_end.splits)

lemma checkout_example_ok: "shop_ok checkout_example" "places checkout_run"
  by code_simp+

lemma checkout_charges_witness:
  "\<exists>order s'. checkout_run = Inr (Placed order, s') \<and> o_status order = OS_Paid \<and>
    user_balance s' 12 = Some 5 \<and> orders s' = [order]"
proof -
  obtain order s' where run: "checkout_run = Inr (Placed order, s')"
    using checkout_example_ok(2) by (rule placesE)
  have "user_balance checkout_example 12 = Some 5" "orders checkout_example = []" by code_simp+
  then have "o_status order = OS_Paid \<and> user_balance s' 12 = Some 5 \<and> orders s' = [order]"
    using checkout_charges [OF checkout_example_ok(1) run [unfolded checkout_run_def]] by simp
  then show ?thesis using run by blast
qed

section \<open>Fulfilment\<close>

definition ordered :: "uuid \<Rightarrow> checkout_line list \<Rightarrow> int" where
  "ordered pid ls = sum_where (\<lambda>l. cl_target l = TargetProduct pid) cl_quantity ls"

lemma plan_facts:
  "fp_course_ids (plan (PurchasableCart ls)) = List.map_filter (\<lambda>l. course_id_of (cl_target l)) ls"
  "map pf_product_id (fp_products (plan (PurchasableCart ls))) = List.map_filter (\<lambda>l. product_id_of (cl_target l)) ls"
  "line_sum pid (quantities (lines_to_reserve (plan (PurchasableCart ls)))) = ordered pid ls"
proof -
  have t: "item_type_of t = CI_Product \<and> target_id t = pid \<longleftrightarrow> t = TargetProduct pid" for t
    by (cases t) simp_all
  show "fp_course_ids (plan (PurchasableCart ls)) = List.map_filter (\<lambda>l. course_id_of (cl_target l)) ls"
    unfolding plan_def plan_loop_spec by (induction ls) (simp_all add: map_filter_simps target_facts)
  show "map pf_product_id (fp_products (plan (PurchasableCart ls))) = List.map_filter (\<lambda>l. product_id_of (cl_target l)) ls"
    unfolding plan_def plan_loop_spec by (induction ls) (simp_all add: map_filter_simps target_facts)
  show "line_sum pid (quantities (lines_to_reserve (plan (PurchasableCart ls)))) = ordered pid ls"
    unfolding plan_def plan_loop_spec
    by (induction ls) (auto simp: lines_to_reserve_def quantities_def ordered_def sum_where_def t [symmetric])
qed

text \<open>A product counts as an entitlement by its type, which a reservation does not touch.\<close>

lemma granted_for_catalogue:
  assumes "\<And>pid. but_stock s' pid = but_stock s pid"
    and "\<And>pid p. reserved pid = Some p \<Longrightarrow> product_by_id pid s' = Some p"
    and "\<forall>f \<in> set fs. pf_product_id f \<in> dom reserved"
  shows "granted_for reserved fs =
    filter (\<lambda>pid. \<exists>p. product_by_id pid s = Some p \<and> is_entitlement p) (map pf_product_id fs)"
proof -
  have "(\<exists>p. reserved pid = Some p \<and> is_entitlement p) \<longleftrightarrow>
      (\<exists>p. product_by_id pid s = Some p \<and> is_entitlement p)" if d: "pid \<in> dom reserved" for pid
  proof -
    obtain p where p: "reserved pid = Some p" using d by blast
    then obtain p' where p': "product_by_id pid s = Some p'" and eq: "p\<lparr>p_stock := None\<rparr> = p'\<lparr>p_stock := None\<rparr>"
      using assms(1) [of pid] assms(2) [OF p] by (cases "product_by_id pid s") (simp_all add: but_stock_def)
    have "p_product_type p = p_product_type p'" using arg_cong [OF eq, of p_product_type] by simp
    then show ?thesis using p p' by (simp add: is_entitlement_def)
  qed
  then show ?thesis using assms(3) by (auto simp: granted_for_def filter_map comp_def intro!: arg_cong [of _ _ "map _"] filter_cong)
qed

lemma items_of_lines:
  "list_all2 (item_of_line oid at) (order_lines (PurchasableCart ls) reserved) items \<Longrightarrow>
    map (\<lambda>r. (oi_item_type r, oi_product_id r, oi_course_id r, oi_quantity r, oi_unit_price_cents r, oi_name r)) items =
    map (\<lambda>l. (item_type_of (cl_target l), product_id_of (cl_target l), course_id_of (cl_target l),
      cl_quantity l, cl_price_cents l, cl_name l)) ls \<and>
    (\<forall>r \<in> set items. oi_order_id r = oid)"
proof (induction ls arbitrary: items)
  case (Cons l ls)
  then obtain r rs where "items = r # rs" by (auto simp: order_lines_def list_all2_Cons1)
  then show ?case using Cons by (auto simp: order_lines_def item_of_line_def order_line_of_def)
qed (simp add: order_lines_def)

lemma emptied_cart: "checkout_lines uid (write_purchase uid w s) = []"
proof -
  have "user_cart uid (write_purchase uid w s) = []"
    by (simp add: user_cart_def write_purchase_def delete_where_def filter_empty_conv)
  then show ?thesis by (simp add: checkout_lines_def map_filter_simps)
qed

text \<open>
  C2. A checkout fulfils what it sold: the cart was not empty and every line was on sale; each product
  with finite stock ends with its stock less the ordered quantity and never negative; the buyer is
  enrolled once in each course of the cart, within the course's capacity; a subscription is granted
  for exactly the lines whose product is a membership or ticket; the order's items are the cart's
  lines with type, quantity, price and name; the buyer's cart is empty afterwards and nobody else's
  is touched; and the order's event is queued, unpublished.
\<close>

theorem checkout_fulfils:
  assumes shop: "stock_ok s"
    and run: "checkout_transaction ymd uid key intent cid at s = Inr (Placed order, s')"
  shows "checkout_lines uid s \<noteq> [] \<and> list_all cl_is_active (checkout_lines uid s) \<and>
    (\<forall>pid. stock_of s' pid =
      map_option (map_option (\<lambda>n. n - ordered pid (checkout_lines uid s))) (stock_of s pid)) \<and> stock_ok s' \<and>
    (\<exists>es. enrolments s' = enrolments s @ es \<and> list_all (enrolled_row uid (o_id order) (sn_now at)) es \<and>
      mset (map e_course_id es) = mset (List.map_filter (\<lambda>l. course_id_of (cl_target l)) (checkout_lines uid s))) \<and>
    list_all (\<lambda>cid. \<exists>c. course_by_id cid s = Some c \<and> active_count cid s' \<le> c_max_students c)
      (List.map_filter (\<lambda>l. course_id_of (cl_target l)) (checkout_lines uid s)) \<and>
    (\<exists>subs. subscriptions s' = subscriptions s @ subs \<and> list_all (granted_row uid (o_id order) (sn_now at)) subs \<and>
      map s_product_id subs = filter (\<lambda>pid. \<exists>p. product_by_id pid s = Some p \<and> is_entitlement p)
        (List.map_filter (\<lambda>l. product_id_of (cl_target l)) (checkout_lines uid s))) \<and>
    (\<exists>items. order_items s' = order_items s @ items \<and> list_all (\<lambda>r. oi_order_id r = o_id order) items \<and>
      map (\<lambda>r. (oi_item_type r, oi_product_id r, oi_course_id r, oi_quantity r, oi_unit_price_cents r, oi_name r)) items =
      map (\<lambda>l. (item_type_of (cl_target l), product_id_of (cl_target l), course_id_of (cl_target l),
        cl_quantity l, cl_price_cents l, cl_name l)) (checkout_lines uid s)) \<and>
    cart_items s' = filter (\<lambda>i. ci_user_id i \<noteq> uid) (cart_items s) \<and> checkout_lines uid s' = [] \<and>
    (\<exists>ev. events_outbox s' = events_outbox s @ [ev] \<and> ke_data (ob_payload ev) = order_created_event order \<and>
      ob_topic ev = orders_created \<and> ob_published_at ev = None)"
proof -
  let ?ls = "checkout_lines uid s"
  let ?fp = "plan (PurchasableCart ?ls)"
  obtain locks where l: "acquire_checkout_locks uid s = Inr (locks, s)" and ne: "?ls \<noteq> []"
    and act: "\<forall>l \<in> set ?ls. cl_is_active l"
    and p: "place_order ymd locks (PurchasableCart ?ls) intent key cid at s = Inr (Placed order, s')"
    using run by (rule checkout_transaction_Placed)
  note lk = acquire_checkout_locks_Inr [OF l]
  obtain pr reserved w where
    s': "s' = write_purchase (bl_user_id (chk_balance locks)) w s" and w: "pu_order w = order" and
    m: "purchase_matches (bl_user_id (chk_balance locks)) key (int_payment_method intent) (sn_now at)
      (PurchasableCart ?ls) pr reserved w" and
    stock: "\<And>pid. stock_of s' pid = map_option (map_option (\<lambda>n. n -
      line_sum pid (quantities (lines_to_reserve ?fp)))) (stock_of s pid)" "stock_ok s'" and
    but: "\<And>pid. but_stock s' pid = but_stock s pid" and
    dom: "dom reserved = fst ` set (lines_to_reserve ?fp)" and
    res: "\<And>pid p. reserved pid = Some p \<Longrightarrow> product_by_id pid s' = Some p" and
    seats: "\<And>cid. cid \<in> set (fp_course_ids ?fp) \<Longrightarrow>
      \<exists>c. course_by_id cid s = Some c \<and> active_count cid s' \<le> c_max_students c"
    by (rule place_order_Placed [OF shop lk(5) p]) (rule that; assumption)
  have "\<forall>f \<in> set (fp_products ?fp). pf_product_id f \<in> dom reserved"
    by (auto simp: dom lines_to_reserve_def image_image)
  from granted_for_catalogue [OF but res this]
  have granted: "map s_product_id (pu_subscriptions w) = filter (\<lambda>pid. \<exists>p. product_by_id pid s = Some p \<and> is_entitlement p)
      (List.map_filter (\<lambda>l. product_id_of (cl_target l)) ?ls)"
    using m by (simp add: purchase_matches_def plan_facts)
  note mm = m [unfolded purchase_matches_def w lk(2) plan_facts]
  have new: "enrolments s' = enrolments s @ pu_enrolments w" "subscriptions s' = subscriptions s @ pu_subscriptions w"
    "order_items s' = order_items s @ pu_items w" "events_outbox s' = events_outbox s @ [pu_event w]"
    "cart_items s' = filter (\<lambda>i. ci_user_id i \<noteq> uid) (cart_items s)"
    by (simp_all add: s' write_purchase_def lk(2) delete_where_def)
  have es: "list_all (enrolled_row uid (o_id order) (sn_now at)) (pu_enrolments w)"
    "mset (map e_course_id (pu_enrolments w)) = mset (List.map_filter (\<lambda>l. course_id_of (cl_target l)) ?ls)"
    "list_all (granted_row uid (o_id order) (sn_now at)) (pu_subscriptions w)"
    using mm by (simp_all add: list_all_iff)
  have seat: "list_all (\<lambda>cid. \<exists>c. course_by_id cid s = Some c \<and> active_count cid s' \<le> c_max_students c)
      (List.map_filter (\<lambda>l. course_id_of (cl_target l)) ?ls)"
    using seats by (simp add: plan_facts list_all_iff)
  have items: "list_all (\<lambda>r. oi_order_id r = o_id order) (pu_items w)"
    "map (\<lambda>r. (oi_item_type r, oi_product_id r, oi_course_id r, oi_quantity r, oi_unit_price_cents r, oi_name r)) (pu_items w) =
      map (\<lambda>l. (item_type_of (cl_target l), product_id_of (cl_target l), course_id_of (cl_target l),
        cl_quantity l, cl_price_cents l, cl_name l)) ?ls"
    using items_of_lines [of "o_id order" "sn_now at" ?ls reserved "pu_items w"] mm by (simp_all add: list_all_iff)
  have ev: "ke_data (ob_payload (pu_event w)) = order_created_event order"
    "ob_topic (pu_event w) = orders_created" "ob_published_at (pu_event w) = None"
    using mm by simp_all
  have empty: "checkout_lines uid s' = []" unfolding s' lk(2) by (rule emptied_cart)
  show ?thesis
  proof (intro conjI)
    show "\<forall>pid. stock_of s' pid = map_option (map_option (\<lambda>n. n - ordered pid ?ls)) (stock_of s pid)"
      using stock(1) by (simp add: plan_facts)
  qed (use ne act stock(2) new es granted seat items ev empty in \<open>auto simp: list_all_iff\<close>)
qed

lemma checkout_fulfils_witness:
  "\<exists>order s'. checkout_run = Inr (Placed order, s') \<and> stock_of s' 22 = Some (Some 3) \<and>
    mset (map e_course_id (enrolments s')) = {#31#} \<and> subscriptions s' = [] \<and> length (cart_items s') = 1"
proof -
  obtain order s' where run: "checkout_run = Inr (Placed order, s')"
    using checkout_example_ok(2) by (rule placesE)
  have ok: "stock_ok checkout_example" using checkout_example_ok(1) by (simp add: shop_ok_def)
  note f = checkout_fulfils [OF ok run [unfolded checkout_run_def]]
  have "stock_of checkout_example 22 = Some (Some 5)" "ordered 22 (checkout_lines 11 checkout_example) = 2"
    "List.map_filter (\<lambda>l. course_id_of (cl_target l)) (checkout_lines 11 checkout_example) = [31]"
    "filter (\<lambda>pid. case product_by_id pid checkout_example of None \<Rightarrow> False | Some p \<Rightarrow> is_entitlement p)
      (List.map_filter (\<lambda>l. product_id_of (cl_target l)) (checkout_lines 11 checkout_example)) = []"
    "enrolments checkout_example = []" "subscriptions checkout_example = []"
    "length (filter (\<lambda>i. ci_user_id i \<noteq> 11) (cart_items checkout_example)) = 1"
    by code_simp+
  moreover have "(case product_by_id pid checkout_example of None \<Rightarrow> False | Some p \<Rightarrow> is_entitlement p) =
      (\<exists>p. product_by_id pid checkout_example = Some p \<and> is_entitlement p)" for pid
    by (simp split: option.split)
  ultimately have "stock_of s' 22 = Some (Some 3) \<and> mset (map e_course_id (enrolments s')) = {#31#} \<and>
      subscriptions s' = [] \<and> length (cart_items s') = 1"
    using f by auto
  then show ?thesis using run by auto
qed

section \<open>One purchase per key\<close>

lemma assemble_response_reads: "assemble_response r s = Inr (x, s') \<Longrightarrow> s' = s"
  by (auto simp: assemble_response_def bind_tx_Inr find_items_by_order_def fetch_artifacts_def
      list_enrolments_by_order_def list_subscriptions_by_order_def find_enrolments_by_order_def
      find_subscriptions_by_order_def)

lemma replay_by_key_reads: "replay_by_key uid k s = Inr (x, s') \<Longrightarrow> s' = s"
  by (auto simp: replay_by_key_def bind_tx_Inr find_idempotency_def find_order_by_id_def
      dest: assemble_response_reads split: option.splits)

lemma checkout_keyed:
  "checkout ymd uid (Some k) req cid at s =
    (case replay_by_key uid (key_text k) s of
       Inl e \<Rightarrow> (Inl e, s)
     | Inr (Some response, _) \<Rightarrow> (Inr response, s)
     | Inr (None, _) \<Rightarrow>
         (case parse_request req of
            Inl e \<Rightarrow> (Inl e, s)
          | Inr intent \<Rightarrow> run_checkout ymd uid (Some k) intent cid at s))"
  by (simp add: checkout_def replay_def)

text \<open>After a placed order the key leads to it: the replay's reads find the row and the order.\<close>

lemma placed_replays:
  assumes "stock_ok s" "replay_by_key uid (key_text k) s = Inr (None, s)"
    and run: "checkout_transaction ymd uid (Some k) intent cid at s = Inr (Placed order, s')"
  shows "replay_by_key uid (key_text k) (deliver n s') =
    bind_tx (assemble_response order) (\<lambda>r. return_tx (Some r)) (deliver n s')"
proof -
  obtain locks where l: "acquire_checkout_locks uid s = Inr (locks, s)"
    and p: "place_order ymd locks (PurchasableCart (checkout_lines uid s)) intent (Some k) cid at s = Inr (Placed order, s')"
    using run by (rule checkout_transaction_Placed)
  note lk = acquire_checkout_locks_Inr [OF l]
  obtain w pr reserved where s': "s' = write_purchase (bl_user_id (chk_balance locks)) w s" and w: "pu_order w = order" and
    m: "purchase_matches (bl_user_id (chk_balance locks)) (Some k) (int_payment_method intent) (sn_now at)
      (PurchasableCart (checkout_lines uid s)) pr reserved w" and
    fresh: "o_id order \<notin> o_id ` set (orders s)"
    by (rule place_order_Placed [OF assms(1) lk(5) p]) (rule that; assumption)
  obtain row where keys: "pu_keys w = [row]" and row: "ik_user_id row = uid" "ik_key row = key_text k"
    "ik_order_id row = o_id order"
    using m by (auto simp: purchase_matches_def w lk(2))
  have none: "fetch_by (\<lambda>r. ik_user_id r = uid \<and> ik_key r = key_text k) (idempotency s) = None"
    using assms(2) by (auto simp: replay_by_key_def bind_tx_Inr find_idempotency_def split: option.splits)
  have f: "find_idempotency uid (key_text k) (deliver n s') = Inr (Some (o_id order), deliver n s')"
    using none row by (simp add: find_idempotency_def s' write_purchase_def keys)
  have "fetch_by (\<lambda>r. o_id r = o_id order) (orders s) = None"
    using fresh unfolding fetch_by_None by (metis imageI)
  then have o: "order_by_id (o_id order) (deliver n s') = Some order"
    by (simp add: order_by_id_def s' write_purchase_def w)
  show ?thesis
    by (simp add: replay_by_key_def f find_order_by_id_def o bind_tx_def db_try_def map_err_tx_def)
qed

lemma write_purchase_new: "orders (write_purchase uid w s) \<noteq> orders s"
  by (simp add: write_purchase_def)

lemma released_buyer:
  assumes "checkout_transaction ymd uid key intent cid at s = Inr (Released b e, t)"
  shows "bl_user_id b = uid"
proof -
  have finish: "b = chk_balance locks" if f: "finish_order locks key order cid u = Inr (Released b e, t)" for locks order u
  proof -
    obtain r v where "(case r of Twin \<Rightarrow> return_tx (Released (chk_balance locks) no_committed_row)
      | Fresh \<Rightarrow> bind_tx (db_try (insert_domain_event_tx (order_created_event order) cid)) (\<lambda>_.
          return_tx (Placed order))) v = Inr (Released b e, t)"
      using f by (auto simp: finish_order_def bind_tx_Inr)
    then show ?thesis by (cases r) (auto simp: bind_tx_Inr)
  qed
  have "bl_user_id b = bl_user_id (chk_balance locks)"
    if "place_order ymd locks cart intent key cid at u = Inr (Released b e, t)" for locks cart u
    using that finish by (auto simp: place_order_def bind_tx_Inr)
  then show ?thesis using assms acquire_checkout_locks_Inr(2)
    by (fastforce simp: checkout_transaction_def bind_tx_Inr split: if_splits)
qed

lemma checkout_state:
  "snd (checkout ymd uid key req cid at s) = s \<or>
    (\<exists>intent order s'. parse_request req = Inr intent \<and> replay uid key s = Inr (None, s) \<and>
      checkout_transaction ymd uid key intent cid at s = Inr (Placed order, s') \<and>
      checkout ymd uid key req cid at s = commit_tx (assemble_response order) (deliver (placed_notice order) s') \<and>
      snd (checkout ymd uid key req cid at s) = deliver (placed_notice order) s')"
proof (cases "replay uid key s")
  case (Inr p)
  then have p: "snd p = s"
    using replay_by_key_reads by (cases p; cases key) (auto simp: replay_def)
  show ?thesis
  proof (cases "fst p = None \<and> (\<exists>intent. parse_request req = Inr intent)")
    case True
    then obtain intent where i: "parse_request req = Inr intent" and none: "replay uid key s = Inr (None, s)"
      using Inr p by (cases p) auto
    have c: "checkout ymd uid key req cid at s = run_checkout ymd uid key intent cid at s"
      by (simp add: checkout_def none i)
    have reads: "snd (commit_tx (assemble_response r) t) = t" for r t
      using assemble_response_reads [of r t] by (cases "assemble_response r t") (auto simp: commit_tx_def)
    have "snd (commit_tx (replay_or b key e) t) = t" for b e t
      using replay_by_key_reads [of "bl_user_id b" _ t]
      by (cases key; cases "replay_or b key e t")
        (auto simp: commit_tx_def replay_or_def bind_tx_Inr split: option.splits)
    then show ?thesis unfolding c using i none reads
      by (auto simp: run_checkout_def split: sum.splits checkout_end.splits)
  next
    case False
    then show ?thesis using Inr by (cases p; cases "parse_request req") (auto simp: checkout_def split: option.splits)
  qed
qed (simp add: checkout_def)


definition checkout_answer :: "(app_error + order_response) \<times> db" where
  "checkout_answer = checkout (\<lambda>_. ''20240101'') 11 (Some (IdempotencyKey ''abc''))
     \<lparr>cq_coupon_code = Some '' spring '', cq_use_points = Some True, cq_payment_method = None\<rparr> None
     \<lparr>sn_tz = taipei, sn_now = 99\<rparr> checkout_example"


section \<open>Refusals\<close>

lemma acquire_checkout_locks_run:
  "user_balance s uid = None \<Longrightarrow> acquire_checkout_locks uid s = Inl (NotFound ''user not found'')"
  "user_balance s uid = Some b \<Longrightarrow> \<exists>locks. acquire_checkout_locks uid s = Inr (locks, s) \<and> bl_balance (chk_balance locks) = b"
proof -
  have u: "db_try (lock_balance_row uid) s = Inr (user_balance s uid, s)"
    by (simp add: lock_balance_row_def user_balance_def)
  show "acquire_checkout_locks uid s = Inl (NotFound ''user not found'')" if "user_balance s uid = None"
    using that by (simp add: acquire_checkout_locks_def lock_balance_tx_def u bind_tx_def)
  assume b: "user_balance s uid = Some b"
  have f1: "lock_balance_tx uid s = Inr (\<lparr>bl_user_id = uid, bl_balance = b\<rparr>, s)"
    using u by (simp add: lock_balance_tx_def b bind_tx_def)
  have f2: "find_checkout_targets_tx \<lparr>bl_user_id = uid, bl_balance = b\<rparr> s =
      Inr (targets_of (filter (\<lambda>i. ci_user_id i = uid) (cart_items s)), s)"
    by (simp add: find_checkout_targets_tx_def find_checkout_targets_rows_def)
  have f3: "lock_products_tx ids s =
      Inr (\<lparr>pl_rows = sort_key p_id (filter (\<lambda>p. p_id p \<in> set ids) (products s))\<rparr>, s)" for ids
    by (simp add: lock_products_tx_def lock_products_rows_def bind_tx_def)
  have f4: "db_try (lock_courses_tx ids) s =
      Inr (\<lparr>clk_ids = sort (map c_id (filter (\<lambda>c. c_id c \<in> set ids) (courses s)))\<rparr>, s)" for ids
    by (simp add: lock_courses_tx_def bind_tx_def)
  show "\<exists>locks. acquire_checkout_locks uid s = Inr (locks, s) \<and> bl_balance (chk_balance locks) = b"
    unfolding acquire_checkout_locks_def by (simp add: bind_tx_def f1 f2 f3 f4 del: db_try_Inr)
qed

lemma checkout_refused:
  assumes "replay uid key s = Inr (None, s)" "parse_request req = Inr intent"
    and "checkout_transaction ymd uid key intent cid at s = Inl e"
  shows "checkout ymd uid key req cid at s = (Inl e, s)"
  using assms by (simp add: checkout_def run_checkout_def)



end
