(* ===== verification/Refunds.thy ===== *)
theory Refunds
  imports Purchase
begin

text \<open>
  Order status changes and their compensation (\<open>update_order_status\<close> and
  \<open>compensate_order_artifacts_tx\<close> of \<open>src/modules/orders/service.rs\<close>, with \<open>refund.rs\<close> and
  \<open>model.rs\<close>): the transaction that locks the order, decides, undoes the side effects of its checkout
  when it leaves the revenue statuses, flips the status and queues the event; the state machine over a
  whole lifecycle; and the refund as the inverse of the checkout.
\<close>

section \<open>The transaction\<close>

definition compensate_order_artifacts_tx :: "order_row \<Rightarrow> instant \<Rightarrow> unit app" where
  "compensate_order_artifacts_tx order now =
    bind_tx (acquire_refund_locks order) (\<lambda>locks.
    bind_tx (reverse_order_tx (rfl_balance locks) (o_id order) now) (\<lambda>_.
    bind_tx (restore_for_order_tx (rfl_restock locks)) (\<lambda>_.
    bind_tx (cancel_enrolments_by_order_tx (o_id order)) (\<lambda>_.
    bind_tx (cancel_subscriptions_by_order_tx (o_id order)) (\<lambda>_.
    return_tx ())))))"

definition order_status_changed_event :: "order_row \<Rightarrow> order_status \<Rightarrow> domain_event" where
  "order_status_changed_event updated target = OrderStatusChanged
     \<lparr>os_order_id = o_id updated, os_user_id = o_user_id updated, os_status = order_status_as_str target\<rparr>"

definition flip_status :: "uuid \<Rightarrow> order_status \<Rightarrow> string option \<Rightarrow> order_row app" where
  "flip_status order_id target correlation_id =
    bind_tx (db_try (update_status_tx order_id target)) (\<lambda>r.
    bind_tx (of_option_tx (NotFound ''order not found'') r) (\<lambda>updated.
    bind_tx (db_try (insert_domain_event_tx (order_status_changed_event updated target) correlation_id)) (\<lambda>_.
    return_tx updated)))"

text \<open>The transaction of a status change: unchanged (released), or changed with the updated row.\<close>

datatype status_end = Unchanged order_row | Changed order_row

definition status_transaction :: "uuid \<Rightarrow> order_status \<Rightarrow> string option \<Rightarrow> instant \<Rightarrow> status_end app" where
  "status_transaction order_id target correlation_id now =
    bind_tx (db_try (find_order_by_id_tx order_id)) (\<lambda>r.
    bind_tx (of_option_tx (NotFound ''order not found'') r) (\<lambda>current.
    bind_tx (of_result_tx (decide_transition (o_status current) target)) (\<lambda>decision.
    case decision of
      NoOp \<Rightarrow> return_tx (Unchanged current)
    | Flip \<Rightarrow> bind_tx (flip_status order_id target correlation_id) (\<lambda>updated. return_tx (Changed updated))
    | FlipAndCompensate \<Rightarrow>
        bind_tx (compensate_order_artifacts_tx current now) (\<lambda>_.
        bind_tx (flip_status order_id target correlation_id) (\<lambda>updated. return_tx (Changed updated))))))"

definition update_order_status ::
  "uuid \<Rightarrow> string \<Rightarrow> string option \<Rightarrow> instant \<Rightarrow> order_response handler" where
  "update_order_status order_id status_str correlation_id now = (\<lambda>s.
    case order_status_from_str status_str of
      None \<Rightarrow> (Inl (Validation (''invalid order status: '' @ status_str)), s)
    | Some target \<Rightarrow>
        (case status_transaction order_id target correlation_id now s of
           Inl e \<Rightarrow> (Inl e, s)
         | Inr (Unchanged current, _) \<Rightarrow> commit_tx (assemble_response current) s
         | Inr (Changed updated, s') \<Rightarrow> commit_tx (assemble_response updated)
             (deliver (order_status_changed (o_user_id updated) (o_id updated) (o_order_number updated)
               (order_status_as_str target)) s')))"

section \<open>The status machine\<close>

lemma decide_transition_cases:
  "decide_transition a b = Inr d \<longleftrightarrow>
    (d = NoOp \<and> a = b) \<or>
    (d = FlipAndCompensate \<and> can_transition_to a b \<and> is_revenue a \<and> \<not> is_revenue b) \<or>
    (d = Flip \<and> can_transition_to a b \<and> (is_revenue a \<longleftrightarrow> is_revenue b))"
  by (cases a; cases b; cases d) (simp_all add: decide_transition_def compensation_required_def)

lemma transition_facts:
  "can_transition_to a b \<Longrightarrow> is_revenue b \<Longrightarrow> is_revenue a" "\<not> can_transition_to a a"
  by (cases a; cases b; simp)+

text \<open>
  A lifecycle: accepted status requests one after the other, with the number of compensations run.
\<close>

inductive lifecycle :: "order_status \<Rightarrow> nat \<Rightarrow> order_status \<Rightarrow> bool" where
  start: "lifecycle a 0 a"
| keep: "lifecycle a n b \<Longrightarrow> decide_transition b c = Inr NoOp \<Longrightarrow> lifecycle a n c"
| flip: "lifecycle a n b \<Longrightarrow> decide_transition b c = Inr Flip \<Longrightarrow> lifecycle a n c"
| compensate: "lifecycle a n b \<Longrightarrow> decide_transition b c = Inr FlipAndCompensate \<Longrightarrow> lifecycle a (Suc n) c"

lemma lifecycle_count:
  "lifecycle a n b \<Longrightarrow> n = (if is_revenue a \<and> \<not> is_revenue b then 1 else 0) \<and> (is_revenue b \<longrightarrow> is_revenue a)"
  by (induction rule: lifecycle.induct) (auto simp: decide_transition_cases dest: transition_facts(1) split: if_splits)



section \<open>What compensation changes\<close>

definition order_took :: "uuid \<Rightarrow> uuid \<Rightarrow> db \<Rightarrow> int" where
  "order_took oid pid s = sum_where (\<lambda>r. oi_order_id r = oid \<and> oi_item_type r = CI_Product \<and>
     oi_product_id r = Some pid \<and> oi_stock_decremented r) oi_quantity (order_items s)"

lemma decode_product: "decode_target CI_Product p c = Inr t \<longleftrightarrow> (\<exists>i. p = Some i \<and> c = None \<and> t = TargetProduct i)"
  by (cases p; cases c) auto

lemma stock_trace_Inr:
  "oi_item_type r = CI_Product \<Longrightarrow> stock_trace r s = Inr (t, s') \<longleftrightarrow> s' = s \<and>
    (\<exists>i. oi_product_id r = Some i \<and> oi_course_id r = None \<and>
      t = \<lparr>st_target = TargetProduct i, st_quantity = oi_quantity r, st_stock_decremented = oi_stock_decremented r\<rparr>)"
  by (auto simp: stock_trace_def bind_tx_Inr decode_product)

lemma traces_sum:
  "for_tx stock_trace rs s = Inr (traces, s') \<Longrightarrow> \<forall>r \<in> set rs. oi_item_type r = CI_Product \<Longrightarrow>
    s' = s \<and> line_sum pid (restock_lines traces) =
      sum_where (\<lambda>r. oi_product_id r = Some pid \<and> oi_stock_decremented r) oi_quantity rs"
proof (induction rs arbitrary: traces)
  case (Cons r rs)
  then obtain i ts where "oi_product_id r = Some i" and rest: "for_tx stock_trace rs s = Inr (ts, s')"
    and "traces = \<lparr>st_target = TargetProduct i, st_quantity = oi_quantity r, st_stock_decremented = oi_stock_decremented r\<rparr> # ts"
    by (auto simp: bind_tx_Inr stock_trace_Inr)
  then show ?case using Cons.IH [OF rest] Cons.prems(2)
    by (auto simp: restock_lines_def sum_where_def)
qed (simp add: restock_lines_def sum_where_def)

lemma sum_where_sort_key: "sum_where P f (sort_key k xs) = sum_where P f xs"
proof -
  have "mset (filter P (sort_key k xs)) = mset (filter P xs)" by simp
  then show ?thesis unfolding sum_where_def by (metis mset_map sum_mset_sum_list)
qed

lemma acquire_refund_locks_Inr:
  assumes "acquire_refund_locks order s = Inr (locks, s')"
  shows "s' = s" "bl_user_id (rfl_balance locks) = o_user_id order"
    "user_balance s (o_user_id order) = Some (bl_balance (rfl_balance locks))"
    "product_locks_ok (rl_locks (rfl_restock locks))"
    "line_sum pid (rl_lines (rfl_restock locks)) = order_took (o_id order) pid s"
proof -
  let ?rows = "sort_key oi_created_at (filter (\<lambda>r. oi_order_id r = o_id order \<and> oi_item_type r = CI_Product) (order_items s))"
  obtain traces t where tr: "for_tx stock_trace ?rows s = Inr (traces, t)"
    and b: "bl_user_id (rfl_balance locks) = o_user_id order"
      "user_balance s (o_user_id order) = Some (bl_balance (rfl_balance locks))"
    and l: "rl_lines (rfl_restock locks) = restock_lines traces" "s' = t"
      "pl_rows (rl_locks (rfl_restock locks)) =
        sort_key p_id (filter (\<lambda>p. p_id p \<in> set (map fst (restock_lines traces))) (products t))"
    using assms by (auto simp: acquire_refund_locks_def bind_tx_Inr lock_restock_for_order_tx_def Let_def
        find_stock_traces_by_order_tx_def)
  note ts = traces_sum [OF tr, of pid]
  show "s' = s" using l ts by simp
  show "bl_user_id (rfl_balance locks) = o_user_id order"
    "user_balance s (o_user_id order) = Some (bl_balance (rfl_balance locks))" using b by blast+
  show "product_locks_ok (rl_locks (rfl_restock locks))" by (simp add: product_locks_ok_def l)
  show "line_sum pid (rl_lines (rfl_restock locks)) = order_took (o_id order) pid s"
    using ts by (simp add: l order_took_def sum_where_sort_key)
      (simp add: sum_where_def conj_commute conj_left_commute)
qed

lemma compensation_spec:
  assumes signed: "signed_ledger s"
    and run: "compensate_order_artifacts_tx order now s = Inr (u, s')"
  shows "user_balance s' = (\<lambda>k. if k = o_user_id order
      then map_option (\<lambda>b. b - order_sum (o_id order) PR_CheckoutRedeem s - order_sum (o_id order) PR_CheckoutEarn s)
        (user_balance s k)
      else user_balance s k)"
    "\<And>pid. stock_of s' pid = map_option (map_option (\<lambda>n. n + order_took (o_id order) pid s)) (stock_of s pid)"
    "\<And>pid. but_stock s' pid = but_stock s pid" "stock_ok s \<Longrightarrow> stock_ok s'"
    "\<And>e. e \<in> set (active_enrolments s') \<Longrightarrow> e_order_id e \<noteq> Some (o_id order)"
    "\<And>cid. active_count cid s' = active_count cid s - order_holds (o_id order) cid s"
    "\<And>r. r \<in> set (subscriptions s') \<Longrightarrow> s_order_id r = Some (o_id order) \<Longrightarrow> s_status r = Sub_Cancelled"
    "filter (\<lambda>r. s_order_id r \<noteq> Some (o_id order)) (subscriptions s') =
      filter (\<lambda>r. s_order_id r \<noteq> Some (o_id order)) (subscriptions s)"
    "set (active_enrolments s') \<subseteq> set (active_enrolments s)"
    "\<exists>us n led ps es lr subs. s' = s\<lparr>users := us, uuid_pos := n, point_ledger := led, products := ps,
      enrolments := es, leave_requests := lr, subscriptions := subs\<rparr>"
proof -
  obtain locks t0 t1 t2 n t3 m where
    l: "acquire_refund_locks order s = Inr (locks, t0)" and
    p: "reverse_order_tx (rfl_balance locks) (o_id order) now t0 = Inr ((), t1)" and
    r: "restore_for_order_tx (rfl_restock locks) t1 = Inr ((), t2)" and
    e: "cancel_enrolments_by_order_tx (o_id order) t2 = Inr (n, t3)" and
    c: "cancel_subscriptions_by_order_tx (o_id order) t3 = Inr (m, s')"
    using run by (auto simp: compensate_order_artifacts_tx_def bind_tx_Inr)
  note lk = acquire_refund_locks_Inr [OF l]
  have t0: "t0 = s" by (rule lk(1))
  obtain bs ds where ds: "for_tx (\<lambda>ld. apply_delta_tx (rfl_balance locks) ld now) ds s = Inr (bs, t1)"
    using reverse_order_tx_Inr [OF p signed [folded t0]] unfolding t0 by blast
  obtain us k rows where t1: "t1 = s\<lparr>users := us, uuid_pos := k, point_ledger := point_ledger s @ rows\<rparr>"
    using apply_deltas_Inr [OF ds] by blast
  note st = restore_for_order_tx_effect [OF r lk(4)]
  obtain P where t2: "t2 = t1\<lparr>products := P\<rparr>" using st(4) by blast
  note en = cancel_order_releases_seats_spec [OF e]
  obtain E L where t3: "t3 = t2\<lparr>enrolments := E, leave_requests := L\<rparr>" using en by blast
  note su = cancel_subscriptions_effect [OF c]
  obtain S where s': "s' = t3\<lparr>subscriptions := S\<rparr>" using su(2) by blast
  have act: "active_enrolments s' = active_enrolments t3" by (simp add: s' active_enrolments_def)
  have act2: "active_count cid t2 = active_count cid s" "order_holds oid cid t2 = order_holds oid cid s" for cid oid
    by (simp_all add: t2 t1 active_count_def active_enrolments_def order_holds_def)
  show "user_balance s' = (\<lambda>k. if k = o_user_id order
    then map_option (\<lambda>b. b - order_sum (o_id order) PR_CheckoutRedeem s - order_sum (o_id order) PR_CheckoutEarn s)
      (user_balance s k) else user_balance s k)"
  proof
    fix k
    have "user_balance s' k = user_balance t1 k" by (simp add: s' t3 t2 user_balance_def user_by_id_def)
    then show "user_balance s' k = (if k = o_user_id order
      then map_option (\<lambda>b. b - order_sum (o_id order) PR_CheckoutRedeem s - order_sum (o_id order) PR_CheckoutEarn s)
        (user_balance s k) else user_balance s k)"
      using reverse_order_effect_spec [OF signed p [unfolded t0], of k] by (simp add: lk(2))
  qed
  have prods: "stock_of s' = stock_of t2" "but_stock s' = but_stock t2" "stock_ok s' = stock_ok t2"
    "stock_of t1 = stock_of s" "but_stock t1 = but_stock s" "stock_ok t1 = stock_ok s"
    by (simp_all add: fun_eq_iff s' t3 t1 stock_of_def but_stock_def stock_ok_def product_by_id_def)
  have took: "line_sum pid (rl_lines (rfl_restock locks)) = order_took (o_id order) pid s" for pid
    by (rule acquire_refund_locks_Inr(5) [OF l])
  show "stock_of s' pid = map_option (map_option (\<lambda>n. n + order_took (o_id order) pid s)) (stock_of s pid)" for pid
    using st(1) [of pid] unfolding prods took .
  show "but_stock s' pid = but_stock s pid" for pid using st(2) [of pid] unfolding prods .
  show "stock_ok s \<Longrightarrow> stock_ok s'" using st(3) unfolding prods .
  show "e_order_id x \<noteq> Some (o_id order)" if "x \<in> set (active_enrolments s')" for x
    using that en unfolding act by blast
  show "active_count cid s' = active_count cid s - order_holds (o_id order) cid s" for cid
  proof -
    have "active_count cid s' = active_count cid t3" by (simp add: active_count_def act)
    then show ?thesis using en act2 by simp
  qed
  show "s_status x = Sub_Cancelled" if "x \<in> set (subscriptions s')" "s_order_id x = Some (o_id order)" for x
    using that c by (auto simp: cancel_subscriptions_by_order_tx_Inr set_update_where sub_of_order_def)
  have e3: "enrolments s' = update_where (of_order (o_id order)) cancel_enrolment_row (enrolments s)"
    using cancel_enrolments_by_order_tx_Inr [THEN iffD1, OF e] by (simp add: s' t2 t1)
  show "set (active_enrolments s') \<subseteq> set (active_enrolments s)"
    by (auto simp: e3 active_enrolments_def set_update_where cancel_enrolment_row_def is_active_enrolment_def)
  have "subscriptions t3 = subscriptions s" by (simp add: t3 t2 t1)
  then show "filter (\<lambda>r. s_order_id r \<noteq> Some (o_id order)) (subscriptions s') =
    filter (\<lambda>r. s_order_id r \<noteq> Some (o_id order)) (subscriptions s)" using su(3) by simp
  show "\<exists>us n led ps es lr subs. s' = s\<lparr>users := us, uuid_pos := n, point_ledger := led, products := ps,
    enrolments := es, leave_requests := lr, subscriptions := subs\<rparr>"
    unfolding s' t3 t2 t1 by (intro exI) (rule db.equality; simp)
qed


definition sold_order :: order_row where
  "sold_order = \<lparr>o_id = 70, o_user_id = 11, o_order_number = ''DF-1'', o_status = OS_Paid,
     o_total_cents = 100000, o_discount_cents = 0, o_coupon_code = None, o_points_used = 30,
     o_points_earned = 50, o_payment_method = None, o_paid_at = Some 5, o_created_at = 5\<rparr>"

definition sold_example :: db where
  "sold_example = empty_db\<lparr>users := [member 11 60, member 12 5], orders := [sold_order],
     products := [sample_product 22 50000 (Some 3)], courses := [sample_course 31 1],
     order_items := [\<lparr>oi_id = 81, oi_order_id = 70, oi_item_type = CI_Product, oi_product_id = Some 22,
       oi_course_id = None, oi_quantity = 2, oi_unit_price_cents = 50000, oi_name = ''Mat'',
       oi_stock_decremented = True, oi_created_at = 5\<rparr>],
     enrolments := [\<lparr>e_id = 61, e_user_id = 11, e_course_id = 31, e_order_id = Some 70,
       e_status = Enr_Active, e_enrolled_at = 5, e_created_at = 5\<rparr>],
     point_ledger := [\<lparr>l_id = 90, l_user_id = 11, l_delta = -30, l_reason = PR_CheckoutRedeem,
       l_order_id = Some 70, l_created_at = 5\<rparr>,
      \<lparr>l_id = 91, l_user_id = 11, l_delta = 50, l_reason = PR_CheckoutEarn,
       l_order_id = Some 70, l_created_at = 5\<rparr>]\<rparr>"


section \<open>The status transaction\<close>

lemma flip_status_Inr:
  assumes "flip_status oid target cid s = Inr (r, s')"
  obtains o' n row where "order_by_id oid s = Some o'" "r = o'\<lparr>o_status := target\<rparr>"
    "s' = s\<lparr>orders := update_where (\<lambda>r. o_id r = oid) (\<lambda>r. r\<lparr>o_status := target\<rparr>) (orders s),
      uuid_pos := n, events_outbox := events_outbox s @ [row]\<rparr>"
    "ke_data (ob_payload row) = order_status_changed_event r target" "ob_published_at row = None"
proof -
  obtain t o' u where t: "t = s\<lparr>orders := update_where (\<lambda>r. o_id r = oid) (\<lambda>r. r\<lparr>o_status := target\<rparr>) (orders s)\<rparr>"
    and o': "order_by_id oid s = Some o'" "r = o'\<lparr>o_status := target\<rparr>"
    and ev: "insert_domain_event_tx (order_status_changed_event r target) cid t = Inr (u, s')"
    using assms by (auto simp: flip_status_def bind_tx_Inr update_status_tx_def)
  obtain n row where "s' = t\<lparr>uuid_pos := n, events_outbox := events_outbox t @ [row]\<rparr>"
    and row: "ke_data (ob_payload row) = order_status_changed_event r target" "ob_published_at row = None"
    using ev by (rule insert_domain_event_Inr)
  then have "s' = s\<lparr>orders := update_where (\<lambda>r. o_id r = oid) (\<lambda>r. r\<lparr>o_status := target\<rparr>) (orders s),
      uuid_pos := n, events_outbox := events_outbox s @ [row]\<rparr>" by (simp add: t)
  then show thesis using o' row by (intro that)
qed

lemma status_transaction_Inr:
  assumes "status_transaction oid target cid now s = Inr (r, s')"
  obtains (unchanged) current where "order_by_id oid s = Some current" "o_status current = target"
      "r = Unchanged current" "s' = s"
    | (flipped) current updated where "order_by_id oid s = Some current" "can_transition_to (o_status current) target"
      "is_revenue (o_status current) \<longleftrightarrow> is_revenue target" "r = Changed updated"
      "flip_status oid target cid s = Inr (updated, s')"
    | (compensated) current updated t where "order_by_id oid s = Some current"
      "can_transition_to (o_status current) target"
      "is_revenue (o_status current)" "\<not> is_revenue target" "r = Changed updated"
      "compensate_order_artifacts_tx current now s = Inr ((), t)"
      "flip_status oid target cid t = Inr (updated, s')"
proof -
  obtain current d where c: "order_by_id oid s = Some current" and d: "decide_transition (o_status current) target = Inr d"
    and rest: "(case d of
        NoOp \<Rightarrow> return_tx (Unchanged current)
      | Flip \<Rightarrow> bind_tx (flip_status oid target cid) (\<lambda>updated. return_tx (Changed updated))
      | FlipAndCompensate \<Rightarrow>
          bind_tx (compensate_order_artifacts_tx current now) (\<lambda>_.
          bind_tx (flip_status oid target cid) (\<lambda>updated. return_tx (Changed updated)))) s = Inr (r, s')"
    using assms by (auto simp: status_transaction_def bind_tx_Inr find_order_by_id_tx_def)
  show thesis
  proof (cases d)
    case NoOp
    then show thesis using c d rest by (intro unchanged [of current]) (auto simp: decide_transition_cases)
  next
    case Flip
    then obtain updated where "flip_status oid target cid s = Inr (updated, s')" "r = Changed updated"
      using rest by (auto simp: bind_tx_Inr)
    then show thesis using c d Flip by (intro flipped [of current updated]) (auto simp: decide_transition_cases)
  next
    case FlipAndCompensate
    then obtain t updated where "compensate_order_artifacts_tx current now s = Inr ((), t)"
      "flip_status oid target cid t = Inr (updated, s')" "r = Changed updated"
      using rest by (auto simp: bind_tx_Inr)
    then show thesis using c d FlipAndCompensate
      by (intro compensated [of current updated t]) (auto simp: decide_transition_cases)
  qed
qed

section \<open>Orders outside the revenue statuses hold nothing\<close>

definition holds_nothing :: "uuid \<Rightarrow> db \<Rightarrow> bool" where
  "holds_nothing oid s = ((\<forall>e \<in> set (active_enrolments s). e_order_id e \<noteq> Some oid) \<and>
    (\<forall>r \<in> set (subscriptions s). s_order_id r = Some oid \<longrightarrow> s_status r = Sub_Cancelled))"

text \<open>Order ids are a key, and what names an order names an existing one (the foreign keys).\<close>

definition order_refs_ok :: "db \<Rightarrow> bool" where
  "order_refs_ok s = (distinct (map o_id (orders s)) \<and>
    (\<forall>e \<in> set (enrolments s). \<forall>i \<in> set_option (e_order_id e). i \<in> o_id ` set (orders s)) \<and>
    (\<forall>r \<in> set (subscriptions s). \<forall>i \<in> set_option (s_order_id r). i \<in> o_id ` set (orders s)) \<and>
    (\<forall>r \<in> set (point_ledger s). \<forall>i \<in> set_option (l_order_id r). i \<in> o_id ` set (orders s)) \<and>
    (\<forall>r \<in> set (order_items s). oi_order_id r \<in> o_id ` set (orders s)))"

definition settled_ok :: "db \<Rightarrow> bool" where
  "settled_ok s = (\<forall>r \<in> set (orders s). \<not> is_revenue (o_status r) \<longrightarrow> holds_nothing (o_id r) s)"

lemma holds_nothing_cong:
  "active_enrolments s' = active_enrolments s \<Longrightarrow> subscriptions s' = subscriptions s \<Longrightarrow>
    holds_nothing oid s' = holds_nothing oid s"
  by (simp add: holds_nothing_def)

lemma flip_keeps_settled:
  assumes "settled_ok s" "flip_status oid target cid s = Inr (r, s')" "\<not> is_revenue target \<longrightarrow> holds_nothing oid s"
  shows "settled_ok s'"
proof -
  obtain o' n row where s': "s' = s\<lparr>orders := update_where (\<lambda>r. o_id r = oid) (\<lambda>r. r\<lparr>o_status := target\<rparr>) (orders s),
      uuid_pos := n, events_outbox := events_outbox s @ [row]\<rparr>"
    using assms(2) by (rule flip_status_Inr)
  have h: "holds_nothing i s' = holds_nothing i s" for i
    by (rule holds_nothing_cong) (simp_all add: s' active_enrolments_def)
  have "orders s' = update_where (\<lambda>r. o_id r = oid) (\<lambda>r. r\<lparr>o_status := target\<rparr>) (orders s)" by (simp add: s')
  then show ?thesis using assms(1,3) unfolding settled_ok_def h by (auto simp: set_update_where)
qed

lemma compensation_keeps_settled:
  assumes "signed_ledger s" "settled_ok s" "compensate_order_artifacts_tx order now s = Inr (u, s')"
  shows "settled_ok s' \<and> holds_nothing (o_id order) s' \<and> orders s' = orders s"
proof -
  note c = compensation_spec [OF assms(1,3)]
  note none = c(5,7) and sub = c(9) and rest = c(8)
  have h: "holds_nothing (o_id order) s'" using none by (auto simp: holds_nothing_def)
  have "holds_nothing i s'" if "holds_nothing i s" for i
  proof (cases "i = o_id order")
    case False
    have "r \<in> set (subscriptions s)" if "r \<in> set (subscriptions s')" "s_order_id r = Some i" for r
    proof -
      have "r \<in> set (filter (\<lambda>r. s_order_id r \<noteq> Some (o_id order)) (subscriptions s'))"
        using that False by simp
      then show ?thesis unfolding rest by simp
    qed
    then show ?thesis using that sub by (auto simp: holds_nothing_def)
  qed (simp add: h)
  moreover have o: "orders s' = orders s" using c(10) by (elim exE) simp
  ultimately show ?thesis using assms(2) h by (auto simp: settled_ok_def)
qed

lemma status_transaction_settled:
  assumes "signed_ledger s" "settled_ok s" "status_transaction oid target cid now s = Inr (r, s')"
  shows "settled_ok s'"
  using assms(3)
proof (cases rule: status_transaction_Inr)
  case unchanged
  then show ?thesis using assms(2) by simp
next
  case (flipped current updated)
  then have "\<not> is_revenue target \<longrightarrow> holds_nothing oid s"
    using assms(2) by (auto simp: order_by_id_def settled_ok_def dest!: fetch_by_Some)
  then show ?thesis by (rule flip_keeps_settled [OF assms(2) flipped(5)])
next
  case (compensated current updated t)
  have "o_id current = oid" using compensated(1) by (auto simp: order_by_id_def dest!: fetch_by_Some)
  then have "settled_ok t" "holds_nothing oid t"
    using compensation_keeps_settled [OF assms(1,2) compensated(6)] by blast+
  then show ?thesis by (intro flip_keeps_settled [OF _ compensated(7)]) blast+
qed

lemma settled_deliver [simp]: "settled_ok (deliver p s) = settled_ok s"
  by (simp add: settled_ok_def holds_nothing_def active_enrolments_def)

lemma update_order_status_state:
  "snd (update_order_status oid str cid now s) = s \<or>
    (\<exists>target r s' p. order_status_from_str str = Some target \<and>
      status_transaction oid target cid now s = Inr (Changed r, s') \<and>
      snd (update_order_status oid str cid now s) = deliver p s')"
proof -
  have reads: "snd (commit_tx (assemble_response r) t) = t" for r t
    using assemble_response_reads [of r t] by (cases "assemble_response r t") (auto simp: commit_tx_def)
  show ?thesis using reads
    by (auto simp: update_order_status_def split: option.splits sum.splits status_end.splits)
qed

lemma update_order_status_settled:
  assumes "signed_ledger s" "settled_ok s"
  shows "settled_ok (snd (update_order_status oid str cid now s))"
  using update_order_status_state [of oid str cid now s] assms status_transaction_settled settled_deliver by metis

lemma placed_rows:
  assumes "stock_ok s" "checkout_transaction ymd uid key intent cid at s = Inr (Placed order, s')"
  obtains w where "s' = write_purchase uid w s" "pu_order w = order" "o_status order = OS_Paid"
    "o_id order \<notin> o_id ` set (orders s)" "o_user_id order = uid"
    "\<forall>e \<in> set (pu_enrolments w). e_order_id e = Some (o_id order)"
    "\<forall>r \<in> set (pu_subscriptions w). s_order_id r = Some (o_id order)"
    "\<forall>r \<in> set (pu_items w). oi_order_id r = o_id order"
    "\<exists>pr. list_all2 (row_of_delta uid (sn_now at)) (ledger_deltas pr (o_id order)) (pu_ledger w)"
proof -
  obtain locks where l: "acquire_checkout_locks uid s = Inr (locks, s)"
    and p: "place_order ymd locks (PurchasableCart (checkout_lines uid s)) intent key cid at s = Inr (Placed order, s')"
    using assms(2) by (rule checkout_transaction_Placed)
  note lk = acquire_checkout_locks_Inr [OF l]
  obtain pr reserved w where s': "s' = write_purchase (bl_user_id (chk_balance locks)) w s" and w: "pu_order w = order" and
    m: "purchase_matches (bl_user_id (chk_balance locks)) key (int_payment_method intent) (sn_now at)
      (PurchasableCart (checkout_lines uid s)) pr reserved w" and
    fresh: "o_id order \<notin> o_id ` set (orders s)"
    by (rule place_order_Placed [OF assms(1) lk(5) p]) (rule that; assumption)
  note mm = m [unfolded purchase_matches_def w lk(2)]
  have "list_all2 (item_of_line (o_id order) (sn_now at)) (order_lines (PurchasableCart (checkout_lines uid s)) reserved) (pu_items w)"
    using mm by blast
  then have items: "\<forall>r \<in> set (pu_items w). oi_order_id r = o_id order"
    by (auto simp: list_all2_conv_all_nth item_of_line_def in_set_conv_nth)
  show thesis
  proof (rule that [OF s' [unfolded lk(2)] w _ fresh _ _ _ items])
    show "o_status order = OS_Paid" "o_user_id order = uid" using mm by blast+
    show "\<forall>e \<in> set (pu_enrolments w). e_order_id e = Some (o_id order)" using mm by (simp add: enrolled_row_def)
    show "\<forall>r \<in> set (pu_subscriptions w). s_order_id r = Some (o_id order)" using mm by (simp add: granted_row_def)
    show "\<exists>pr. list_all2 (row_of_delta uid (sn_now at)) (ledger_deltas pr (o_id order)) (pu_ledger w)"
      using mm by blast
  qed
qed

lemma checkout_settled:
  assumes "stock_ok s" "settled_ok s" shows "settled_ok (snd (checkout ymd uid key req cid at s))"
proof -
  have "settled_ok s'" if run: "checkout_transaction ymd uid key intent cid at s = Inr (Placed order, s')"
    for intent order s'
  proof -
    obtain w where s': "s' = write_purchase uid w s" and w: "pu_order w = order" "o_status order = OS_Paid"
      "o_id order \<notin> o_id ` set (orders s)"
      "\<forall>e \<in> set (pu_enrolments w). e_order_id e = Some (o_id order)"
      "\<forall>r \<in> set (pu_subscriptions w). s_order_id r = Some (o_id order)"
      using assms(1) run by (rule placed_rows) blast
    have "holds_nothing (o_id r) s'" if r: "r \<in> set (orders s)" and "holds_nothing (o_id r) s" for r
    proof -
      have "o_id r \<noteq> o_id order" using r w(3) by (metis imageI)
      then show ?thesis using that(2) w(4,5)
        by (auto simp: s' write_purchase_def holds_nothing_def active_enrolments_def)
    qed
    moreover have "orders s' = orders s @ [order]" by (simp add: s' write_purchase_def w(1))
    ultimately show ?thesis using assms(2) w(2) by (auto simp: settled_ok_def)
  qed
  then show ?thesis using checkout_state [of ymd uid key req cid at s] assms(2) settled_deliver by metis
qed

text \<open>
  C7. An order that is not revenue holds nothing: checkout and status changes, whatever their outcome,
  keep every pending, cancelled or refunded order without an active enrolment and without a
  subscription that is not cancelled.
\<close>

theorem settled_orders_hold_nothing:
  assumes "signed_ledger s" "stock_ok s" "settled_ok s"
  shows "settled_ok (snd (update_order_status oid str cid now s)) \<and>
    settled_ok (snd (checkout ymd uid key req cid at s))"
  using update_order_status_settled [OF assms(1,3)] checkout_settled [OF assms(2,3)] by blast

lemma settled_orders_hold_nothing_witness:
  "settled_ok (snd (update_order_status 70 ''refunded'' None 200 sold_example)) \<and>
   map o_status (orders (snd (update_order_status 70 ''refunded'' None 200 sold_example))) = [OS_Refunded]"
proof -
  have "signed_ledger sold_example" "stock_ok sold_example" "settled_ok sold_example" by code_simp+
  from settled_orders_hold_nothing [OF this]
  have "settled_ok (snd (update_order_status 70 ''refunded'' None 200 sold_example))" by blast
  moreover have "map o_status (orders (snd (update_order_status 70 ''refunded'' None 200 sold_example))) = [OS_Refunded]"
    by code_simp
  ultimately show ?thesis by blast
qed

section \<open>A refund is the inverse of its checkout\<close>

lemma deltas_signed:
  assumes "in_i64 (po_points_used pr)"
  shows "\<forall>d \<in> set (ledger_deltas pr oid). reason_sign (ld_reason d) (ld_delta d) \<and> ld_order_id d = Some oid \<and>
    (ld_reason d = PR_CheckoutRedeem \<or> ld_reason d = PR_CheckoutEarn)"
  using assms by (auto simp: ledger_deltas_def checkout_redeem_def checkout_earn_def reason_sign_def)

lemma rows_signed:
  "list_all2 (row_of_delta uid at) ds rows \<Longrightarrow>
    \<forall>d \<in> set ds. reason_sign (ld_reason d) (ld_delta d) \<and> ld_order_id d = Some oid \<and>
      (ld_reason d = PR_CheckoutRedeem \<or> ld_reason d = PR_CheckoutEarn) \<Longrightarrow>
    (\<forall>r \<in> set rows. reason_sign (l_reason r) (l_delta r)) \<and>
    sum_where (\<lambda>r. l_order_id r = Some oid \<and> l_reason r = PR_CheckoutRedeem) l_delta rows +
    sum_where (\<lambda>r. l_order_id r = Some oid \<and> l_reason r = PR_CheckoutEarn) l_delta rows = sum_list (map ld_delta ds)"
  by (induction rule: list_all2_induct) (auto simp: row_of_delta_def sum_where_def)

lemma sum_where_append: "sum_where P f (xs @ ys) = sum_where P f xs + sum_where P f ys"
  by (simp add: sum_where_def)

lemma sum_where_none: "(\<And>x. x \<in> set xs \<Longrightarrow> \<not> P x) \<Longrightarrow> sum_where P f xs = 0"
  by (simp add: sum_where_def)

lemma took_of_lines:
  assumes "list_all2 (item_of_line oid at) (order_lines (PurchasableCart ls) reserved) items"
    and fin: "\<And>l. l \<in> set ls \<Longrightarrow> cl_target l = TargetProduct pid \<Longrightarrow> \<exists>p n. reserved pid = Some p \<and> p_stock p = Some n"
  shows "sum_where (\<lambda>r. oi_order_id r = oid \<and> oi_item_type r = CI_Product \<and> oi_product_id r = Some pid \<and>
    oi_stock_decremented r) oi_quantity items = ordered pid ls"
  using assms
proof (induction ls arbitrary: items)
  case (Cons l ls)
  obtain r rs where items: "items = r # rs"
    and r: "item_of_line oid at (order_line_of reserved l) r"
    and rs: "list_all2 (item_of_line oid at) (order_lines (PurchasableCart ls) reserved) rs"
    using Cons.prems(1) by (auto simp: order_lines_def list_all2_Cons1)
  have "sum_where (\<lambda>r. oi_order_id r = oid \<and> oi_item_type r = CI_Product \<and> oi_product_id r = Some pid \<and>
    oi_stock_decremented r) oi_quantity rs = ordered pid ls"
    by (rule Cons.IH [OF rs]) (rule Cons.prems(2), auto)
  moreover have "(oi_item_type r = CI_Product \<and> oi_product_id r = Some pid \<and> oi_stock_decremented r) \<longleftrightarrow>
      cl_target l = TargetProduct pid"
    using r Cons.prems(2) [of l] by (cases "cl_target l") (auto simp: item_of_line_def order_line_of_def)
  ultimately show ?case using r
    by (auto simp: items ordered_def sum_where_def item_of_line_def order_line_of_def)
qed (simp add: order_lines_def ordered_def sum_where_def)

lemma count_where_append: "count_where P (xs @ ys) = count_where P xs + count_where P ys"
  by (induction xs) auto

text \<open>
  C4. Refund after checkout is the identity on what matters: compensating an order right after it was
  placed gives every product its stock, every member their balance and every course its free seats back,
  and leaves the order without an active enrolment or subscription.
\<close>

theorem refund_undoes_checkout:
  assumes shop: "shop_ok s" and signed: "signed_ledger s" and refs: "order_refs_ok s"
    and buy: "checkout_transaction ymd uid key intent cid at s = Inr (Placed order, s')"
    and undo: "compensate_order_artifacts_tx order now s' = Inr (u, s'')"
  shows "(\<forall>pid. stock_of s'' pid = stock_of s pid \<and> but_stock s'' pid = but_stock s pid) \<and>
    (\<forall>k. user_balance s'' k = user_balance s k) \<and>
    (\<forall>cid. active_count cid s'' = active_count cid s) \<and> holds_nothing (o_id order) s''"
proof -
  let ?ls = "checkout_lines uid s" and ?oid = "o_id order"
  obtain locks where l: "acquire_checkout_locks uid s = Inr (locks, s)"
    and p: "place_order ymd locks (PurchasableCart ?ls) intent key cid at s = Inr (Placed order, s')"
    using buy by (rule checkout_transaction_Placed)
  note lk = acquire_checkout_locks_Inr [OF l]
  have stok: "stock_ok s" using shop by (simp add: shop_ok_def)
  obtain coupon pr reserved w where
    coup: "case coupon of None \<Rightarrow> True | Some x \<Rightarrow> x \<in> set (coupons s)" and
    pr: "price (PurchasableCart ?ls) coupon (bl_balance (chk_balance locks)) (int_use_points intent) = Inr pr" and
    s': "s' = write_purchase (bl_user_id (chk_balance locks)) w s" and w: "pu_order w = order" and
    m: "purchase_matches (bl_user_id (chk_balance locks)) key (int_payment_method intent) (sn_now at)
      (PurchasableCart ?ls) pr reserved w" and
    stock: "\<And>pid. stock_of s' pid = map_option (map_option (\<lambda>n. n -
      line_sum pid (quantities (lines_to_reserve (plan (PurchasableCart ?ls)))))) (stock_of s pid)" and
    but: "\<And>pid. but_stock s' pid = but_stock s pid" and
    dom: "dom reserved = fst ` set (lines_to_reserve (plan (PurchasableCart ?ls)))" and
    res: "\<And>pid p. reserved pid = Some p \<Longrightarrow> product_by_id pid s' = Some p" and
    bal: "\<And>k. user_balance s' k = (if k = bl_user_id (chk_balance locks)
      then map_option (\<lambda>b. b + sum_list (map ld_delta (ledger_deltas pr ?oid))) (user_balance s k)
      else user_balance s k)" and
    fresh: "?oid \<notin> o_id ` set (orders s)"
    by (rule place_order_Placed [OF stok lk(5) p]) (rule that; assumption)
  note mm = m [unfolded purchase_matches_def w lk(2)]
  have rows: "list_all2 (row_of_delta uid (sn_now at)) (ledger_deltas pr ?oid) (pu_ledger w)"
    and items: "list_all2 (item_of_line ?oid (sn_now at)) (order_lines (PurchasableCart ?ls) reserved) (pu_items w)"
    and es: "\<forall>e \<in> set (pu_enrolments w). enrolled_row uid ?oid (sn_now at) e"
    and buyer: "o_user_id order = uid" using mm by blast+
  note rs = rows_signed [OF rows deltas_signed [OF placed_price(9) [OF shop l coup pr]]]
  have led: "point_ledger s' = point_ledger s @ pu_ledger w" "order_items s' = order_items s @ pu_items w"
    "enrolments s' = enrolments s @ pu_enrolments w"
    by (simp_all add: s' write_purchase_def)
  have old: "l_order_id r \<noteq> Some ?oid" if "r \<in> set (point_ledger s)" for r
    using that refs fresh by (auto simp: order_refs_ok_def)
  have signed': "signed_ledger s'" using signed rs by (auto simp: signed_ledger_def led)
  have sums: "order_sum ?oid PR_CheckoutRedeem s' + order_sum ?oid PR_CheckoutEarn s' =
      sum_list (map ld_delta (ledger_deltas pr ?oid))"
    using rs old by (simp add: order_sum_def led sum_where_append sum_where_none)
  note c = compensation_spec [OF signed' undo]
  have balance: "user_balance s'' k = user_balance s k" for k
  proof (cases "k = uid")
    case True
    then show ?thesis
      using sums by (cases "user_balance s uid") (simp_all add: c(1) bal buyer lk(2) algebra_simps)
  qed (simp add: c(1) bal buyer lk(2))
  have stocks: "stock_of s'' pid = stock_of s pid" for pid
  proof (cases "\<exists>n. stock_of s pid = Some (Some n)")
    case True
    then obtain n where n: "stock_of s pid = Some (Some n)" by blast
    have fin: "\<exists>p m. reserved pid = Some p \<and> p_stock p = Some m"
      if "l \<in> set ?ls" "cl_target l = TargetProduct pid" for l
    proof -
      have "pid \<in> set (List.map_filter (\<lambda>l. product_id_of (cl_target l)) ?ls)"
        using that by (force simp: List.map_filter_def)
      then have "pid \<in> set (map pf_product_id (fp_products (plan (PurchasableCart ?ls))))"
        unfolding plan_facts(2) .
      then have "pid \<in> dom reserved" by (auto simp: dom lines_to_reserve_def image_image)
      then obtain q where q: "reserved pid = Some q" by blast
      then have "stock_of s' pid = Some (p_stock q)" using res by (simp add: stock_of_def)
      then have "p_stock q = map_option (\<lambda>n. n - line_sum pid (quantities (lines_to_reserve (plan (PurchasableCart ?ls))))) (Some n)"
        using stock [of pid] n by simp
      then show ?thesis using q by simp
    qed
    have "order_took ?oid pid s = 0"
      unfolding order_took_def using refs fresh
      by (subst sum_where_none) (metis order_refs_ok_def, simp)
    then have "order_took ?oid pid s' = ordered pid ?ls"
      using took_of_lines [OF items fin] by (simp add: order_took_def led sum_where_append)
    then show ?thesis using c(2) [of pid] stock [of pid] n by (simp add: plan_facts)
  next
    case False
    then show ?thesis using c(2) [of pid] stock [of pid] by (cases "stock_of s pid") auto
  qed
  have seats: "active_count cid s'' = active_count cid s" for cid
  proof -
    have none: "\<forall>e \<in> set (enrolments s). e_order_id e \<noteq> Some ?oid"
      using refs fresh by (auto simp: order_refs_ok_def)
    have "active_count cid s' = active_count cid s + order_holds ?oid cid s'"
      using none es by (auto simp: active_count_def order_holds_def active_enrolments_def led
        is_active_enrolment_def enrolled_row_def filter_empty_conv count_where_def cong: filter_cong)
    then show ?thesis using c(6) [of cid] by simp
  qed
  have "holds_nothing ?oid s''" using c(5,7) by (auto simp: holds_nothing_def)
  then show ?thesis using stocks balance seats but c(3) by auto
qed

definition bought :: "order_row \<times> db" where
  "bought = (case checkout_run of Inr (Placed order, s) \<Rightarrow> (order, s) | _ \<Rightarrow> (sold_order, empty_db))"

lemma refund_undoes_checkout_witness:
  "\<exists>order s' s''. checkout_run = Inr (Placed order, s') \<and>
    compensate_order_artifacts_tx order 200 s' = Inr ((), s'') \<and>
    stock_of s'' 22 = Some (Some 5) \<and> user_balance s'' 11 = Some 30 \<and> active_count 31 s'' = 0"
proof -
  obtain order s' where placed: "checkout_run = Inr (Placed order, s')"
    using checkout_example_ok(2) by (rule placesE)
  have ex: "order = fst bought" "s' = snd bought" unfolding bought_def placed by simp_all
  have "succeeds (compensate_order_artifacts_tx (fst bought) 200 (snd bought))" by code_simp
  then obtain u s'' where run: "compensate_order_artifacts_tx order 200 s' = Inr (u, s'')"
    unfolding ex by (rule succeedsE)
  have ok: "signed_ledger checkout_example" "order_refs_ok checkout_example" by code_simp+
  have "stock_of checkout_example 22 = Some (Some 5)" "user_balance checkout_example 11 = Some 30"
    "active_count 31 checkout_example = 0" by code_simp+
  then have "stock_of s'' 22 = Some (Some 5) \<and> user_balance s'' 11 = Some 30 \<and> active_count 31 s'' = 0"
    using refund_undoes_checkout [OF checkout_example_ok(1) ok placed [unfolded checkout_run_def] run] by simp
  then show ?thesis using placed run by auto
qed

end
