(* ===== verification/Decimal.thy ===== *)
theory Decimal
  imports Prelude
begin

text \<open>
  Text the program parses back: counters and identifiers as decimal numerals, whose parsers invert
  \<open>show_nat\<close> and \<open>show_int\<close>, and the UTF-8 check of \<open>std::str::from_utf8\<close> on bytes.
\<close>

section \<open>Numbers as text\<close>

fun parse_digits :: "nat \<Rightarrow> string \<Rightarrow> nat option" where
  "parse_digits acc [] = Some acc"
| "parse_digits acc (c # cs) =
    (let n = of_char c :: nat in
     if 48 \<le> n \<and> n \<le> 57 then parse_digits (acc * 10 + (n - 48)) cs else None)"

definition parse_nat :: "string \<Rightarrow> nat option" where
  "parse_nat s = (if s = [] then None else parse_digits 0 s)"

definition parse_i64 :: "string \<Rightarrow> int option" where
  "parse_i64 s =
    (let r = (case s of
        [] \<Rightarrow> None
      | c # cs \<Rightarrow> if c = CHR ''-'' then map_option (\<lambda>n. - int n) (parse_nat cs)
                  else if c = CHR ''+'' then map_option int (parse_nat cs)
                  else map_option int (parse_nat s))
     in case r of None \<Rightarrow> None | Some i \<Rightarrow> if in_i64 i then Some i else None)"

lemma parse_digits_append: "parse_digits acc (xs @ ys) = (case parse_digits acc xs of None \<Rightarrow> None | Some a \<Rightarrow> parse_digits a ys)"
  by (induction xs arbitrary: acc) (auto simp: Let_def)

lemma digit_char: "d < 10 \<Longrightarrow> (of_char (char_of (48 + d) :: char) :: nat) = 48 + d"
  by (simp only: of_char_of) simp

lemma parse_digit: "d < 10 \<Longrightarrow> parse_digits acc [char_of (48 + d)] = Some (acc * 10 + d)"
  by (simp only: parse_digits.simps digit_char Let_def) simp

lemma parse_show_nat: "parse_digits 0 (show_nat n) = Some n"
proof (induction n rule: show_nat.induct)
  case (1 n)
  show ?case
  proof (cases "n < 10")
    case True
    then show ?thesis by (simp only: show_nat.simps [of n] if_True parse_digit) simp
  next
    case False
    then have "parse_digits 0 (show_nat n) = parse_digits (n div 10) [char_of (48 + n mod 10)]"
      using 1 by (simp only: show_nat.simps [of n] if_False parse_digits_append) simp
    also have "\<dots> = Some n" by (simp only: parse_digit) simp
    finally show ?thesis .
  qed
qed

lemma show_nat_digits: "show_nat n \<noteq> []" "c \<in> set (show_nat n) \<Longrightarrow> 48 \<le> (of_char c :: nat) \<and> (of_char c :: nat) \<le> 57"
proof -
  show "show_nat n \<noteq> []" by (simp add: show_nat.simps [of n])
  show "c \<in> set (show_nat n) \<Longrightarrow> 48 \<le> (of_char c :: nat) \<and> (of_char c :: nat) \<le> 57"
  proof (induction n rule: show_nat.induct)
    case (1 n)
    have d: "48 \<le> (of_char (char_of (48 + k) :: char) :: nat) \<and> (of_char (char_of (48 + k) :: char) :: nat) \<le> 57"
      if "k < 10" for k :: nat using that by (simp only: digit_char) simp
    show ?case
    proof (cases "n < 10")
      case True
      then have "c = char_of (48 + n)" using 1(2) by (simp add: show_nat.simps [of n])
      then show ?thesis using d [OF True] by simp
    next
      case False
      then have "c \<in> set (show_nat (n div 10)) \<or> c = char_of (48 + n mod 10)"
        using 1(2) False by (simp only: show_nat.simps [of n] if_False set_append list.set Un_iff insert_iff empty_iff) blast
      then show ?thesis
      proof
        assume "c \<in> set (show_nat (n div 10))"
        then show ?thesis by (rule 1(1) [OF False])
      next
        assume "c = char_of (48 + n mod 10)"
        then show ?thesis using d [of "n mod 10"] by (simp only:)
      qed
    qed
  qed
qed

lemma parse_nat_show [simp]: "parse_nat (show_nat n) = Some n"
  by (simp add: parse_nat_def show_nat_digits parse_show_nat)

lemma show_nat_inject [simp]: "show_nat m = show_nat n \<longleftrightarrow> m = n"
  using parse_nat_show by (metis option.inject)

lemma parse_show_int:
  assumes "0 \<le> i" "in_i64 i" shows "parse_i64 (show_int i) = Some i"
proof -
  obtain c cs where s: "show_nat (nat i) = c # cs" using show_nat_digits(1) by (cases "show_nat (nat i)") auto
  have "(of_char c :: nat) \<noteq> 45" "(of_char c :: nat) \<noteq> 43"
    using show_nat_digits(2) [of c "nat i"] s by auto
  then have "c \<noteq> CHR ''-''" "c \<noteq> CHR ''+''" by auto
  then show ?thesis using assms parse_nat_show [of "nat i"] s
    by (simp add: show_int_def parse_i64_def Let_def)
qed

section \<open>UTF-8\<close>

text \<open>
  The well-formed byte sequences of the Unicode standard: no overlong form, no surrogate, nothing
  above U+10FFFF. A text is the list of its bytes.
\<close>

type_synonym byte = "8 word"

definition byte_in :: "nat \<Rightarrow> nat \<Rightarrow> byte \<Rightarrow> bool" where
  "byte_in lo hi b = (lo \<le> unat b \<and> unat b \<le> hi)"

abbreviation continuation :: "byte \<Rightarrow> bool" where
  "continuation \<equiv> byte_in 128 191"

fun utf8_valid :: "byte list \<Rightarrow> bool" where
  "utf8_valid [] = True"
| "utf8_valid (a # bs) =
    (if byte_in 0 127 a then utf8_valid bs
     else case bs of
       [] \<Rightarrow> False
     | b # cs \<Rightarrow>
        if byte_in 194 223 a then continuation b \<and> utf8_valid cs
        else (case cs of
          [] \<Rightarrow> False
        | c # ds \<Rightarrow>
           if byte_in 224 239 a then
             (if unat a = 224 then byte_in 160 191 b
              else if unat a = 237 then byte_in 128 159 b else continuation b) \<and>
             continuation c \<and> utf8_valid ds
           else (case ds of
             [] \<Rightarrow> False
           | d # es \<Rightarrow>
              byte_in 240 244 a \<and>
              (if unat a = 240 then byte_in 144 191 b
               else if unat a = 244 then byte_in 128 143 b else continuation b) \<and>
              continuation c \<and> continuation d \<and> utf8_valid es)))"

definition text_of_bytes :: "byte list \<Rightarrow> string" where
  "text_of_bytes bs = map (\<lambda>b. char_of (unat b)) bs"

definition from_utf8 :: "byte list \<Rightarrow> string option" where
  "from_utf8 bs = (if utf8_valid bs then Some (text_of_bytes bs) else None)"

definition bytes_of_text :: "string \<Rightarrow> byte list" where
  "bytes_of_text s = map (\<lambda>c. of_nat (of_char c)) s"

definition ascii :: "string \<Rightarrow> bool" where
  "ascii s = list_all (\<lambda>c. (of_char c :: nat) < 128) s"

lemma byte_of_char: "unat (of_nat (of_char c) :: byte) = of_char c"
proof -
  have "(of_char c :: nat) < 256" by (metis nat_of_char_less_256)
  then show ?thesis by (simp add: unat_of_nat)
qed

lemma text_of_bytes_of_text [simp]: "text_of_bytes (bytes_of_text s) = s"
  by (induction s) (auto simp: text_of_bytes_def bytes_of_text_def byte_of_char)

lemma ascii_decodes: "ascii s \<Longrightarrow> from_utf8 (bytes_of_text s) = Some s"
proof -
  have "ascii s \<Longrightarrow> utf8_valid (bytes_of_text s)"
    by (induction s) (auto simp: ascii_def bytes_of_text_def byte_in_def byte_of_char)
  then show "ascii s \<Longrightarrow> from_utf8 (bytes_of_text s) = Some s"
    by (simp add: from_utf8_def)
qed

end
