(* ===== verification/Ephemeral.thy ===== *)
theory Ephemeral
  imports Errors Decimal
begin

text \<open>
  Short-lived state with a time to live (\<open>src/utils/ephemeral.rs\<close>): the \<open>EphemeralStore\<close> trait as a
  record of its operations, which the owners (\<open>auth::rate_limit\<close>, \<open>auth::otp\<close>,
  \<open>auth::reset_tokens\<close>, \<open>middleware::rate_limit\<close>) take as an argument like the code's
  \<open>&dyn EphemeralStore\<close>, and its laws as a locale. The production adapter is Redis, so the model
  interprets the locale on the repository's own in-memory adapter (\<open>InMemoryEphemeralStore\<close> of
  \<open>tests/common/mocks.rs\<close>, documented there as having the Redis script's semantics), with its
  deadlines and a clock. A call keeps its effect when it fails: nothing rolls the store back.
\<close>

section \<open>The port\<close>

text \<open>
  A call on the world \<open>'w\<close> answers a value or the adapter's error, and leaves a new world either way.
\<close>

type_synonym ('w, 'a) store_call = "'w \<Rightarrow> (string + 'a) \<times> 'w"
type_synonym ('w, 'a) service = "'w \<Rightarrow> (app_error + 'a) \<times> 'w"

record 'w ephemeral_store =
  incr_with_ttl :: "string \<Rightarrow> int \<Rightarrow> ('w, int) store_call"
  es_get :: "string \<Rightarrow> ('w, string option) store_call"
  es_set_ex :: "string \<Rightarrow> string \<Rightarrow> int \<Rightarrow> ('w, unit) store_call"
  es_del :: "string \<Rightarrow> ('w, unit) store_call"
  es_getdel :: "string \<Rightarrow> ('w, string option) store_call"

definition bind_svc :: "('w, 'a) service \<Rightarrow> ('a \<Rightarrow> ('w, 'b) service) \<Rightarrow> ('w, 'b) service" where
  "bind_svc m f = (\<lambda>w. case m w of (Inl e, w') \<Rightarrow> (Inl e, w') | (Inr x, w') \<Rightarrow> f x w')"

definition return_svc :: "'a \<Rightarrow> ('w, 'a) service" where
  "return_svc x = (\<lambda>w. (Inr x, w))"

definition fail_svc :: "app_error \<Rightarrow> ('w, 'a) service" where
  "fail_svc e = (\<lambda>w. (Inl e, w))"

text \<open>The question mark on a store call: an adapter error becomes an internal error.\<close>

definition try_store :: "('w, 'a) store_call \<Rightarrow> ('w, 'a) service" where
  "try_store m = (\<lambda>w. case m w of (Inl e, w') \<Rightarrow> (Inl (Internal e), w') | (Inr x, w') \<Rightarrow> (Inr x, w'))"

definition of_option_svc :: "app_error \<Rightarrow> 'a option \<Rightarrow> ('w, 'a) service" where
  "of_option_svc e r = (case r of None \<Rightarrow> fail_svc e | Some x \<Rightarrow> return_svc x)"

lemma return_svc_run [simp]: "return_svc x w = (Inr x, w)"
  by (simp add: return_svc_def)

lemma fail_svc_run [simp]: "fail_svc e w = (Inl e, w)"
  by (simp add: fail_svc_def)

lemma of_option_svc_simps [simp]: "of_option_svc e None = fail_svc e" "of_option_svc e (Some x) = return_svc x"
  by (simp_all add: of_option_svc_def)

lemma bind_svc_ok [simp]: "m w = (Inr x, w') \<Longrightarrow> bind_svc m f w = f x w'"
  by (simp add: bind_svc_def)

lemma bind_svc_err [simp]: "m w = (Inl e, w') \<Longrightarrow> bind_svc m f w = (Inl e, w')"
  by (simp add: bind_svc_def)

lemma try_store_ok [simp]: "m w = (Inr x, w') \<Longrightarrow> try_store m w = (Inr x, w')"
  by (simp add: try_store_def)

lemma try_store_err [simp]: "m w = (Inl e, w') \<Longrightarrow> try_store m w = (Inl (Internal e), w')"
  by (simp add: try_store_def)

text \<open>
  The laws of a store that answers: \<open>view w\<close> is what is live in the world \<open>w\<close>. A count starts at one
  and goes up by one; a read changes nothing; a write, a deletion and the atomic take are what a map
  does.
\<close>

locale ephemeral =
  fixes store :: "'w ephemeral_store" and view :: "'w \<Rightarrow> string \<Rightarrow> string option"
  assumes incr_new: "view w k = None \<Longrightarrow> 0 < ttl \<Longrightarrow>
      \<exists>w'. incr_with_ttl store k ttl w = (Inr 1, w') \<and> view w' k = Some (show_int 1) \<and>
        (\<forall>j. j \<noteq> k \<longrightarrow> view w' j = view w j)"
    and incr_old: "view w k = Some v \<Longrightarrow> parse_i64 v = Some n \<Longrightarrow> in_i64 (n + 1) \<Longrightarrow>
      \<exists>w'. incr_with_ttl store k ttl w = (Inr (n + 1), w') \<and> view w' k = Some (show_int (n + 1)) \<and>
        (\<forall>j. j \<noteq> k \<longrightarrow> view w' j = view w j)"
    and get_view: "\<exists>w'. es_get store k w = (Inr (view w k), w') \<and> view w' = view w"
    and set_view: "0 < ttl \<Longrightarrow> \<exists>w'. es_set_ex store k v ttl w = (Inr (), w') \<and> view w' = (view w)(k \<mapsto> v)"
    and del_view: "\<exists>w'. es_del store k w = (Inr (), w') \<and> view w' = (view w)(k := None)"
    and getdel_view: "\<exists>w'. es_getdel store k w = (Inr (view w k), w') \<and> view w' = (view w)(k := None)"

section \<open>The in-memory adapter\<close>

record mem_store =
  ms_entries :: "string \<Rightarrow> (string \<times> instant) option"
  ms_now :: instant

definition mem_live :: "mem_store \<Rightarrow> mem_store" where
  "mem_live w = w\<lparr>ms_entries := (\<lambda>k. case ms_entries w k of
     None \<Rightarrow> None | Some (v, deadline) \<Rightarrow> if ms_now w < deadline then Some (v, deadline) else None)\<rparr>"

definition mem_put :: "string \<Rightarrow> (string \<times> instant) option \<Rightarrow> mem_store \<Rightarrow> mem_store" where
  "mem_put k e w = w\<lparr>ms_entries := (ms_entries w)(k := e)\<rparr>"

definition mem_incr :: "string \<Rightarrow> int \<Rightarrow> (mem_store, int) store_call" where
  "mem_incr k ttl w =
    (let s = mem_live w in
     case ms_entries s k of
       Some (v, deadline) \<Rightarrow>
         (case parse_i64 v of
            None \<Rightarrow> (Inl ''invalid digit found in string'', s)
          | Some n \<Rightarrow> let count = wrap64 (n + 1) in (Inr count, mem_put k (Some (show_int count, deadline)) s))
     | None \<Rightarrow> (Inr 1, mem_put k (Some (''1'', ms_now s + ttl * micros_per_second)) s))"

definition mem_get :: "string \<Rightarrow> (mem_store, string option) store_call" where
  "mem_get k w = (let s = mem_live w in (Inr (map_option fst (ms_entries s k)), s))"

definition mem_set_ex :: "string \<Rightarrow> string \<Rightarrow> int \<Rightarrow> (mem_store, unit) store_call" where
  "mem_set_ex k v ttl w =
    (let s = mem_live w in (Inr (), mem_put k (Some (v, ms_now s + ttl * micros_per_second)) s))"

definition mem_del :: "string \<Rightarrow> (mem_store, unit) store_call" where
  "mem_del k w = (Inr (), mem_put k None (mem_live w))"

definition mem_getdel :: "string \<Rightarrow> (mem_store, string option) store_call" where
  "mem_getdel k w =
    (let s = mem_live w in (Inr (map_option fst (ms_entries s k)), mem_put k None s))"

definition in_memory :: "mem_store ephemeral_store" where
  "in_memory = \<lparr>incr_with_ttl = mem_incr, es_get = mem_get, es_set_ex = mem_set_ex, es_del = mem_del,
     es_getdel = mem_getdel\<rparr>"

definition mem_view :: "mem_store \<Rightarrow> string \<Rightarrow> string option" where
  "mem_view w k = map_option fst (ms_entries (mem_live w) k)"

definition failing :: "'w ephemeral_store" where
  "failing = \<lparr>incr_with_ttl = (\<lambda>_ _ w. (Inl ''ephemeral store unavailable'', w)),
     es_get = (\<lambda>_ w. (Inl ''ephemeral store unavailable'', w)),
     es_set_ex = (\<lambda>_ _ _ w. (Inl ''ephemeral store unavailable'', w)),
     es_del = (\<lambda>_ w. (Inl ''ephemeral store unavailable'', w)),
     es_getdel = (\<lambda>_ w. (Inl ''ephemeral store unavailable'', w))\<rparr>"

definition wait :: "int \<Rightarrow> mem_store \<Rightarrow> mem_store" where
  "wait d w = w\<lparr>ms_now := ms_now w + d\<rparr>"

lemma mem_live_live [simp]: "mem_live (mem_live w) = mem_live w"
  by (auto simp: mem_live_def fun_eq_iff split: option.splits)

lemma mem_live_now [simp]: "ms_now (mem_live w) = ms_now w" "ms_now (mem_put k e w) = ms_now w"
  by (simp_all add: mem_live_def mem_put_def)

lemma mem_entries_put [simp]: "ms_entries (mem_put k e w) = (ms_entries w)(k := e)"
  by (simp add: mem_put_def)

lemma mem_view_put:
  "mem_view (mem_put k (Some (v, d)) w) j = (if j = k then if ms_now w < d then Some v else None else mem_view w j)"
  "mem_view (mem_put k None w) j = (if j = k then None else mem_view w j)"
  by (auto simp: mem_view_def mem_live_def mem_put_def split: option.split)

lemma mem_view_live [simp]: "mem_view (mem_live w) = mem_view w"
  by (simp add: mem_view_def fun_eq_iff)

lemma mem_live_deadline: "ms_entries (mem_live w) k = Some (v, d) \<longleftrightarrow> ms_entries w k = Some (v, d) \<and> ms_now w < d"
  by (auto simp: mem_live_def split: option.splits)

lemma show_one: "show_int 1 = ''1''"
  by code_simp

interpretation mem: ephemeral in_memory mem_view
proof
  fix w :: mem_store and k v :: string and ttl n :: int
  show "\<exists>w'. incr_with_ttl in_memory k ttl w = (Inr 1, w') \<and> mem_view w' k = Some (show_int 1) \<and>
      (\<forall>j. j \<noteq> k \<longrightarrow> mem_view w' j = mem_view w j)" if "mem_view w k = None" "0 < ttl"
  proof -
    have "ms_entries (mem_live w) k = None" using that by (simp add: mem_view_def)
    then show ?thesis using that(2) by (simp add: in_memory_def mem_incr_def Let_def mem_view_put show_one)
  qed
  show "\<exists>w'. incr_with_ttl in_memory k ttl w = (Inr (n + 1), w') \<and> mem_view w' k = Some (show_int (n + 1)) \<and>
      (\<forall>j. j \<noteq> k \<longrightarrow> mem_view w' j = mem_view w j)"
    if v: "mem_view w k = Some v" "parse_i64 v = Some n" "in_i64 (n + 1)"
  proof -
    obtain d where d: "ms_entries (mem_live w) k = Some (v, d)" using v(1) by (auto simp: mem_view_def)
    then have "ms_now w < d" by (simp add: mem_live_deadline)
    then show ?thesis using d v(2,3)
      by (simp add: in_memory_def mem_incr_def Let_def mem_view_put wrap64_id)
  qed
  show "\<exists>w'. es_get in_memory k w = (Inr (mem_view w k), w') \<and> mem_view w' = mem_view w"
    by (simp add: in_memory_def mem_get_def Let_def mem_view_def [of w k])
  show "\<exists>w'. es_set_ex in_memory k v ttl w = (Inr (), w') \<and> mem_view w' = (mem_view w)(k \<mapsto> v)" if "0 < ttl"
    using that by (simp add: in_memory_def mem_set_ex_def Let_def fun_eq_iff mem_view_put)
  show "\<exists>w'. es_del in_memory k w = (Inr (), w') \<and> mem_view w' = (mem_view w)(k := None)"
    by (simp add: in_memory_def mem_del_def fun_eq_iff mem_view_put)
  show "\<exists>w'. es_getdel in_memory k w = (Inr (mem_view w k), w') \<and> mem_view w' = (mem_view w)(k := None)"
    by (simp add: in_memory_def mem_getdel_def Let_def fun_eq_iff mem_view_put mem_view_def [of w k])
qed

end
