(* ===== verification/Guards.thy ===== *)
theory Guards
  imports Ephemeral Schema
begin

text \<open>
  The guards of authentication kept in the ephemeral store: login lockout and password-reset quota
  (\<open>src/modules/auth/rate_limit.rs\<close>), the credential check (\<open>credentials.rs\<close>), one-time passwords
  (\<open>otp.rs\<close>), reset tokens (\<open>reset_tokens.rs\<close>) and the per-address buckets of
  \<open>src/middleware/rate_limit.rs\<close>. The store is an argument. Random codes and tokens, the JSON text of
  an OTP, the Argon2 check and the SMS gateway are arguments too.
\<close>

section \<open>Login lockout and reset quota\<close>

definition login_max_attempts :: int where "login_max_attempts = 10"
definition login_lockout_ttl :: int where "login_lockout_ttl = 900"
definition forgot_max_requests :: int where "forgot_max_requests = 3"
definition forgot_window_secs :: int where "forgot_window_secs = 3600"

definition login_fail_key :: "string \<Rightarrow> string" where
  "login_fail_key email = ''login_fail:'' @ email"

definition forgot_rate_key :: "string \<Rightarrow> string" where
  "forgot_rate_key email = ''forgot_rate:'' @ email"

definition login_locked_out :: "'w ephemeral_store \<Rightarrow> string \<Rightarrow> 'w \<Rightarrow> bool \<times> 'w" where
  "login_locked_out store email w =
    (case es_get store (login_fail_key email) w of
       (r, w') \<Rightarrow>
         (let failures = (case r of
              Inr (Some v) \<Rightarrow> (case parse_i64 v of Some n \<Rightarrow> n | None \<Rightarrow> 0)
            | _ \<Rightarrow> 0)
          in (failures \<ge> login_max_attempts, w')))"

definition record_login_failure :: "'w ephemeral_store \<Rightarrow> string \<Rightarrow> 'w \<Rightarrow> 'w" where
  "record_login_failure store email w = snd (incr_with_ttl store (login_fail_key email) login_lockout_ttl w)"

definition clear_login_failures :: "'w ephemeral_store \<Rightarrow> string \<Rightarrow> 'w \<Rightarrow> 'w" where
  "clear_login_failures store email w = snd (es_del store (login_fail_key email) w)"

definition forgot_allowed :: "'w ephemeral_store \<Rightarrow> string \<Rightarrow> 'w \<Rightarrow> bool \<times> 'w" where
  "forgot_allowed store email w =
    (case incr_with_ttl store (forgot_rate_key email) forgot_window_secs w of
       (r, w') \<Rightarrow> ((case r of Inr n \<Rightarrow> n | Inl _ \<Rightarrow> 0) \<le> forgot_max_requests, w'))"

section \<open>Credential check\<close>

datatype verdict = Accept user | Reject bool

definition judge :: "user option \<Rightarrow> bool \<Rightarrow> verdict" where
  "judge user matched =
    (case user of
       None \<Rightarrow> Reject True
     | Some u \<Rightarrow>
         if u_password_hash u = None then Reject True
         else if \<not> matched then Reject True
         else if \<not> u_is_active u then Reject False
         else Accept u)"

text \<open>\<open>argon2 password hash\<close> is the library's check of a parsed hash; no hash verifies as false.\<close>

definition verify_password ::
  "(string \<Rightarrow> string \<Rightarrow> string + bool) \<Rightarrow> string \<Rightarrow> string \<Rightarrow> string option \<Rightarrow> string + bool" where
  "verify_password argon2 dummy_hash password hash =
    (let (h, force_false) = (case hash of Some h \<Rightarrow> (h, False) | None \<Rightarrow> (dummy_hash, True)) in
     case argon2 password h of Inl e \<Rightarrow> Inl e | Inr matched \<Rightarrow> Inr (matched \<and> \<not> force_false))"

definition verify_credentials ::
  "(string \<Rightarrow> string \<Rightarrow> string + bool) \<Rightarrow> string \<Rightarrow> (string \<Rightarrow> sqlx_error + user option) \<Rightarrow>
    'w ephemeral_store \<Rightarrow> string \<Rightarrow> string \<Rightarrow> ('w, user) service" where
  "verify_credentials argon2 dummy_hash find_user store email password w =
    (case login_locked_out store email w of
       (True, w1) \<Rightarrow> (Inl Unauthorized, w1)
     | (False, w1) \<Rightarrow>
         (case find_user email of
            Inl e \<Rightarrow> (Inl (Database e), w1)
          | Inr user \<Rightarrow>
              (case verify_password argon2 dummy_hash password (Option.bind user u_password_hash) of
                 Inl e \<Rightarrow> (Inl (Internal (''password verify error: '' @ e)), w1)
               | Inr matched \<Rightarrow>
                   (case judge user matched of
                      Reject counts \<Rightarrow>
                        (Inl Unauthorized, if counts then record_login_failure store email w1 else w1)
                    | Accept u \<Rightarrow> (Inr u, clear_login_failures store email w1)))))"

section \<open>One-time passwords\<close>

definition otp_requests_per_hour :: int where "otp_requests_per_hour = 3"
definition otp_max_attempts :: int where "otp_max_attempts = 5"
definition otp_ttl_seconds :: int where "otp_ttl_seconds = 300"
definition otp_rate_limit_ttl :: int where "otp_rate_limit_ttl = 3600"

definition otp_rate_key :: "uuid \<Rightarrow> string" where "otp_rate_key u = ''otp_rate:'' @ show_nat u"
definition otp_key :: "uuid \<Rightarrow> string" where "otp_key u = ''otp:'' @ show_nat u"
definition attempts_key :: "uuid \<Rightarrow> string" where "attempts_key u = ''otp_attempts:'' @ show_nat u"

text \<open>
  The JSON text of an OTP: a codec of phone and code. Fields that are missing or no strings read as
  empty, which is part of the decoder; \<open>None\<close> is text that is not JSON.
\<close>

record otp_json =
  oj_write :: "string \<Rightarrow> string \<Rightarrow> string"
  oj_read :: "string \<Rightarrow> (string \<times> string) option"

record otp_verify_request =
  ov_phone :: string
  ov_code :: string

definition send_otp ::
  "otp_json \<Rightarrow> (string \<Rightarrow> string \<Rightarrow> app_error + unit) \<Rightarrow> string \<Rightarrow>
    'w ephemeral_store \<Rightarrow> uuid \<Rightarrow> string \<Rightarrow> ('w, string) service" where
  "send_otp json sms code store u phone =
    bind_svc (try_store (incr_with_ttl store (otp_rate_key u) otp_rate_limit_ttl)) (\<lambda>n.
    if n > otp_requests_per_hour
    then fail_svc (BadRequest ''too many verification requests, try again later'')
    else
      bind_svc (try_store (es_set_ex store (otp_key u) (oj_write json phone code) otp_ttl_seconds)) (\<lambda>_.
      bind_svc (try_store (es_del store (attempts_key u))) (\<lambda>_.
      case sms phone code of
        Inl e \<Rightarrow> fail_svc e
      | Inr _ \<Rightarrow> return_svc ''verification code sent'')))"

datatype otp_proof = OtpProof (proof_user: uuid)

definition invalid_code :: app_error where
  "invalid_code = BadRequest ''invalid verification code''"

definition check_otp ::
  "otp_json \<Rightarrow> 'w ephemeral_store \<Rightarrow> uuid \<Rightarrow> otp_verify_request \<Rightarrow> ('w, otp_proof) service" where
  "check_otp json store u req =
    bind_svc (try_store (incr_with_ttl store (attempts_key u) otp_ttl_seconds)) (\<lambda>attempts.
    if attempts > otp_max_attempts
    then bind_svc (try_store (es_del store (otp_key u))) (\<lambda>_.
         fail_svc (BadRequest ''too many attempts, request a new code''))
    else
      bind_svc (try_store (es_get store (otp_key u))) (\<lambda>r.
      bind_svc (of_option_svc (BadRequest ''verification code expired'') r) (\<lambda>stored.
      bind_svc (of_option_svc (Internal ''otp payload corrupted'') (oj_read json stored)) (\<lambda>payload.
      if fst payload \<noteq> ov_phone req then fail_svc invalid_code
      else if snd payload \<noteq> ov_code req then fail_svc invalid_code
      else return_svc (OtpProof u)))))"

definition consume_otp :: "'w ephemeral_store \<Rightarrow> otp_proof \<Rightarrow> ('w, unit) service" where
  "consume_otp store p =
    bind_svc (try_store (es_del store (otp_key (proof_user p)))) (\<lambda>_.
    try_store (es_del store (attempts_key (proof_user p))))"

section \<open>Reset tokens\<close>

definition password_reset_ttl_seconds :: int where "password_reset_ttl_seconds = 900"

definition token_key :: "string \<Rightarrow> string" where "token_key t = ''password_reset:'' @ t"
definition index_key :: "uuid \<Rightarrow> string" where "index_key u = ''password_reset_current:'' @ show_nat u"

definition issue_reset :: "string \<Rightarrow> 'w ephemeral_store \<Rightarrow> uuid \<Rightarrow> ('w, string) service" where
  "issue_reset token store u =
    bind_svc (try_store (es_get store (index_key u))) (\<lambda>previous.
    bind_svc (case previous of None \<Rightarrow> return_svc () | Some p \<Rightarrow> try_store (es_del store (token_key p))) (\<lambda>_.
    bind_svc (try_store (es_set_ex store (token_key token) (show_nat u) password_reset_ttl_seconds)) (\<lambda>_.
    bind_svc (try_store (es_set_ex store (index_key u) token password_reset_ttl_seconds)) (\<lambda>_.
    return_svc token))))"

definition consume_reset :: "'w ephemeral_store \<Rightarrow> string \<Rightarrow> ('w, uuid) service" where
  "consume_reset store token =
    bind_svc (try_store (es_getdel store (token_key token))) (\<lambda>r.
    bind_svc (of_option_svc (BadRequest ''invalid or expired token'') r) (\<lambda>text.
    bind_svc (of_option_svc (Internal ''invalid user_id in reset token'') (parse_nat text)) (\<lambda>u.
    bind_svc (try_store (es_del store (index_key u))) (\<lambda>_. return_svc u))))"

section \<open>Request buckets\<close>

definition window_seconds :: int where "window_seconds = 60"
definition global_max_requests :: int where "global_max_requests = 300"
definition auth_window_seconds :: int where "auth_window_seconds = 60"
definition auth_max_requests :: int where "auth_max_requests = 10"

definition bump_global :: "'w ephemeral_store \<Rightarrow> string \<Rightarrow> ('w, int) store_call" where
  "bump_global store identity = incr_with_ttl store (''rate_limit:global:'' @ identity) window_seconds"

definition bump_auth :: "'w ephemeral_store \<Rightarrow> string \<Rightarrow> ('w, int) store_call" where
  "bump_auth store identity = incr_with_ttl store (''rate_limit:auth:'' @ identity) auth_window_seconds"

text \<open>What a bucket answers before the request goes on: a refusal with its status, or nothing.\<close>

definition gate_request :: "int \<Rightarrow> ('w, int) store_call \<Rightarrow> 'w \<Rightarrow> (nat \<times> string) option \<times> 'w" where
  "gate_request limit bump w =
    (case bump w of
       (Inl e, w') \<Rightarrow> (Some (500, ''internal server error''), w')
     | (Inr n, w') \<Rightarrow> ((if n > limit then Some (429, ''too many requests'') else None), w'))"

definition rate_limit_middleware :: "'w ephemeral_store \<Rightarrow> string \<Rightarrow> 'w \<Rightarrow> (nat \<times> string) option \<times> 'w" where
  "rate_limit_middleware store identity = gate_request global_max_requests (bump_global store identity)"

definition strict_rate_limit :: "'w ephemeral_store \<Rightarrow> string \<Rightarrow> 'w \<Rightarrow> (nat \<times> string) option \<times> 'w" where
  "strict_rate_limit store identity = gate_request auth_max_requests (bump_auth store identity)"

section \<open>An issued code survives five guesses\<close>

lemma otp_keys_distinct [simp]:
  "otp_key u \<noteq> attempts_key v" "attempts_key v \<noteq> otp_key u" "otp_rate_key v \<noteq> otp_key u"
  "otp_key u \<noteq> otp_rate_key v" "otp_rate_key v \<noteq> attempts_key u" "attempts_key u \<noteq> otp_rate_key v"
  by (simp_all add: otp_key_def attempts_key_def otp_rate_key_def)

lemma show_one_nat: "''1'' = show_int (int (Suc 0))"
  using show_one by simp

text \<open>The clock, the client and the service acting on the user's code, in any order.\<close>

datatype otp_event = Attempt otp_verify_request | Consumed | Waited int

definition compared :: "app_error + otp_proof \<Rightarrow> bool" where
  "compared r = (case r of Inr _ \<Rightarrow> True | Inl e \<Rightarrow> e = invalid_code)"

primrec guesses :: "otp_json \<Rightarrow> uuid \<Rightarrow> otp_event list \<Rightarrow> mem_store \<Rightarrow> nat" where
  "guesses json u [] w = 0"
| "guesses json u (e # es) w =
    (case e of
       Attempt req \<Rightarrow> (case check_otp json in_memory u req w of
           (r, w') \<Rightarrow> (if compared r then 1 else 0) + guesses json u es w')
     | Consumed \<Rightarrow> guesses json u es (snd (consume_otp in_memory (OtpProof u) w))
     | Waited d \<Rightarrow> guesses json u es (wait d w))"

definition waits_forward :: "otp_event list \<Rightarrow> bool" where
  "waits_forward es = list_all (\<lambda>e. case e of Waited d \<Rightarrow> 0 \<le> d | _ \<Rightarrow> True) es"

definition otp_dead :: "uuid \<Rightarrow> mem_store \<Rightarrow> bool" where
  "otp_dead u w = (ms_entries (mem_live w) (otp_key u) = None)"

lemma dead_wait: "otp_dead u w \<Longrightarrow> 0 \<le> d \<Longrightarrow> otp_dead u (wait d w)"
  by (auto simp: otp_dead_def mem_live_def wait_def split: option.splits if_splits)

lemma mem_incr_entries:
  "mem_incr k ttl w = (r, w') \<Longrightarrow> j \<noteq> k \<Longrightarrow> ms_entries w' j = ms_entries (mem_live w) j"
  "mem_incr k ttl w = (r, w') \<Longrightarrow> ms_now w' = ms_now w"
  by (auto simp: mem_incr_def Let_def split: option.splits)

lemma mem_live_eq: "ms_entries (mem_live w) k = (case ms_entries w k of None \<Rightarrow> None
    | Some (v, deadline) \<Rightarrow> if ms_now w < deadline then Some (v, deadline) else None)"
  by (simp add: mem_live_def)

lemma check_otp_dead:
  assumes "otp_dead u w" "check_otp json in_memory u req w = (r, w')"
  shows "\<not> compared r \<and> otp_dead u w'"
proof -
  obtain c w1 where i: "mem_incr (attempts_key u) otp_ttl_seconds w = (c, w1)" by (cases "mem_incr (attempts_key u) otp_ttl_seconds w")
  have dead: "ms_entries (mem_live w1) (otp_key u) = None"
    using mem_incr_entries(1) [OF i, of "otp_key u"] assms(1) by (simp add: otp_dead_def mem_live_eq [of w1])
  show ?thesis
    using assms(2) i dead
    by (cases c) (auto simp: check_otp_def in_memory_def bind_svc_def try_store_def mem_del_def mem_get_def Let_def
        otp_dead_def compared_def invalid_code_def mem_live_eq mem_put_def split: if_splits)
qed

lemma consumed_dead: "otp_dead u (snd (consume_otp in_memory (OtpProof u) w))"
  by (simp add: otp_dead_def consume_otp_def in_memory_def bind_svc_def try_store_def mem_del_def mem_live_eq mem_put_def)

lemma guesses_dead: "otp_dead u w \<Longrightarrow> waits_forward es \<Longrightarrow> guesses json u es w = 0"
proof (induction es arbitrary: w)
  case (Cons e es)
  then show ?case
    using check_otp_dead [of u w json] dead_wait [of u w] consumed_dead [of u w]
    by (cases e) (auto simp: waits_forward_def split: prod.splits)
qed simp

definition otp_span :: int where "otp_span = otp_ttl_seconds * micros_per_second"

text \<open>
  While the code is live, its deadline is at most a lifetime away and the attempts made on it are
  counted in an entry that outlives it.
\<close>

definition otp_counted :: "uuid \<Rightarrow> nat \<Rightarrow> mem_store \<Rightarrow> bool" where
  "otp_counted u n w = (n \<le> 5 \<and> (\<forall>v D. ms_entries w (otp_key u) = Some (v, D) \<and> ms_now w < D \<longrightarrow>
     D \<le> ms_now w + otp_span \<and>
     ((n = 0 \<and> ms_entries (mem_live w) (attempts_key u) = None) \<or>
      (\<exists>A. ms_entries w (attempts_key u) = Some (show_int (int n), A) \<and> D \<le> A))))"

lemma counted_wait: "otp_counted u n w \<Longrightarrow> 0 \<le> d \<Longrightarrow> otp_counted u n (wait d w)"
  by (fastforce simp: otp_counted_def wait_def mem_live_eq split: option.splits if_splits)

lemma counted_dead: "otp_dead u w \<Longrightarrow> n \<le> 5 \<Longrightarrow> otp_counted u n w"
  by (auto simp: otp_counted_def otp_dead_def mem_live_eq split: option.splits if_splits)

lemma otp_live_entry: "\<not> otp_dead u w \<longleftrightarrow> (\<exists>v D. ms_entries w (otp_key u) = Some (v, D) \<and> ms_now w < D)"
  by (auto simp: otp_dead_def mem_live_eq split: option.splits if_splits)

lemma incr_counted:
  assumes "otp_counted u n w" "ms_entries w (otp_key u) = Some (v, D)" "ms_now w < D"
  obtains A where "mem_incr (attempts_key u) otp_ttl_seconds w =
      (Inr (int n + 1), mem_put (attempts_key u) (Some (show_int (int (Suc n)), A)) (mem_live w))" "D \<le> A"
proof -
  have n: "n \<le> 5" and D: "D \<le> ms_now w + otp_span"
    and a: "(n = 0 \<and> ms_entries (mem_live w) (attempts_key u) = None) \<or>
      (\<exists>A. ms_entries w (attempts_key u) = Some (show_int (int n), A) \<and> D \<le> A)"
    using assms unfolding otp_counted_def by blast+
  from a show thesis
  proof
    assume "n = 0 \<and> ms_entries (mem_live w) (attempts_key u) = None"
    then show thesis using D
      by (intro that [of "ms_now w + otp_span"]) (simp_all add: mem_incr_def Let_def otp_span_def show_one)
  next
    assume "\<exists>A. ms_entries w (attempts_key u) = Some (show_int (int n), A) \<and> D \<le> A"
    then obtain A where A: "ms_entries w (attempts_key u) = Some (show_int (int n), A)" "D \<le> A" by blast
    then have "ms_entries (mem_live w) (attempts_key u) = Some (show_int (int n), A)"
      using assms(3) by (simp add: mem_live_deadline)
    moreover have "parse_i64 (show_int (int n)) = Some (int n)" using n by (intro parse_show_int) (simp_all add: in_i64_def)
    moreover have "wrap64 (int n + 1) = int n + 1" using n by (simp add: wrap64_id in_i64_def)
    ultimately show thesis using A by (intro that [of A]) (simp_all add: mem_incr_def Let_def add.commute)
  qed
qed

lemma check_otp_live:
  assumes cnt: "otp_counted u n w" and live: "\<not> otp_dead u w"
    and run: "check_otp json in_memory u req w = (r, w')"
  shows "(n = 5 \<longrightarrow> \<not> compared r \<and> otp_dead u w') \<and> (n < 5 \<longrightarrow> otp_counted u (Suc n) w')"
proof -
  obtain v D where e: "ms_entries w (otp_key u) = Some (v, D)" "ms_now w < D"
    using live by (auto simp: otp_live_entry)
  obtain A where i: "mem_incr (attempts_key u) otp_ttl_seconds w =
      (Inr (int n + 1), mem_put (attempts_key u) (Some (show_int (int (Suc n)), A)) (mem_live w))" and A: "D \<le> A"
    using cnt e by (rule incr_counted)
  let ?w1 = "mem_put (attempts_key u) (Some (show_int (int (Suc n)), A)) (mem_live w)"
  have D: "D \<le> ms_now w + otp_span" using cnt e unfolding otp_counted_def by blast
  show ?thesis
  proof (cases "n = 5")
    case True
    then show ?thesis using run i
      by (auto simp: check_otp_def in_memory_def bind_svc_def try_store_def mem_del_def otp_max_attempts_def
          compared_def invalid_code_def otp_dead_def mem_live_eq mem_put_def)
  next
    case False
    then have n: "n < 5" using cnt by (simp add: otp_counted_def)
    then have "w' = mem_live ?w1"
      using run i
      by (auto simp: check_otp_def in_memory_def bind_svc_def try_store_def mem_get_def otp_max_attempts_def Let_def
          of_option_svc_def fail_svc_def return_svc_def split: option.splits if_splits prod.splits)
    then have "otp_counted u (Suc n) w'"
      using e A D n by (auto simp: otp_counted_def mem_live_eq mem_put_def split: if_splits)
    then show ?thesis using False by simp
  qed
qed

lemma guesses_counted: "otp_counted u n w \<Longrightarrow> waits_forward es \<Longrightarrow> guesses json u es w \<le> 5 - n"
proof (induction es arbitrary: w n)
  case (Cons e es)
  note n5 = Cons.prems(1)[unfolded otp_counted_def, THEN conjunct1]
  have fwd: "waits_forward es" using Cons.prems(2) by (simp add: waits_forward_def)
  show ?case
  proof (cases e)
    case (Attempt req)
    obtain r w' where run: "check_otp json in_memory u req w = (r, w')" by (cases "check_otp json in_memory u req w")
    show ?thesis
    proof (cases "otp_dead u w")
      case True
      then show ?thesis using guesses_dead [OF True Cons.prems(2)] by simp
    next
      case False
      note step = check_otp_live [OF Cons.prems(1) False run]
      show ?thesis
      proof (cases "n = 5")
        case True
        then show ?thesis using step guesses_dead [OF _ fwd] Attempt run by simp
      next
        case False
        then have "otp_counted u (Suc n) w'" using step n5 by simp
        then have "guesses json u es w' \<le> 5 - Suc n" using fwd by (rule Cons.IH)
        then show ?thesis using False n5 Attempt run by (simp, arith)
      qed
    qed
  next
    case Consumed
    then show ?thesis using guesses_dead [OF consumed_dead fwd] by simp
  next
    case (Waited d)
    then show ?thesis using Cons counted_wait fwd by (simp add: waits_forward_def)
  qed
qed simp

text \<open>
  C37. A one-time password survives at most five guesses: whatever codes are tried after it was sent,
  at whatever times and with whatever waiting in between, at most five of the attempts are compared
  with it; the counter outlives the code, so waiting does not buy more.
\<close>

theorem otp_five_guesses:
  assumes "send_otp json sms code in_memory u phone w\<^sub>0 = (Inr msg, w)" and "waits_forward es"
  shows "guesses json u es w \<le> 5"
proof -
  have "otp_counted u 0 w"
    using assms(1)
    by (auto simp: send_otp_def in_memory_def bind_svc_def try_store_def mem_set_ex_def mem_del_def Let_def
        otp_counted_def mem_live_eq mem_put_def otp_span_def fail_svc_def return_svc_def
        split: if_splits prod.splits sum.splits)
  from guesses_counted [OF this assms(2)] show ?thesis by simp
qed

definition plain_json :: otp_json where
  "plain_json = \<lparr>oj_write = (\<lambda>phone code. phone @ ''|'' @ code),
     oj_read = (\<lambda>text. Some (takeWhile (\<lambda>c. c \<noteq> CHR ''|'') text, tl (dropWhile (\<lambda>c. c \<noteq> CHR ''|'') text)))\<rparr>"

definition fresh_store :: mem_store where
  "fresh_store = \<lparr>ms_entries = (\<lambda>_. None), ms_now = 0\<rparr>"

definition attempt_of :: "string \<Rightarrow> otp_event" where
  "attempt_of code = Attempt \<lparr>ov_phone = ''0912'', ov_code = code\<rparr>"

definition sent_store :: mem_store where
  "sent_store = snd (send_otp plain_json (\<lambda>_ _. Inr ()) ''482913'' in_memory 7 ''0912'' fresh_store)"

lemma otp_five_guesses_witness:
  "guesses plain_json 7 (replicate 9 (attempt_of ''000000'') @ [Waited 1, attempt_of ''482913'']) sent_store \<le> 5 \<and>
   guesses plain_json 7 [Waited 1, attempt_of ''482913''] sent_store = 1"
proof -
  have run: "send_otp plain_json (\<lambda>_ _. Inr ()) ''482913'' in_memory 7 ''0912'' fresh_store =
      (Inr ''verification code sent'', sent_store)"
    unfolding sent_store_def by (rule prod_eqI) (code_simp, simp)
  have "waits_forward (replicate 9 (attempt_of ''000000'') @ [Waited 1, attempt_of ''482913''])" by code_simp
  note otp_five_guesses [OF run this]
  moreover have "guesses plain_json 7 [Waited 1, attempt_of ''482913''] sent_store = 1" by code_simp
  ultimately show ?thesis by blast
qed

section \<open>A sent code verifies\<close>

text \<open>The codec reads back what it writes: the documented behaviour of a JSON library on two strings.\<close>

definition json_faithful :: "otp_json \<Rightarrow> bool" where
  "json_faithful json = (\<forall>phone code. oj_read json (oj_write json phone code) = Some (phone, code))"

text \<open>
  C38. What was sent verifies: after a successful send, an attempt before the code expires, for the phone
  it was sent to and with the code, is accepted and leaves the code usable until it is consumed;
  another phone or another code is refused; and once consumed the code is gone.
\<close>

theorem otp_roundtrip:
  assumes json: "json_faithful json"
    and sent: "send_otp json sms code in_memory u phone w\<^sub>0 = (Inr msg, w)"
    and time: "0 \<le> d" "d < otp_ttl_seconds * micros_per_second"
  shows "\<exists>w'. check_otp json in_memory u req (wait d w) =
      (if ov_phone req = phone \<and> ov_code req = code then Inr (OtpProof u) else Inl invalid_code, w') \<and>
    mem_view w' (otp_key u) = Some (oj_write json phone code) \<and>
    mem_view (snd (consume_otp in_memory (OtpProof u) w')) (otp_key u) = None"
proof -
  let ?v = "oj_write json phone code"
  have w: "ms_entries w (otp_key u) = Some (?v, ms_now w + otp_span)" "ms_entries w (attempts_key u) = None"
    using sent
    by (auto simp: send_otp_def in_memory_def bind_svc_def try_store_def mem_set_ex_def mem_del_def Let_def
        mem_live_eq mem_put_def otp_span_def otp_ttl_seconds_def fail_svc_def return_svc_def
        split: if_splits prod.splits sum.splits)
  let ?w0 = "wait d w"
  have live: "ms_entries (mem_live ?w0) (otp_key u) = Some (?v, ms_now w + otp_span)"
    "ms_entries (mem_live ?w0) (attempts_key u) = None"
    using w time by (simp_all add: mem_live_eq wait_def otp_span_def)
  define w1 where "w1 = mem_put (attempts_key u) (Some (''1'', ms_now ?w0 + otp_span)) (mem_live ?w0)"
  have i: "mem_incr (attempts_key u) otp_ttl_seconds ?w0 = (Inr 1, w1)"
    using live(2) by (simp add: mem_incr_def Let_def w1_def otp_span_def)
  have e1: "ms_entries (mem_live w1) (otp_key u) = Some (?v, ms_now w + otp_span)"
    using live(1) by (simp add: w1_def mem_live_deadline)
  have g: "mem_get (otp_key u) w1 = (Inr (Some ?v), mem_live w1)" by (simp add: mem_get_def Let_def e1)
  have read: "oj_read json ?v = Some (phone, code)" using json by (simp add: json_faithful_def)
  have check: "check_otp json in_memory u req ?w0 =
      (if ov_phone req = phone \<and> ov_code req = code then Inr (OtpProof u) else Inl invalid_code, mem_live w1)"
    by (auto simp: check_otp_def in_memory_def bind_svc_def try_store_def i g read otp_max_attempts_def)
  have "mem_view (mem_live w1) (otp_key u) = Some ?v" by (simp add: mem_view_def e1)
  moreover have "mem_view (snd (consume_otp in_memory (OtpProof u) (mem_live w1))) (otp_key u) = None"
    using consumed_dead by (simp add: otp_dead_def mem_view_def)
  ultimately show ?thesis using check by blast
qed

text \<open>A faithful codec for the concrete runs: the phone's length in unary before the two texts.\<close>

definition unary_json :: otp_json where
  "unary_json = \<lparr>oj_write = (\<lambda>phone code. replicate (length phone) (CHR ''x'') @ ''|'' @ phone @ code),
     oj_read = (\<lambda>text. let n = length (takeWhile (\<lambda>c. c = CHR ''x'') text); rest = drop (Suc n) text
       in Some (take n rest, drop n rest))\<rparr>"

lemma unary_json_faithful: "json_faithful unary_json"
proof -
  have "takeWhile (\<lambda>c. c = CHR ''x'') (replicate n (CHR ''x'') @ CHR ''|'' # ys) = replicate n (CHR ''x'')" for n ys
    by (induction n) simp_all
  then show ?thesis by (simp add: json_faithful_def unary_json_def Let_def)
qed

lemma otp_roundtrip_witness:
  "\<exists>w w'. send_otp unary_json (\<lambda>_ _. Inr ()) ''482913'' in_memory 7 ''0912'' fresh_store =
      (Inr ''verification code sent'', w) \<and>
    check_otp unary_json in_memory 7 \<lparr>ov_phone = ''0912'', ov_code = ''482913''\<rparr> (wait 299000000 w) = (Inr (OtpProof 7), w')"
proof -
  have "fst (send_otp unary_json (\<lambda>_ _. Inr ()) ''482913'' in_memory 7 ''0912'' fresh_store) =
      Inr ''verification code sent''" by code_simp
  then obtain w where sent: "send_otp unary_json (\<lambda>_ _. Inr ()) ''482913'' in_memory 7 ''0912'' fresh_store =
      (Inr ''verification code sent'', w)" by (metis prod.collapse)
  have "(0::int) \<le> 299000000" "299000000 < otp_ttl_seconds * micros_per_second" by (simp_all add: otp_ttl_seconds_def)
  from otp_roundtrip [OF unary_json_faithful sent this, of "\<lparr>ov_phone = ''0912'', ov_code = ''482913''\<rparr>"]
  show ?thesis using sent by auto
qed

section \<open>Reset tokens\<close>

lemma reset_keys [simp]:
  "token_key t = token_key t' \<longleftrightarrow> t = t'" "index_key u = index_key u' \<longleftrightarrow> u = u'"
  by (simp_all add: token_key_def index_key_def)

lemma reset_keys_apart [simp]: "token_key t \<noteq> index_key u" "index_key u \<noteq> token_key t"
  by (simp_all add: token_key_def index_key_def)

context ephemeral
begin

lemma svc_get: "\<exists>w'. try_store (es_get store k) w = (Inr (view w k), w') \<and> view w' = view w"
  using get_view [of k w] by (auto simp: try_store_def)

lemma svc_set: "0 < ttl \<Longrightarrow> \<exists>w'. try_store (es_set_ex store k v ttl) w = (Inr (), w') \<and> view w' = (view w)(k \<mapsto> v)"
  using set_view [of ttl k v w] by (auto simp: try_store_def)

lemma svc_del: "\<exists>w'. try_store (es_del store k) w = (Inr (), w') \<and> view w' = (view w)(k := None)"
  using del_view [of k w] by (auto simp: try_store_def)

lemma svc_getdel: "\<exists>w'. try_store (es_getdel store k) w = (Inr (view w k), w') \<and> view w' = (view w)(k := None)"
  using getdel_view [of k w] by (auto simp: try_store_def)

lemma issue_reset_run:
  "\<exists>w'. issue_reset token store u w = (Inr token, w') \<and>
    view w' = (case view w (index_key u) of None \<Rightarrow> view w | Some p \<Rightarrow> (view w)(token_key p := None))
      (token_key token \<mapsto> show_nat u, index_key u \<mapsto> token)"
proof -
  obtain w1 where 1: "try_store (es_get store (index_key u)) w = (Inr (view w (index_key u)), w1)" "view w1 = view w"
    using svc_get by blast
  define d where "d = (case view w (index_key u) of None \<Rightarrow> return_svc () | Some p \<Rightarrow> try_store (es_del store (token_key p)))"
  obtain w2 where 2: "d w1 = (Inr (), w2)"
    "view w2 = (case view w (index_key u) of None \<Rightarrow> view w | Some p \<Rightarrow> (view w)(token_key p := None))"
    using svc_del [of "token_key p" w1 for p] 1(2) by (cases "view w (index_key u)") (auto simp: d_def)
  obtain w3 where 3: "try_store (es_set_ex store (token_key token) (show_nat u) password_reset_ttl_seconds) w2 = (Inr (), w3)"
    "view w3 = (view w2)(token_key token \<mapsto> show_nat u)"
    using svc_set by (metis password_reset_ttl_seconds_def zero_less_numeral)
  obtain w4 where 4: "try_store (es_set_ex store (index_key u) token password_reset_ttl_seconds) w3 = (Inr (), w4)"
    "view w4 = (view w3)(index_key u \<mapsto> token)"
    using svc_set by (metis password_reset_ttl_seconds_def zero_less_numeral)
  show ?thesis using 1 2 3 4 by (simp add: issue_reset_def d_def)
qed

lemma consume_reset_run:
  "(view w (token_key t) = None \<longrightarrow>
     (\<exists>w'. consume_reset store t w = (Inl (BadRequest ''invalid or expired token''), w') \<and> view w' = view w)) \<and>
   (\<forall>u. view w (token_key t) = Some (show_nat u) \<longrightarrow>
     (\<exists>w'. consume_reset store t w = (Inr u, w') \<and> view w' = (view w)(token_key t := None, index_key u := None)))"
proof -
  obtain w1 where 1: "try_store (es_getdel store (token_key t)) w = (Inr (view w (token_key t)), w1)"
    "view w1 = (view w)(token_key t := None)" using svc_getdel by blast
  show ?thesis
  proof (intro conjI impI allI)
    assume none: "view w (token_key t) = None"
    then have "view w1 = view w" using 1(2) by auto
    then show "\<exists>w'. consume_reset store t w = (Inl (BadRequest ''invalid or expired token''), w') \<and> view w' = view w"
      using 1(1) none by (simp add: consume_reset_def)
  next
    fix u assume some: "view w (token_key t) = Some (show_nat u)"
    obtain w2 where "try_store (es_del store (index_key u)) w1 = (Inr (), w2)" "view w2 = (view w1)(index_key u := None)"
      using svc_del by blast
    then show "\<exists>w'. consume_reset store t w = (Inr u, w') \<and> view w' = (view w)(token_key t := None, index_key u := None)"
      using 1 some by (simp add: consume_reset_def)
  qed
qed

lemma reset_once:
  assumes "issue_reset t store u w = (Inr t, w1)"
  shows "fst (consume_reset store t w1) = Inr u \<and>
    fst (consume_reset store t (snd (consume_reset store t w1))) = Inl (BadRequest ''invalid or expired token'')"
proof -
  obtain w' where v: "issue_reset t store u w = (Inr t, w')" "view w' = (case view w (index_key u) of None \<Rightarrow> view w
      | Some p \<Rightarrow> (view w)(token_key p := None)) (token_key t \<mapsto> show_nat u, index_key u \<mapsto> t)"
    using issue_reset_run by blast
  then have "view w1 (token_key t) = Some (show_nat u)" using assms by (auto split: option.splits)
  then obtain w2 where 2: "consume_reset store t w1 = (Inr u, w2)" "view w2 = (view w1)(token_key t := None, index_key u := None)"
    using consume_reset_run by blast
  then have "view w2 (token_key t) = None" by simp
  then obtain w3 where "consume_reset store t w2 = (Inl (BadRequest ''invalid or expired token''), w3)"
    using consume_reset_run by blast
  then show ?thesis using 2 by simp
qed

lemma reset_supersedes:
  assumes "issue_reset t store u w = (Inr t, w1)" "issue_reset t' store u w1 = (Inr t', w2)" "t \<noteq> t'"
  shows "fst (consume_reset store t w2) = Inl (BadRequest ''invalid or expired token'')"
proof -
  obtain v1 where v1: "issue_reset t store u w = (Inr t, v1)" "view v1 = (case view w (index_key u) of None \<Rightarrow> view w
      | Some p \<Rightarrow> (view w)(token_key p := None)) (token_key t \<mapsto> show_nat u, index_key u \<mapsto> t)"
    using issue_reset_run by blast
  obtain v2 where v2: "issue_reset t' store u w1 = (Inr t', v2)" "view v2 = (case view w1 (index_key u) of None \<Rightarrow> view w1
      | Some p \<Rightarrow> (view w1)(token_key p := None)) (token_key t' \<mapsto> show_nat u, index_key u \<mapsto> t')"
    using issue_reset_run by blast
  have "view w1 (index_key u) = Some t" using v1 assms(1) by auto
  then have "view w2 (token_key t) = None" using v2 assms(2,3) by simp
  then have "\<exists>w'. consume_reset store t w2 = (Inl (BadRequest ''invalid or expired token''), w') \<and> view w' = view w2"
    using consume_reset_run by blast
  then show ?thesis by auto
qed

text \<open>The failure counter: what is counted is what the lockout reads.\<close>

definition failures :: "string \<Rightarrow> 'w \<Rightarrow> int" where
  "failures email w = (case view w (login_fail_key email) of None \<Rightarrow> 0
     | Some v \<Rightarrow> (case parse_i64 v of Some n \<Rightarrow> n | None \<Rightarrow> 0))"

definition counter_ok :: "string \<Rightarrow> 'w \<Rightarrow> bool" where
  "counter_ok email w = (\<exists>n. 0 \<le> n \<and> n \<le> 1000000 \<and> failures email w = n \<and>
     (view w (login_fail_key email) = None \<or> view w (login_fail_key email) = Some (show_int n)))"

lemma locked_out_run:
  "\<exists>w'. login_locked_out store email w = (failures email w \<ge> login_max_attempts, w') \<and> view w' = view w"
proof -
  obtain w' where "es_get store (login_fail_key email) w = (Inr (view w (login_fail_key email)), w')" "view w' = view w"
    using get_view by blast
  then show ?thesis by (auto simp: login_locked_out_def failures_def Let_def split: option.split)
qed

lemma record_failure_run:
  assumes "counter_ok email w" "failures email w < 1000000"
  shows "failures email (record_login_failure store email w) = failures email w + 1 \<and>
    counter_ok email (record_login_failure store email w)"
proof -
  obtain n where n: "0 \<le> n" "n \<le> 1000000" "failures email w = n"
    "view w (login_fail_key email) = None \<or> view w (login_fail_key email) = Some (show_int n)"
    using assms(1) unfolding counter_ok_def by blast
  have "\<exists>w'. incr_with_ttl store (login_fail_key email) login_lockout_ttl w = (Inr (n + 1), w') \<and>
      view w' (login_fail_key email) = Some (show_int (n + 1))"
    using n(4)
  proof
    assume none: "view w (login_fail_key email) = None"
    then have "n = 0" using n(3) by (simp add: failures_def)
    then show ?thesis using incr_new [OF none, of login_lockout_ttl] by (auto simp: login_lockout_ttl_def)
  next
    assume some: "view w (login_fail_key email) = Some (show_int n)"
    have "parse_i64 (show_int n) = Some n" "in_i64 (n + 1)" using n(1,2) by (simp_all add: parse_show_int in_i64_def)
    from incr_old [OF some this] show ?thesis by blast
  qed
  then have v: "view (record_login_failure store email w) (login_fail_key email) = Some (show_int (n + 1))"
    by (auto simp: record_login_failure_def)
  have "parse_i64 (show_int (n + 1)) = Some (n + 1)" using n(1,2) by (simp add: parse_show_int in_i64_def)
  then have "failures email (record_login_failure store email w) = n + 1" by (simp add: failures_def v)
  then show ?thesis using n assms(2) v by (auto simp: counter_ok_def)
qed

end



section \<open>Lockout\<close>

text \<open>A password that is refused and counted, and one that is accepted, for the account at hand.\<close>

definition refused_by ::
  "(string \<Rightarrow> string \<Rightarrow> string + bool) \<Rightarrow> string \<Rightarrow> user option \<Rightarrow> string \<Rightarrow> bool" where
  "refused_by argon2 dummy user p = (case verify_password argon2 dummy p (Option.bind user u_password_hash) of
     Inl _ \<Rightarrow> False | Inr m \<Rightarrow> judge user m = Reject True)"

definition accepted_by ::
  "(string \<Rightarrow> string \<Rightarrow> string + bool) \<Rightarrow> string \<Rightarrow> user option \<Rightarrow> string \<Rightarrow> user \<Rightarrow> bool" where
  "accepted_by argon2 dummy user p u = (case verify_password argon2 dummy p (Option.bind user u_password_hash) of
     Inl _ \<Rightarrow> False | Inr m \<Rightarrow> judge user m = Accept u)"

primrec logins ::
  "(string \<Rightarrow> string \<Rightarrow> string + bool) \<Rightarrow> string \<Rightarrow> (string \<Rightarrow> sqlx_error + user option) \<Rightarrow>
    'w ephemeral_store \<Rightarrow> string \<Rightarrow> string list \<Rightarrow> 'w \<Rightarrow> 'w" where
  "logins argon2 dummy lookup store email [] w = w"
| "logins argon2 dummy lookup store email (p # ps) w =
    logins argon2 dummy lookup store email ps (snd (verify_credentials argon2 dummy lookup store email p w))"

context ephemeral
begin

lemma counter_view: "view w' = view w \<Longrightarrow> failures email w' = failures email w \<and> counter_ok email w' = counter_ok email w"
  by (simp add: failures_def counter_ok_def)

lemma locked_verify:
  assumes "failures email w \<ge> login_max_attempts"
  shows "\<exists>w'. verify_credentials argon2 dummy lookup store email p w = (Inl Unauthorized, w') \<and> view w' = view w"
proof -
  obtain w' where "login_locked_out store email w = (failures email w \<ge> login_max_attempts, w')" "view w' = view w"
    using locked_out_run by blast
  then show ?thesis using assms by (simp add: verify_credentials_def)
qed

lemma open_verify:
  assumes "\<not> failures email w \<ge> login_max_attempts"
  obtains w1 where "view w1 = view w" "verify_credentials argon2 dummy lookup store email p w =
    (case lookup email of
       Inl e \<Rightarrow> (Inl (Database e), w1)
     | Inr user \<Rightarrow>
         (case verify_password argon2 dummy p (Option.bind user u_password_hash) of
            Inl e \<Rightarrow> (Inl (Internal (''password verify error: '' @ e)), w1)
          | Inr matched \<Rightarrow>
              (case judge user matched of
                 Reject counts \<Rightarrow> (Inl Unauthorized, if counts then record_login_failure store email w1 else w1)
               | Accept u \<Rightarrow> (Inr u, clear_login_failures store email w1))))"
proof -
  obtain w1 where "login_locked_out store email w = (failures email w \<ge> login_max_attempts, w1)" "view w1 = view w"
    using locked_out_run by blast
  then show thesis using assms by (intro that [of w1]) (simp_all add: verify_credentials_def)
qed

lemma refused_verify:
  assumes "lookup email = Inr user" "refused_by argon2 dummy user p" "counter_ok email w" "failures email w \<le> 10"
  shows "failures email (snd (verify_credentials argon2 dummy lookup store email p w)) = min 10 (failures email w + 1) \<and>
    counter_ok email (snd (verify_credentials argon2 dummy lookup store email p w))"
proof (cases "failures email w \<ge> login_max_attempts")
  case True
  then obtain w' where "verify_credentials argon2 dummy lookup store email p w = (Inl Unauthorized, w')" "view w' = view w"
    using locked_verify by blast
  then show ?thesis using True assms(3,4) counter_view [of w' w] by (simp add: login_max_attempts_def)
next
  case False
  obtain w1 where w1: "view w1 = view w" and v: "verify_credentials argon2 dummy lookup store email p w =
    (case lookup email of
       Inl e \<Rightarrow> (Inl (Database e), w1)
     | Inr user \<Rightarrow>
         (case verify_password argon2 dummy p (Option.bind user u_password_hash) of
            Inl e \<Rightarrow> (Inl (Internal (''password verify error: '' @ e)), w1)
          | Inr matched \<Rightarrow>
              (case judge user matched of
                 Reject counts \<Rightarrow> (Inl Unauthorized, if counts then record_login_failure store email w1 else w1)
               | Accept u \<Rightarrow> (Inr u, clear_login_failures store email w1))))"
    using False by (rule open_verify)
  have "verify_credentials argon2 dummy lookup store email p w = (Inl Unauthorized, record_login_failure store email w1)"
    using assms(1,2) by (simp add: v refused_by_def split: sum.splits)
  then show ?thesis
    using record_failure_run [of email w1] assms(3,4) counter_view [OF w1, of email] False
    by (simp add: login_max_attempts_def)
qed

lemma logins_count:
  assumes "lookup email = Inr user"
  shows "list_all (refused_by argon2 dummy user) ps \<Longrightarrow> counter_ok email w \<Longrightarrow> failures email w \<le> 10 \<Longrightarrow>
    failures email (logins argon2 dummy lookup store email ps w) = min 10 (failures email w + int (length ps))"
proof (induction ps arbitrary: w)
  case (Cons p ps)
  let ?w = "snd (verify_credentials argon2 dummy lookup store email p w)"
  have "refused_by argon2 dummy user p" using Cons.prems(1) by simp
  note r = refused_verify [where lookup = lookup and email = email, OF assms this Cons.prems(2,3)]
  have "failures email (logins argon2 dummy lookup store email ps ?w) = min 10 (failures email ?w + int (length ps))"
    using Cons.prems(1) r by (intro Cons.IH) simp_all
  then show ?case using r by simp
qed simp

lemma lockout:
  assumes "lookup email = Inr user" "list_all (refused_by argon2 dummy user) ps" "view w (login_fail_key email) = None"
  shows "(10 \<le> length ps \<longrightarrow>
      fst (verify_credentials argon2 dummy lookup store email p (logins argon2 dummy lookup store email ps w)) = Inl Unauthorized) \<and>
    (length ps < 10 \<and> accepted_by argon2 dummy user p u \<longrightarrow>
      fst (verify_credentials argon2 dummy lookup store email p (logins argon2 dummy lookup store email ps w)) = Inr u \<and>
      view (snd (verify_credentials argon2 dummy lookup store email p (logins argon2 dummy lookup store email ps w)))
        (login_fail_key email) = None)"
proof -
  let ?w = "logins argon2 dummy lookup store email ps w"
  have z: "failures email w = 0" "counter_ok email w"
    using assms(3) by (simp_all add: failures_def counter_ok_def)
  have n: "failures email ?w = min 10 (int (length ps))"
    using logins_count [where lookup = lookup and email = email, OF assms(1) assms(2) z(2)] z(1) by simp
  show ?thesis
  proof (intro conjI impI)
    assume "10 \<le> length ps"
    then have "failures email ?w \<ge> login_max_attempts" using n by (simp add: login_max_attempts_def)
    then show "fst (verify_credentials argon2 dummy lookup store email p ?w) = Inl Unauthorized"
      using locked_verify by (metis fst_conv)
  next
    assume a: "length ps < 10 \<and> accepted_by argon2 dummy user p u"
    then have "\<not> failures email ?w \<ge> login_max_attempts" using n by (simp add: login_max_attempts_def)
    then obtain w1 where "view w1 = view ?w" and v: "verify_credentials argon2 dummy lookup store email p ?w =
      (case lookup email of
         Inl e \<Rightarrow> (Inl (Database e), w1)
       | Inr user \<Rightarrow>
           (case verify_password argon2 dummy p (Option.bind user u_password_hash) of
              Inl e \<Rightarrow> (Inl (Internal (''password verify error: '' @ e)), w1)
            | Inr matched \<Rightarrow>
                (case judge user matched of
                   Reject counts \<Rightarrow> (Inl Unauthorized, if counts then record_login_failure store email w1 else w1)
                 | Accept u \<Rightarrow> (Inr u, clear_login_failures store email w1))))"
      by (rule open_verify)
    then have r: "verify_credentials argon2 dummy lookup store email p ?w = (Inr u, clear_login_failures store email w1)"
      using a assms(1) by (simp add: accepted_by_def split: sum.splits)
    have "view (clear_login_failures store email w1) (login_fail_key email) = None"
      using del_view [of "login_fail_key email" w1] by (auto simp: clear_login_failures_def)
    then show "fst (verify_credentials argon2 dummy lookup store email p ?w) = Inr u"
      "view (snd (verify_credentials argon2 dummy lookup store email p ?w)) (login_fail_key email) = None"
      using r by simp_all
  qed
qed

end


definition login_member :: user where
  "login_member = (member 11 0)\<lparr>u_password_hash := Some ''secret''\<rparr>"

definition equal_check :: "string \<Rightarrow> string \<Rightarrow> string + bool" where
  "equal_check password hash = Inr (password = hash)"


text \<open>
  What an outage of the store means is each owner's policy: login, lockout and reset quota stay
  open (a login decides on the password alone, uncounted), while one-time passwords, reset tokens and
  the request buckets refuse with an internal error.
\<close>

theorem store_outage_policy:
  "fst (login_locked_out failing email w) = False \<and> fst (forgot_allowed failing email w) = True \<and>
   (\<forall>user m. lookup email = Inr user \<longrightarrow>
      verify_password argon2 dummy p (Option.bind user u_password_hash) = Inr m \<longrightarrow>
      fst (verify_credentials argon2 dummy lookup failing email p w) =
        (case judge user m of Accept u \<Rightarrow> Inr u | Reject _ \<Rightarrow> Inl Unauthorized)) \<and>
   (\<exists>e. fst (send_otp json sms code failing u phone w) = Inl (Internal e)) \<and>
   (\<exists>e. fst (check_otp json failing u req w) = Inl (Internal e)) \<and>
   (\<exists>e. fst (issue_reset token failing u w) = Inl (Internal e)) \<and>
   (\<exists>e. fst (consume_reset failing token w) = Inl (Internal e)) \<and>
   fst (rate_limit_middleware failing ip w) = Some (500, ''internal server error'') \<and>
   fst (strict_rate_limit failing ip w) = Some (500, ''internal server error'')"
  by (auto simp: failing_def login_locked_out_def forgot_allowed_def verify_credentials_def send_otp_def
      check_otp_def issue_reset_def consume_reset_def rate_limit_middleware_def strict_rate_limit_def
      gate_request_def bump_global_def bump_auth_def bind_svc_def try_store_def forgot_max_requests_def
      login_max_attempts_def split: verdict.splits)

lemma store_outage_policy_witness:
  "fst (verify_credentials equal_check ''dummy'' (\<lambda>_. Inr (Some login_member)) failing ''a@b'' ''secret'' ()) = Inr login_member"
proof -
  have "fst (verify_credentials equal_check ''dummy'' (\<lambda>_. Inr (Some login_member)) failing ''a@b'' ''secret'' ()) =
      (case judge (Some login_member) True of Accept u \<Rightarrow> Inr u | Reject _ \<Rightarrow> Inl Unauthorized)"
    by (rule store_outage_policy [THEN conjunct2, THEN conjunct2, THEN conjunct1, rule_format])
      (simp_all add: verify_password_def equal_check_def login_member_def)
  also have "judge (Some login_member) True = Accept login_member"
    by (simp add: judge_def login_member_def member_def)
  finally show ?thesis by simp
qed

end
