(* ===== verification/Consumer.thy ===== *)
theory Consumer
  imports Outbox Decimal
begin

text \<open>
  The audit consumer (\<open>src/kafka/consumer.rs\<close>): one handler that records an event into
  \<open>audit_log\<close> under the envelope's \<open>event_id\<close>, the in-place retry of a failed record, and the loop
  that commits a record's offset only once the record is resolved. JSON text is read by serde, so
  the parser is an argument \<open>from_str\<close>; the JSON value a producer writes for an envelope is
  \<open>envelope_json\<close>. The database the handler writes to may fail at any statement: the faults are a
  function of the statement's number.
\<close>

section \<open>The envelope as JSON\<close>

definition json_opt_str :: "string option \<Rightarrow> json" where
  "json_opt_str s = (case s of None \<Rightarrow> JNull | Some t \<Rightarrow> JStr t)"

fun payload_json :: "domain_event \<Rightarrow> json" where
  "payload_json (OrderCreated p) = JObj
    [(''order_id'', json_uuid (oc_order_id p)), (''user_id'', json_uuid (oc_user_id p)),
     (''order_number'', JStr (oc_order_number p)), (''total_cents'', JNum (oc_total_cents p)),
     (''discount_cents'', JNum (oc_discount_cents p)), (''coupon_code'', json_opt_str (oc_coupon_code p)),
     (''points_used'', JNum (oc_points_used p)), (''points_earned'', JNum (oc_points_earned p))]"
| "payload_json (OrderStatusChanged p) = JObj
    [(''order_id'', json_uuid (os_order_id p)), (''user_id'', json_uuid (os_user_id p)),
     (''status'', JStr (os_status p))]"
| "payload_json (BookingCreated p) = JObj
    [(''booking_id'', json_uuid (bp_booking_id p)), (''user_id'', json_uuid (bp_user_id p)),
     (''time_slot_id'', json_uuid (bp_time_slot_id p))]"
| "payload_json (BookingCancelled p) = JObj
    [(''booking_id'', json_uuid (bp_booking_id p)), (''user_id'', json_uuid (bp_user_id p)),
     (''time_slot_id'', json_uuid (bp_time_slot_id p))]"
| "payload_json (UserRegistered p) = JObj
    [(''user_id'', json_uuid (ur_user_id p)), (''email'', JStr (ur_email p)), (''name'', JStr (ur_name p))]"

definition envelope_json :: "(instant \<Rightarrow> string) \<Rightarrow> kafka_event \<Rightarrow> json" where
  "envelope_json rfc3339 e = JObj
    ([(''version'', JNum (int (ke_version e))), (''event_id'', json_uuid (ke_event_id e)),
      (''event_type'', JStr (ke_event_type e)), (''timestamp'', JStr (rfc3339 (ke_timestamp e)))] @
     (case ke_correlation_id e of None \<Rightarrow> [] | Some c \<Rightarrow> [(''correlation_id'', JStr c)]) @
     [(''data'', payload_json (ke_data e))])"

section \<open>Recording one event\<close>

datatype processing_error = Transient string | Poison string

record audit_row =
  al_id :: uuid
  al_user_id :: "uuid option"
  al_action :: string
  al_resource :: string
  al_resource_id :: "uuid option"
  al_new_value :: json
  al_created_at :: instant

record audit_db =
  audit_log :: "audit_row list"
  ad_users :: "uuid list"
  ad_supply :: "nat \<Rightarrow> uuid"
  ad_pos :: nat
  ad_now :: instant
  ad_faults :: "nat \<Rightarrow> sqlx_error option"
  ad_calls :: nat

definition of_sqlx :: "(sqlx_error \<Rightarrow> string) \<Rightarrow> sqlx_error \<Rightarrow> processing_error" where
  "of_sqlx display e = Transient (''sqlx error: '' @ display e)"

definition required_str :: "json \<Rightarrow> string \<Rightarrow> processing_error + string" where
  "required_str event field =
    (case Option.bind (json_get field event) json_as_str of
       None \<Rightarrow> Inl (Poison (''missing or non-string field `'' @ field @ ''`''))
     | Some s \<Rightarrow> Inr s)"

definition optional_uuid_from_data :: "json \<Rightarrow> string \<Rightarrow> uuid option" where
  "optional_uuid_from_data event field =
    Option.bind (Option.bind (Option.bind (json_get ''data'' event) (json_get field)) json_as_str) parse_nat"

definition domain_resource :: "string \<Rightarrow> (string \<times> string) option" where
  "domain_resource event_type =
    map_option (\<lambda>s. (es_resource s, es_id_field s)) (spec_for_event_type event_type)"

definition event_row_id :: "json \<Rightarrow> audit_db \<Rightarrow> uuid \<times> audit_db" where
  "event_row_id event w =
    (case Option.bind (Option.bind (json_get ''event_id'' event) json_as_str) parse_nat of
       Some i \<Rightarrow> (i, w)
     | None \<Rightarrow> (ad_supply w (ad_pos w), w\<lparr>ad_pos := ad_pos w + 1\<rparr>))"

text \<open>
  \<open>INSERT \<dots> ON CONFLICT (id) DO NOTHING\<close>: a taken id inserts nothing, and only an inserted row
  meets the foreign key.
\<close>

definition insert_audit :: "audit_row \<Rightarrow> audit_db \<Rightarrow> (sqlx_error + unit) \<times> audit_db" where
  "insert_audit row w =
    (let w' = w\<lparr>ad_calls := ad_calls w + 1\<rparr> in
     case ad_faults w (ad_calls w) of
       Some e \<Rightarrow> (Inl e, w')
     | None \<Rightarrow>
        if al_id row \<in> al_id ` set (audit_log w) then (Inr (), w')
        else if \<exists>u \<in> set_option (al_user_id row). u \<notin> set (ad_users w)
        then (Inl (ForeignKeyViolation ''audit_log_user_id_fkey''), w')
        else (Inr (), w'\<lparr>audit_log := audit_log w @ [row]\<rparr>))"

definition handle_audit_event ::
  "(string \<Rightarrow> string + json) \<Rightarrow> (sqlx_error \<Rightarrow> string) \<Rightarrow> string \<Rightarrow> audit_db \<Rightarrow> (processing_error + unit) \<times> audit_db"
where
  "handle_audit_event from_str display payload w =
    (case from_str payload of
       Inl e \<Rightarrow> (Inl (Poison (''invalid JSON: '' @ e)), w)
     | Inr event \<Rightarrow>
       (case required_str event ''event_type'' of
          Inl e \<Rightarrow> (Inl e, w)
        | Inr action \<Rightarrow>
          (let (resource, resource_id) =
             (case domain_resource action of
                Some (resource, id_field) \<Rightarrow> (resource, optional_uuid_from_data event id_field)
              | None \<Rightarrow>
                 ((case Option.bind (Option.bind (json_get ''data'' event) (json_get ''resource'')) json_as_str of
                     None \<Rightarrow> ''audit'' | Some r \<Rightarrow> r),
                  optional_uuid_from_data event ''resource_id''));
             user_id = optional_uuid_from_data event ''user_id'';
             new_value = (case json_get ''data'' event of None \<Rightarrow> JObj [] | Some v \<Rightarrow> v);
             (i, w\<^sub>1) = event_row_id event w
           in case insert_audit \<lparr>al_id = i, al_user_id = user_id, al_action = action, al_resource = resource,
                al_resource_id = resource_id, al_new_value = new_value, al_created_at = ad_now w\<^sub>1\<rparr> w\<^sub>1 of
                (Inl e, w\<^sub>2) \<Rightarrow> (Inl (of_sqlx display e), w\<^sub>2)
              | (Inr _, w\<^sub>2) \<Rightarrow> (Inr (), w\<^sub>2))))"

section \<open>Resolving one record\<close>

definition max_attempts :: nat where "max_attempts = 5"

datatype resolution = Commit | Shutdown

record source_message =
  sm_topic :: string
  sm_partition :: int
  sm_offset :: int
  sm_payload :: "byte list option"

type_synonym 'w audit_handling = "string \<Rightarrow> 'w \<Rightarrow> (processing_error + unit) \<times> 'w"

text \<open>
  \<open>stop n\<close> says whether the shutdown signal arrives during the backoff after attempt \<open>n\<close>. The second
  component of the result lists the backoffs slept to their end, in seconds.
\<close>

function retry_loop ::
  "'w audit_handling \<Rightarrow> (nat \<Rightarrow> bool) \<Rightarrow> string \<Rightarrow> nat \<Rightarrow> 'w \<Rightarrow> resolution \<times> nat list \<times> 'w" where
  "retry_loop handle stop payload attempt w =
    (case handle payload w of
       (Inr _, w') \<Rightarrow> (Commit, [], w')
     | (Inl (Poison reason), w') \<Rightarrow> (Commit, [], w')
     | (Inl (Transient reason), w') \<Rightarrow>
        if max_attempts \<le> attempt then (Commit, [], w')
        else (let backoff = push_bit (attempt - 1) 1 in
          if stop attempt then (Shutdown, [], w')
          else (let (r, slept, w'') = retry_loop handle stop payload (attempt + 1) w'
                in (r, backoff # slept, w''))))"
  by pat_completeness auto
termination by (relation "measure (\<lambda>(_, _, _, attempt, _). max_attempts - attempt)") auto

declare retry_loop.simps [simp del]

definition resolve ::
  "'w audit_handling \<Rightarrow> (nat \<Rightarrow> bool) \<Rightarrow> source_message \<Rightarrow> 'w \<Rightarrow> resolution \<times> nat list \<times> 'w" where
  "resolve handle stop msg w =
    (case sm_payload msg of
       None \<Rightarrow> (Commit, [], w)
     | Some bytes \<Rightarrow>
       (case from_utf8 bytes of
          None \<Rightarrow> (Commit, [], w)
        | Some payload \<Rightarrow> retry_loop handle stop payload 1 w))"

section \<open>The loop\<close>

text \<open>
  What the loop meets, in order: the shutdown flag changed, the stream ended, or a record was
  delivered, with the shutdown oracle of its backoffs and whether the commit reached the broker.
  The committed offset of a partition, the next one to deliver, is state of the broker.
\<close>

datatype loop_event =
    ShutdownChanged bool
  | StreamEnded
  | Delivered source_message "nat \<Rightarrow> bool" bool

type_synonym partition_id = "string \<times> int"

record 'w consumer =
  cn_world :: 'w
  cn_committed :: "partition_id \<Rightarrow> int"

definition partition_of :: "source_message \<Rightarrow> partition_id" where
  "partition_of msg = (sm_topic msg, sm_partition msg)"

definition commit_offset :: "bool \<Rightarrow> source_message \<Rightarrow> 'w consumer \<Rightarrow> 'w consumer" where
  "commit_offset acknowledged msg s =
    (if acknowledged then s\<lparr>cn_committed := (cn_committed s)(partition_of msg := sm_offset msg + 1)\<rparr> else s)"

fun run :: "'w audit_handling \<Rightarrow> loop_event list \<Rightarrow> 'w consumer \<Rightarrow> 'w consumer" where
  "run handle [] s = s"
| "run handle (ShutdownChanged stopping # es) s = (if stopping then s else run handle es s)"
| "run handle (StreamEnded # es) s = s"
| "run handle (Delivered msg stop acknowledged # es) s =
    (case resolve handle stop msg (cn_world s) of
       (Commit, _, w) \<Rightarrow> run handle es (commit_offset acknowledged msg (s\<lparr>cn_world := w\<rparr>))
     | (Shutdown, _, w) \<Rightarrow> s\<lparr>cn_world := w\<rparr>)"

text \<open>The process over its life: each run starts at the committed offsets.\<close>

definition lifetime :: "'w audit_handling \<Rightarrow> loop_event list list \<Rightarrow> 'w consumer \<Rightarrow> 'w consumer" where
  "lifetime handle runs s = fold (run handle) runs s"

section \<open>Every record is resolved within five attempts\<close>

text \<open>The world after \<open>n\<close> calls of the handler.\<close>

primrec tries :: "'w audit_handling \<Rightarrow> string \<Rightarrow> nat \<Rightarrow> 'w \<Rightarrow> 'w" where
  "tries handle payload 0 w = w"
| "tries handle payload (Suc n) w = tries handle payload n (snd (handle payload w))"

lemma retry_loop_bounded:
  assumes "retry_loop handle stop payload a w = (r, slept, w')" "1 \<le> a" "a \<le> max_attempts"
  shows "a + length slept \<le> max_attempts \<and> slept = map (\<lambda>i. 2 ^ (a - 1 + i)) [0..<length slept] \<and>
    w' = tries handle payload (Suc (length slept)) w \<and>
    (r = Shutdown \<longleftrightarrow> a + length slept < max_attempts \<and> stop (a + length slept) \<and>
      (\<exists>e. fst (handle payload (tries handle payload (length slept) w)) = Inl (Transient e)))"
  using assms
proof (induction handle stop payload a w arbitrary: r slept w' rule: retry_loop.induct)
  case (1 handle stop payload a w)
  obtain x w1 where h: "handle payload w = (x, w1)" by fastforce
  show ?case
  proof (cases "\<exists>e. x = Inl (Transient e) \<and> a < max_attempts")
    case False
    then have "slept = []" "w' = w1" "r = Commit"
      using 1(2) h by (auto simp: retry_loop.simps [of handle stop payload a w] split: sum.splits processing_error.splits)
    then show ?thesis using False h 1(4) by auto
  next
    case True
    then obtain e where x: "x = Inl (Transient e)" and lt: "a < max_attempts" by blast
    show ?thesis
    proof (cases "stop a")
      case True
      then have "slept = []" "w' = w1" "r = Shutdown"
        using 1(2) h x lt by (auto simp: retry_loop.simps [of handle stop payload a w])
      then show ?thesis using h x lt True by auto
    next
      case False
      obtain r2 s2 w2 where rec: "retry_loop handle stop payload (a + 1) w1 = (r2, s2, w2)" by (metis prod_cases3)
      have d: "slept = 2 ^ (a - 1) # s2" "w' = w2" "r = r2"
        using 1(2) h x lt False rec by (auto simp: retry_loop.simps [of handle stop payload a w] push_bit_eq_mult)
      have ih: "a + 1 + length s2 \<le> max_attempts" "s2 = map (\<lambda>i. 2 ^ (a + 1 - 1 + i)) [0..<length s2]"
          "w2 = tries handle payload (Suc (length s2)) w1"
          "r2 = Shutdown \<longleftrightarrow> a + 1 + length s2 < max_attempts \<and> stop (a + 1 + length s2) \<and>
            (\<exists>e. fst (handle payload (tries handle payload (length s2) w1)) = Inl (Transient e))"
        using 1(1) [OF h [symmetric] x refl _ refl False rec] lt 1(3) by auto
      have "2 ^ (a - 1) # map (\<lambda>i. 2 ^ (a + 1 - 1 + i)) [0..<length s2] =
          map (\<lambda>i. 2 ^ (a - 1 + i) :: nat) [0..<Suc (length s2)]"
        using 1(3) by (simp add: upt_conv_Cons map_Suc_upt [symmetric] del: upt_Suc)
      then have "slept = map (\<lambda>i. 2 ^ (a - 1 + i)) [0..<length slept]"
        using d(1) ih(2) by simp
      then show ?thesis using d ih(1,3,4) h by simp
    qed
  qed
qed

lemma backoffs_sum:
  "k \<le> 4 \<Longrightarrow> sum_list (map (\<lambda>i. 2 ^ i) [0..<k]) \<le> (15 :: nat)"
proof -
  assume "k \<le> 4"
  then have "k = 0 \<or> k = 1 \<or> k = 2 \<or> k = 3 \<or> k = 4" by linarith
  then show ?thesis by (elim disjE) (simp_all add: upt_rec)
qed

text \<open>
  C15. Whatever the handler does, a record is resolved: the handler is called once more than it is
  backed off from, at most five times, the backoffs are 1, 2, 4, 8 seconds in this order, at most
  15 in all, and unless the shutdown signal arrives in a backoff the record is committed past.
\<close>

theorem resolve_terminates:
  assumes "resolve handle stop msg w = (r, slept, w')"
  shows "slept = map (\<lambda>i. 2 ^ i) [0..<length slept] \<and> length slept \<le> 4 \<and> sum_list slept \<le> 15 \<and>
    w' = (case Option.bind (sm_payload msg) from_utf8 of
            None \<Rightarrow> w | Some payload \<Rightarrow> tries handle payload (Suc (length slept)) w) \<and>
    (r = Shutdown \<longrightarrow> stop (Suc (length slept)))"
proof (cases "Option.bind (sm_payload msg) from_utf8")
  case None
  then show ?thesis using assms by (auto simp: resolve_def split: option.splits)
next
  case (Some payload)
  then have loop: "retry_loop handle stop payload 1 w = (r, slept, w')"
    using assms by (auto simp: resolve_def split: option.splits)
  have b: "1 + length slept \<le> max_attempts" "slept = map (\<lambda>i. 2 ^ i) [0..<length slept]"
      "w' = tries handle payload (Suc (length slept)) w" "r = Shutdown \<Longrightarrow> stop (Suc (length slept))"
    using retry_loop_bounded [OF loop] by (auto simp: max_attempts_def)
  have len: "length slept \<le> 4" using b(1) by (simp add: max_attempts_def)
  have "sum_list slept \<le> 15" using backoffs_sum [OF len] b(2) by simp
  then show ?thesis using b(2-4) len Some by simp
qed

definition always_down :: "nat audit_handling" where
  "always_down payload n = (Inl (Transient payload), Suc n)"

definition text_message :: "string \<Rightarrow> source_message" where
  "text_message t = \<lparr>sm_topic = orders_created, sm_partition = 0, sm_offset = 0,
     sm_payload = Some (bytes_of_text t)\<rparr>"

lemma resolve_terminates_witness:
  "resolve always_down (\<lambda>_. False) (text_message ''x'') 0 = (Commit, [1, 2, 4, 8], 5) \<and>
   sum_list [1, 2, 4, 8 :: nat] \<le> 15"
proof -
  have r: "resolve always_down (\<lambda>_. False) (text_message ''x'') 0 = (Commit, [1, 2, 4, 8], 5)"
    by code_simp
  show ?thesis using r resolve_terminates [OF r] by blast
qed

section \<open>What one event leaves in the audit log\<close>

fun event_user :: "domain_event \<Rightarrow> uuid" where
  "event_user (OrderCreated p) = oc_user_id p"
| "event_user (OrderStatusChanged p) = os_user_id p"
| "event_user (BookingCreated p) = bp_user_id p"
| "event_user (BookingCancelled p) = bp_user_id p"
| "event_user (UserRegistered p) = ur_user_id p"

text \<open>The columns a row must have that records the envelope \<open>e\<close>.\<close>

definition records :: "kafka_event \<Rightarrow> audit_row \<Rightarrow> bool" where
  "records e r = (al_id r = ke_event_id e \<and> al_user_id r = Some (event_user (ke_data e)) \<and>
    al_action r = ke_event_type e \<and> al_resource r = es_resource (event_spec_of (ke_data e)) \<and>
    al_resource_id r = Some (event_resource_id (ke_data e)) \<and> al_new_value r = payload_json (ke_data e))"

text \<open>What every envelope of \<open>insert_domain_event_tx\<close> satisfies: its type string is that of its payload.\<close>

definition typed_envelope :: "kafka_event \<Rightarrow> bool" where
  "typed_envelope e = (ke_event_type e = es_event_type (event_spec_of (ke_data e)))"

lemma envelope_fields [simp]:
  "json_get ''event_type'' (envelope_json t e) = Some (JStr (ke_event_type e))"
  "json_get ''event_id'' (envelope_json t e) = Some (json_uuid (ke_event_id e))"
  "json_get ''data'' (envelope_json t e) = Some (payload_json (ke_data e))"
  by (auto simp: envelope_json_def split: option.splits)

lemma payload_fields [simp]:
  "json_get (es_id_field (event_spec_of d)) (payload_json d) = Some (json_uuid (event_resource_id d))"
  "json_get ''user_id'' (payload_json d) = Some (json_uuid (event_user d))"
  by (cases d; simp add: spec_defs)+

lemma json_uuid_read [simp]: "Option.bind (json_as_str (json_uuid i)) parse_nat = Some i"
  by (simp add: json_uuid_def)

definition audit_row_of :: "kafka_event \<Rightarrow> instant \<Rightarrow> audit_row" where
  "audit_row_of e at = \<lparr>al_id = ke_event_id e, al_user_id = Some (event_user (ke_data e)),
     al_action = ke_event_type e, al_resource = es_resource (event_spec_of (ke_data e)),
     al_resource_id = Some (event_resource_id (ke_data e)), al_new_value = payload_json (ke_data e),
     al_created_at = at\<rparr>"

lemma records_row_of [simp]: "records e (audit_row_of e at)"
  by (simp add: records_def audit_row_of_def)

text \<open>The handler on a producer's text is the insertion of the event's row.\<close>

lemma handle_envelope:
  assumes "from_str payload = Inr (envelope_json t e)" "typed_envelope e"
  shows "handle_audit_event from_str display payload w =
    (case insert_audit (audit_row_of e (ad_now w)) w of
       (Inl x, w') \<Rightarrow> (Inl (of_sqlx display x), w') | (Inr _, w') \<Rightarrow> (Inr (), w'))"
  using assms
  by (simp add: handle_audit_event_def required_str_def domain_resource_def typed_envelope_def spec_round_trip
      optional_uuid_from_data_def event_row_id_def audit_row_of_def json_uuid_def)

text \<open>
  C17. What a producer serialised comes back: with the database up and the user known, the audit log
  gains exactly one row, under the event's own id, whose action, resource, resource id, user and
  payload are those of the event; a redelivery of the same text changes nothing.
\<close>

theorem audit_roundtrip:
  assumes "from_str payload = Inr (envelope_json rfc3339 e)" "typed_envelope e"
    and "ad_faults w (ad_calls w) = None" "ad_faults w (Suc (ad_calls w)) = None"
    and "event_user (ke_data e) \<in> set (ad_users w)" "ke_event_id e \<notin> al_id ` set (audit_log w)"
  shows "\<exists>r w' w''. handle_audit_event from_str display payload w = (Inr (), w') \<and> records e r \<and>
    audit_log w' = audit_log w @ [r] \<and>
    handle_audit_event from_str display payload w' = (Inr (), w'') \<and> audit_log w'' = audit_log w'"
  using assms
  by (intro exI [of _ "audit_row_of e (ad_now w)"])
    (auto simp: handle_envelope insert_audit_def audit_row_of_def records_def)

definition order_event :: kafka_event where
  "order_event = \<lparr>ke_version = 1, ke_event_id = 77, ke_event_type = ''order_status_changed'', ke_timestamp = 0,
     ke_correlation_id = None, ke_data = OrderStatusChanged \<lparr>os_order_id = 5, os_user_id = 9, os_status = ''paid''\<rparr>\<rparr>"

definition one_text :: "string \<Rightarrow> string + json" where
  "one_text t = (if t = ''e77'' then Inr (envelope_json show_int order_event) else Inl ''expected value'')"

definition quiet_db :: audit_db where
  "quiet_db = \<lparr>audit_log = [], ad_users = [9], ad_supply = id, ad_pos = 0, ad_now = 0,
     ad_faults = (\<lambda>_. None), ad_calls = 0\<rparr>"

lemma audit_roundtrip_witness:
  "\<exists>r w' w''. handle_audit_event one_text (\<lambda>_. []) ''e77'' quiet_db = (Inr (), w') \<and> records order_event r \<and>
    audit_log w' = [r] \<and> handle_audit_event one_text (\<lambda>_. []) ''e77'' w' = (Inr (), w'') \<and>
    audit_log w'' = audit_log w'"
  using audit_roundtrip [of one_text "''e77''" show_int order_event quiet_db "\<lambda>_. []"]
  by (simp add: one_text_def quiet_db_def typed_envelope_def order_event_def spec_defs)

section \<open>At least once, recorded once\<close>

text \<open>
  The contract the loop needs of its handler (the trait \<open>AuditHandler\<close>): on texts that were sent,
  and in an environment it keeps, a success records the text, nothing recorded is lost, no text is
  poison, and an outage is over within the retry cap.
\<close>

locale audit_handler =
  fixes handle :: "string \<Rightarrow> 'w \<Rightarrow> (processing_error + unit) \<times> 'w"
    and recorded :: "string \<Rightarrow> 'w \<Rightarrow> bool"
    and sent :: "string \<Rightarrow> bool"
    and env :: "'w \<Rightarrow> bool"
  assumes env_kept: "sent t \<Longrightarrow> env w \<Longrightarrow> env (snd (handle t w))"
    and recorded_kept: "sent t \<Longrightarrow> env w \<Longrightarrow> recorded u w \<Longrightarrow> recorded u (snd (handle t w))"
    and ok_recorded: "sent t \<Longrightarrow> env w \<Longrightarrow> handle t w = (Inr (), w') \<Longrightarrow> recorded t w'"
    and not_poison: "sent t \<Longrightarrow> env w \<Longrightarrow> fst (handle t w) \<noteq> Inl (Poison e)"
    and heals: "sent t \<Longrightarrow> env w \<Longrightarrow> \<exists>n < max_attempts. fst (handle t (tries handle t n w)) = Inr ()"

text \<open>
  The broker's side. \<open>log p\<close> are the texts of partition \<open>p\<close> in offset order; a run is delivered each
  partition's texts in order, from its position on.
\<close>

type_synonym text_log = "partition_id \<Rightarrow> string list"

fun delivers :: "text_log \<Rightarrow> (partition_id \<Rightarrow> int) \<Rightarrow> loop_event list \<Rightarrow> bool" where
  "delivers log pos [] = True"
| "delivers log pos (Delivered msg stop acknowledged # es) =
    (let p = partition_of msg in
     sm_offset msg = pos p \<and> 0 \<le> pos p \<and> nat (pos p) < length (log p) \<and>
     Option.bind (sm_payload msg) from_utf8 = Some (log p ! nat (pos p)) \<and>
     delivers log (pos(p := pos p + 1)) es)"
| "delivers log pos (_ # es) = delivers log pos es"

primrec all_delivered ::
  "'w audit_handling \<Rightarrow> text_log \<Rightarrow> loop_event list list \<Rightarrow> 'w consumer \<Rightarrow> bool" where
  "all_delivered handle log [] s = True"
| "all_delivered handle log (es # runs) s =
    (delivers log (cn_committed s) es \<and> all_delivered handle log runs (run handle es s))"

definition all_sent :: "(string \<Rightarrow> bool) \<Rightarrow> text_log \<Rightarrow> bool" where
  "all_sent sent log = (\<forall>p. list_all sent (log p))"

definition recorded_below ::
  "(string \<Rightarrow> 'w \<Rightarrow> bool) \<Rightarrow> text_log \<Rightarrow> (partition_id \<Rightarrow> int) \<Rightarrow> 'w \<Rightarrow> bool" where
  "recorded_below recorded log pos w =
    (\<forall>p n. n < nat (pos p) \<longrightarrow> n < length (log p) \<and> recorded (log p ! n) w)"

lemma recorded_below_mono:
  assumes "recorded_below recorded log pos w" "\<And>p. q p \<le> pos p"
  shows "recorded_below recorded log q w"
proof -
  have "nat (q p) \<le> nat (pos p)" for p using assms(2) [of p] by simp
  then show ?thesis using assms(1) unfolding recorded_below_def by (meson order_less_le_trans)
qed

lemma commit_offset_world [simp]: "cn_world (commit_offset acknowledged msg s) = cn_world s"
  by (simp add: commit_offset_def)

lemma commit_after_world: "cn_world (commit_offset acknowledged msg (s\<lparr>cn_world := w\<rparr>)) = w"
  by simp

lemma retry_loop_is_tries:
  assumes "retry_loop handle stop t 1 w = (r, slept, w')"
  shows "w' = tries handle t (Suc (length slept)) w"
  using retry_loop_bounded [OF assms] by (simp add: max_attempts_def)

context audit_handler
begin

lemma tries_env: "sent t \<Longrightarrow> env w \<Longrightarrow> env (tries handle t n w)"
  by (induction n arbitrary: w) (auto intro: env_kept)

lemma tries_recorded: "sent t \<Longrightarrow> env w \<Longrightarrow> recorded u w \<Longrightarrow> recorded u (tries handle t n w)"
  by (induction n arbitrary: w) (auto intro: env_kept recorded_kept)

lemma retry_loop_records:
  assumes "retry_loop handle stop t a w = (Commit, slept, w')" "sent t" "env w"
    and "a + n \<le> max_attempts" "fst (handle t (tries handle t n w)) = Inr ()"
  shows "recorded t w'"
  using assms
proof (induction n arbitrary: a w slept)
  case 0
  then obtain w1 where "handle t w = (Inr (), w1)" by (cases "handle t w") auto
  then show ?case using 0 ok_recorded by (simp add: retry_loop.simps [of handle stop t a w])
next
  case (Suc n)
  obtain x w1 where h: "handle t w = (x, w1)" by fastforce
  show ?case
  proof (cases x)
    case (Inr u)
    then show ?thesis using Suc.prems h ok_recorded by (simp add: retry_loop.simps [of handle stop t a w])
  next
    case (Inl e)
    then obtain m where x: "x = Inl (Transient m)"
      using not_poison [OF Suc.prems(2,3)] h by (cases e) auto
    obtain r2 s2 w2 where rec: "retry_loop handle stop t (a + 1) w1 = (r2, s2, w2)" by (metis prod_cases3)
    have "r2 = Commit" "w2 = w'"
      using Suc.prems(1,4) h x rec by (auto simp: retry_loop.simps [of handle stop t a w] split: if_splits)
    moreover have "env w1" using env_kept [OF Suc.prems(2,3)] h by simp
    ultimately show ?thesis using Suc.IH [of "a + 1" w1 s2] rec Suc.prems h by simp
  qed
qed

lemma resolve_records:
  assumes "resolve handle stop msg w = (r, slept, w')" "env w"
    and "Option.bind (sm_payload msg) from_utf8 = Some t" "sent t"
  shows "env w'" "recorded u w \<Longrightarrow> recorded u w'" "r = Commit \<Longrightarrow> recorded t w'"
proof -
  have loop: "retry_loop handle stop t 1 w = (r, slept, w')"
    using assms(1,3) by (auto simp: resolve_def split: option.splits)
  show "env w'" "recorded u w \<Longrightarrow> recorded u w'"
    using retry_loop_is_tries [OF loop] tries_env tries_recorded assms(2,4) by metis+
  obtain n where "n < max_attempts" "fst (handle t (tries handle t n w)) = Inr ()"
    using heals [OF assms(4,2)] by blast
  then show "r = Commit \<Longrightarrow> recorded t w'"
    using retry_loop_records [where a = 1 and n = n, of stop t w slept w'] loop assms(2,4) by simp
qed

lemma run_records:
  assumes "delivers log pos es" "all_sent sent log" "env (cn_world s)"
    and "\<And>p. cn_committed s p \<le> pos p" "recorded_below recorded log pos (cn_world s)"
  shows "env (cn_world (run handle es s)) \<and>
    recorded_below recorded log (cn_committed (run handle es s)) (cn_world (run handle es s))"
  using assms
proof (induction es arbitrary: pos s)
  case Nil
  then show ?case using recorded_below_mono [of recorded log pos "cn_world s" "cn_committed s"] by simp
next
  case (Cons ev es)
  have here: "recorded_below recorded log (cn_committed s) w" if "recorded_below recorded log pos w" for w
    using recorded_below_mono [OF that Cons.prems(4)] .
  show ?case
  proof (cases ev)
    case (ShutdownChanged b)
    then show ?thesis using Cons here by auto
  next
    case StreamEnded
    then show ?thesis using Cons.prems here by simp
  next
    case (Delivered msg stop ack)
    let ?p = "partition_of msg" and ?w = "cn_world s"
    let ?t = "log ?p ! nat (pos ?p)"
    have d: "sm_offset msg = pos ?p" "0 \<le> pos ?p" "nat (pos ?p) < length (log ?p)"
        "Option.bind (sm_payload msg) from_utf8 = Some ?t" "delivers log (pos(?p := pos ?p + 1)) es"
      using Cons.prems(1) Delivered by (auto simp: Let_def)
    have t: "sent ?t" using Cons.prems(2) d(3) unfolding all_sent_def list_all_length by blast
    obtain r slept w' where res: "resolve handle stop msg ?w = (r, slept, w')" by (metis prod_cases3)
    note rr = resolve_records [OF res Cons.prems(3) d(4) t]
    have kept: "recorded_below recorded log pos w'"
      using Cons.prems(5) rr(2) unfolding recorded_below_def by blast
    show ?thesis
    proof (cases r)
      case Shutdown
      then show ?thesis using Delivered res rr(1) here [OF kept] by simp
    next
      case Commit
      let ?s = "commit_offset ack msg (s\<lparr>cn_world := w'\<rparr>)"
      have "recorded_below recorded log (pos(?p := pos ?p + 1)) w'"
      proof -
        have "n < length (log p) \<and> recorded (log p ! n) w'" if "n < nat ((pos(?p := pos ?p + 1)) p)" for p n
        proof (cases "p = ?p \<and> n = nat (pos ?p)")
          case True
          then show ?thesis using d(3) rr(3) Commit by simp
        next
          case False
          then have "n < nat (pos p)" using that d(2) by (auto split: if_splits)
          then show ?thesis using kept unfolding recorded_below_def by blast
        qed
        then show ?thesis unfolding recorded_below_def by blast
      qed
      moreover have "cn_committed ?s p \<le> (pos(?p := pos ?p + 1)) p" for p
        using Cons.prems(4) [of p] d(1) by (auto simp: commit_offset_def)
      ultimately have "env (cn_world (run handle es ?s)) \<and>
          recorded_below recorded log (cn_committed (run handle es ?s)) (cn_world (run handle es ?s))"
        using rr(1) by (intro Cons.IH [OF d(5) Cons.prems(2)]) (simp_all only: commit_after_world)
      then show ?thesis using Delivered res Commit by simp
    qed
  qed
qed

lemma lifetime_records:
  assumes "all_delivered handle log runs s" "all_sent sent log" "env (cn_world s)"
    and "recorded_below recorded log (cn_committed s) (cn_world s)"
  shows "env (cn_world (lifetime handle runs s)) \<and>
    recorded_below recorded log (cn_committed (lifetime handle runs s)) (cn_world (lifetime handle runs s))"
  using assms
proof (induction runs arbitrary: s)
  case Nil
  then show ?case by (simp add: lifetime_def)
next
  case (Cons es runs)
  then show ?case using run_records [of log "cn_committed s" es s] by (simp add: lifetime_def)
qed

end

section \<open>The audit log as the contract's provider\<close>

text \<open>
  \<open>E\<close> is the set of events ever sent, \<open>encode\<close> their text. The environment: the text reads back, an
  event's id is its own, its user exists, the database is never down for five statements in a row,
  and a row of the log that has an event's id records that event.
\<close>

definition short_outages :: "(nat \<Rightarrow> sqlx_error option) \<Rightarrow> bool" where
  "short_outages faults = (\<forall>n. \<exists>k < max_attempts. faults (n + k) = None)"

definition well_sent ::
  "(string \<Rightarrow> string + json) \<Rightarrow> (instant \<Rightarrow> string) \<Rightarrow> (kafka_event \<Rightarrow> string) \<Rightarrow> kafka_event set \<Rightarrow> uuid list \<Rightarrow> bool" where
  "well_sent from_str rfc3339 encode E known =
    (inj_on ke_event_id E \<and> (\<forall>e \<in> E. from_str (encode e) = Inr (envelope_json rfc3339 e) \<and>
      typed_envelope e \<and> event_user (ke_data e) \<in> set known))"

definition audit_env ::
  "(string \<Rightarrow> string + json) \<Rightarrow> (instant \<Rightarrow> string) \<Rightarrow> (kafka_event \<Rightarrow> string) \<Rightarrow> kafka_event set \<Rightarrow> audit_db \<Rightarrow> bool" where
  "audit_env from_str rfc3339 encode E w =
    (well_sent from_str rfc3339 encode E (ad_users w) \<and> short_outages (ad_faults w) \<and>
     distinct (map al_id (audit_log w)) \<and>
     (\<forall>r \<in> set (audit_log w). \<forall>e \<in> E. al_id r = ke_event_id e \<longrightarrow> records e r))"

definition recorded_text :: "(kafka_event \<Rightarrow> string) \<Rightarrow> kafka_event set \<Rightarrow> string \<Rightarrow> audit_db \<Rightarrow> bool" where
  "recorded_text encode E t w = (\<forall>e \<in> E. encode e = t \<longrightarrow> (\<exists>r \<in> set (audit_log w). records e r))"

lemma handle_sent:
  assumes "well_sent from_str rfc3339 encode E (ad_users w)" "e \<in> E" "encode e = t"
  shows "handle_audit_event from_str display t w =
    (let w' = w\<lparr>ad_calls := ad_calls w + 1\<rparr> in
     case ad_faults w (ad_calls w) of
       Some x \<Rightarrow> (Inl (of_sqlx display x), w')
     | None \<Rightarrow> (Inr (), if ke_event_id e \<in> al_id ` set (audit_log w) then w'
         else w'\<lparr>audit_log := audit_log w @ [audit_row_of e (ad_now w)]\<rparr>))"
proof -
  have "from_str t = Inr (envelope_json rfc3339 e)" "typed_envelope e" "event_user (ke_data e) \<in> set (ad_users w)"
    using assms unfolding well_sent_def by blast+
  then show ?thesis
    by (simp add: handle_envelope insert_audit_def audit_row_of_def Let_def split: option.split)
qed

lemma tries_handle_sent:
  assumes "well_sent from_str rfc3339 encode E (ad_users w)" "e \<in> E" "encode e = t"
  shows "ad_users (tries (handle_audit_event from_str display) t n w) = ad_users w \<and>
    ad_faults (tries (handle_audit_event from_str display) t n w) = ad_faults w \<and>
    ad_calls (tries (handle_audit_event from_str display) t n w) = ad_calls w + n"
  using assms(1)
proof (induction n arbitrary: w)
  case (Suc n)
  have "ad_users (snd (handle_audit_event from_str display t w)) = ad_users w"
      "ad_faults (snd (handle_audit_event from_str display t w)) = ad_faults w"
      "ad_calls (snd (handle_audit_event from_str display t w)) = ad_calls w + 1"
    unfolding handle_sent [OF Suc.prems assms(2,3)] by (simp_all add: Let_def split: option.split)
  then show ?case using Suc.IH [of "snd (handle_audit_event from_str display t w)"] Suc.prems by simp
qed simp

interpretation audit: audit_handler "handle_audit_event from_str display" "recorded_text encode E"
  "\<lambda>t. t \<in> encode ` E" "audit_env from_str rfc3339 encode E"
  for from_str :: "string \<Rightarrow> string + json" and display :: "sqlx_error \<Rightarrow> string"
    and encode :: "kafka_event \<Rightarrow> string" and E :: "kafka_event set" and rfc3339 :: "instant \<Rightarrow> string"
proof
  fix t w assume "t \<in> encode ` E" and env: "audit_env from_str rfc3339 encode E w"
  then obtain e where e: "e \<in> E" "encode e = t" by blast
  have ws: "well_sent from_str rfc3339 encode E (ad_users w)" using env by (simp add: audit_env_def)
  note run = handle_sent [OF ws e]
  have row: "\<forall>e' \<in> E. ke_event_id e = ke_event_id e' \<longrightarrow> records e' (audit_row_of e (ad_now w))"
    using ws e(1) unfolding well_sent_def by (metis inj_onD records_row_of)
  show "audit_env from_str rfc3339 encode E (snd (handle_audit_event from_str display t w))"
    using env row unfolding run audit_env_def
    by (auto simp: Let_def audit_row_of_def split: option.split)
  show "recorded_text encode E u (snd (handle_audit_event from_str display t w))"
    if "recorded_text encode E u w" for u
    using that unfolding run recorded_text_def by (auto simp: Let_def split: option.split)
  show "recorded_text encode E t w'" if ok: "handle_audit_event from_str display t w = (Inr (), w')" for w'
    unfolding recorded_text_def
  proof (intro ballI impI)
    fix e' assume e': "e' \<in> E" "encode e' = t"
    have "\<forall>r \<in> set (audit_log w). al_id r = ke_event_id e' \<longrightarrow> records e' r"
      using env e'(1) by (simp add: audit_env_def)
    then show "\<exists>r \<in> set (audit_log w'). records e' r"
      using ok unfolding handle_sent [OF ws e'] by (fastforce simp: Let_def split: option.splits if_splits)
  qed
  show "fst (handle_audit_event from_str display t w) \<noteq> Inl (Poison m)" for m
    unfolding run by (simp add: Let_def of_sqlx_def split: option.split)
  obtain k where k: "k < max_attempts" "ad_faults w (ad_calls w + k) = None"
    using env unfolding audit_env_def short_outages_def by blast
  let ?w = "tries (handle_audit_event from_str display) t k w"
  have later: "ad_users ?w = ad_users w" "ad_faults ?w = ad_faults w" "ad_calls ?w = ad_calls w + k"
    using tries_handle_sent [OF ws e] by blast+
  have ws': "well_sent from_str rfc3339 encode E (ad_users ?w)" using ws later(1) by simp
  have "fst (handle_audit_event from_str display t ?w) = Inr ()"
    unfolding handle_sent [OF ws' e] using later k(2) by (simp add: Let_def)
  then show "\<exists>n < max_attempts. fst (handle_audit_event from_str display t
      (tries (handle_audit_event from_str display) t n w)) = Inr ()"
    using k(1) by blast
qed

section \<open>From the log to the audit table\<close>

definition events_of :: "(partition_id \<Rightarrow> kafka_event list) \<Rightarrow> kafka_event set" where
  "events_of elog = (\<Union>p. set (elog p))"

definition text_log_of ::
  "(kafka_event \<Rightarrow> string) \<Rightarrow> (partition_id \<Rightarrow> kafka_event list) \<Rightarrow> text_log" where
  "text_log_of encode elog p = map encode (elog p)"

definition audit_start :: "audit_db \<Rightarrow> audit_db consumer" where
  "audit_start w = \<lparr>cn_world = w, cn_committed = (\<lambda>_. 0)\<rparr>"


definition sent_message :: "string \<Rightarrow> bool \<Rightarrow> loop_event" where
  "sent_message t acknowledged = Delivered
     \<lparr>sm_topic = orders_status_changed, sm_partition = 0, sm_offset = 0, sm_payload = Some (bytes_of_text t)\<rparr>
     (\<lambda>_. False) acknowledged"

definition one_event_log :: "partition_id \<Rightarrow> kafka_event list" where
  "one_event_log p = (if p = (orders_status_changed, 0) then [order_event] else [])"

definition shaky_db :: audit_db where
  "shaky_db = quiet_db\<lparr>ad_faults := (\<lambda>n. if n = 1 then Some (DriverError ''reset'') else None)\<rparr>"


end
