(* ===== verification/Rentals.thy ===== *)
theory Rentals
  imports Notices Clock Access Outbox
begin

text \<open>
  Venue rental (\<open>src/modules/schedule\<close>, \<open>src/modules/bookings\<close>): time slots, the read-time count of
  their bookings, and the occupancy protocol that turns a free seat into a booking row and back.
\<close>

section \<open>Slots\<close>

fun occupies_seat :: "booking_status \<Rightarrow> bool" where
  "occupies_seat Booking_Pending = True"
| "occupies_seat Booking_Confirmed = True"
| "occupies_seat Booking_Completed = True"
| "occupies_seat Booking_NoShow = True"
| "occupies_seat Booking_Cancelled = False"

fun is_cancellable :: "booking_status \<Rightarrow> bool" where
  "is_cancellable Booking_Pending = True"
| "is_cancellable Booking_Confirmed = True"
| "is_cancellable _ = False"

text \<open>The view \<open>occupying_bookings\<close>, counted at read time.\<close>

definition occupying_bookings :: "db \<Rightarrow> booking list" where
  "occupying_bookings s = filter (\<lambda>b. b_status b \<in>
     {Booking_Pending, Booking_Confirmed, Booking_Completed, Booking_NoShow}) (bookings s)"

definition booked_count :: "uuid \<Rightarrow> db \<Rightarrow> int" where
  "booked_count tid s = int (count_where (\<lambda>b. b_time_slot_id b = tid) (occupying_bookings s))"

definition derive :: "int \<Rightarrow> int \<Rightarrow> bool \<Rightarrow> slot_status" where
  "derive n capacity closed =
    (if closed then Slot_Closed
     else if n \<ge> capacity then Slot_Full
     else (let limited_threshold = quot_trunc (capacity * 8 + 5) 10
           in if n \<ge> limited_threshold then Slot_Limited else Slot_Available))"

record time_slot_response =
  tr_id :: uuid
  tr_date :: date
  tr_start_time :: time_of_day
  tr_end_time :: time_of_day
  tr_venue_id :: "uuid option"
  tr_course_id :: "uuid option"
  tr_capacity :: int
  tr_booked :: int
  tr_status :: slot_status
  tr_price_cents :: int

text \<open>A row read with \<open>SLOT_COLUMNS\<close> carries the count; the response derives the status from it.\<close>

definition time_slot_response_of :: "db \<Rightarrow> time_slot \<Rightarrow> time_slot_response" where
  "time_slot_response_of s ts = (let n = booked_count (t_id ts) s in
    \<lparr>tr_id = t_id ts, tr_date = t_date ts, tr_start_time = t_start_time ts, tr_end_time = t_end_time ts,
     tr_venue_id = t_venue_id ts, tr_course_id = t_course_id ts, tr_capacity = t_capacity ts,
     tr_booked = n, tr_status = derive n (t_capacity ts) (t_is_closed ts),
     tr_price_cents = t_price_cents ts\<rparr>)"

definition slot_by_id :: "uuid \<Rightarrow> db \<Rightarrow> time_slot option" where
  "slot_by_id tid s = fetch_by (\<lambda>r. t_id r = tid) (time_slots s)"

definition find_by_month :: "int \<Rightarrow> int \<Rightarrow> time_slot list sql" where
  "find_by_month y m = (case month_bounds y m of
     None \<Rightarrow> fail_tx (DriverError ''invalid year/month'')
   | Some (first_day, last_day) \<Rightarrow> get_tx (\<lambda>s.
       sort_key t_date (sort_key t_start_time
         (filter (\<lambda>r. first_day \<le> t_date r \<and> t_date r \<le> last_day) (time_slots s)))))"

definition find_by_date :: "date \<Rightarrow> time_slot list sql" where
  "find_by_date d = get_tx (\<lambda>s. sort_key t_start_time (filter (\<lambda>r. t_date r = d) (time_slots s)))"

text \<open>
  Two slots of a venue on one day overlap when their half-open ranges share an instant: the exclusion
  constraint \<open>time_slots_venue_no_overlap\<close>. A multi-row insert checks row by row.
\<close>

definition venue_overlap :: "time_slot \<Rightarrow> time_slot \<Rightarrow> bool" where
  "venue_overlap a b = (t_venue_id a \<noteq> None \<and> t_venue_id a = t_venue_id b \<and> t_date a = t_date b \<and>
     t_start_time a < t_end_time b \<and> t_start_time b < t_end_time a)"

record slot_row =
  sr_date :: date
  sr_start_time :: time_of_day
  sr_end_time :: time_of_day
  sr_venue_id :: "uuid option"
  sr_course_id :: "uuid option"
  sr_capacity :: int
  sr_price_cents :: int

definition new_slot :: "db \<Rightarrow> uuid \<Rightarrow> slot_row \<Rightarrow> time_slot" where
  "new_slot s i r = \<lparr>t_id = i, t_date = sr_date r, t_start_time = sr_start_time r,
     t_end_time = sr_end_time r, t_venue_id = sr_venue_id r, t_course_id = sr_course_id r,
     t_capacity = sr_capacity r, t_is_closed = False, t_price_cents = sr_price_cents r,
     t_created_at = db_now s\<rparr>"

definition insert_slot :: "uuid \<times> slot_row \<Rightarrow> time_slot sql" where
  "insert_slot ir = (\<lambda>s. let row = new_slot s (fst ir) (snd ir) in
     if t_end_time row \<le> t_start_time row then Inl (CheckViolation ''time_slots_time_order'')
     else if t_capacity row < 0 then Inl (CheckViolation ''time_slots_capacity_nonneg'')
     else if t_price_cents row < 0 then Inl (CheckViolation ''time_slots_price_cents_check'')
     else if t_id row \<in> t_id ` set (time_slots s) then Inl (UniqueViolation ''time_slots_pkey'')
     else if list_ex (venue_overlap row) (time_slots s)
       then Inl (ExclusionViolation ''time_slots_venue_no_overlap'')
     else Inr (row, s\<lparr>time_slots := time_slots s @ [row]\<rparr>))"

definition bulk_create_tx :: "slot_row list \<Rightarrow> time_slot list sql" where
  "bulk_create_tx rows =
    bind_tx (for_tx (\<lambda>r. fresh_uuid) rows) (\<lambda>ids. for_tx insert_slot (zip ids rows))"

definition set_closed :: "uuid \<Rightarrow> bool \<Rightarrow> time_slot option sql" where
  "set_closed i closed = (\<lambda>s.
    let rows = update_where (\<lambda>r. t_id r = i) (\<lambda>r. r\<lparr>t_is_closed := closed\<rparr>) (time_slots s)
    in Inr (fetch_by (\<lambda>r. t_id r = i) rows, s\<lparr>time_slots := rows\<rparr>))"

section \<open>The schedule handlers\<close>

definition max_slot_capacity :: int where "max_slot_capacity = 10000"

record day_schedule =
  ds_date :: date
  ds_slots :: "time_slot_response list"

text \<open>The loop appends to the last day while the date stays the same.\<close>

definition push_slot :: "db \<Rightarrow> day_schedule list \<Rightarrow> time_slot \<Rightarrow> day_schedule list" where
  "push_slot s days ts =
    (if days \<noteq> [] \<and> ds_date (last days) = t_date ts
     then butlast days @ [(last days)\<lparr>ds_slots := ds_slots (last days) @ [time_slot_response_of s ts]\<rparr>]
     else days @ [\<lparr>ds_date = t_date ts, ds_slots = [time_slot_response_of s ts]\<rparr>])"

definition get_monthly_schedule :: "int \<Rightarrow> int \<Rightarrow> day_schedule list app" where
  "get_monthly_schedule year month =
    bind_tx (ensure_tx (1 \<le> month \<and> month \<le> 12) (BadRequest ''month must be between 1 and 12'')) (\<lambda>_.
    bind_tx (ensure_tx (1970 \<le> year \<and> year \<le> 2100) (BadRequest ''year must be between 1970 and 2100'')) (\<lambda>_.
    bind_tx (db_try (find_by_month year month)) (\<lambda>rows.
    get_tx (\<lambda>s. foldl (push_slot s) [] rows))))"

definition get_availability :: "chrono \<Rightarrow> string \<Rightarrow> time_slot_response list app" where
  "get_availability ch d =
    bind_tx (of_option_tx (BadRequest ''invalid date format, expected YYYY-MM-DD'') (parse_date ch d)) (\<lambda>day.
    bind_tx (db_try (find_by_date day)) (\<lambda>rows.
    get_tx (\<lambda>s. map (time_slot_response_of s) rows)))"

record slot_entry =
  se_date :: string
  se_start_time :: string
  se_end_time :: string
  se_venue_id :: "uuid option"
  se_course_id :: "uuid option"
  se_capacity :: int
  se_price_cents :: "int option"

definition parse_slot :: "chrono \<Rightarrow> studio_now \<Rightarrow> slot_entry \<Rightarrow> slot_row app" where
  "parse_slot ch at entry =
    bind_tx (of_option_tx (BadRequest (''invalid date format: '' @ se_date entry))
      (parse_date ch (se_date entry))) (\<lambda>d.
    bind_tx (of_option_tx (BadRequest (''invalid start_time format: '' @ se_start_time entry))
      (parse_time_of_day ch (se_start_time entry))) (\<lambda>start_time.
    bind_tx (of_option_tx (BadRequest (''invalid end_time format: '' @ se_end_time entry))
      (parse_time_of_day ch (se_end_time entry))) (\<lambda>end_time.
    bind_tx (of_result_tx (validate_time_window start_time end_time)) (\<lambda>_.
    bind_tx (ensure_tx (\<not> (se_capacity entry \<le> 0 \<or> se_capacity entry > max_slot_capacity))
      (BadRequest ''capacity must be between 1 and 10000'')) (\<lambda>_.
    bind_tx (of_result_tx (require_not_started (sn_tz at) (sn_now at) d start_time ''start_time''
      (BadRequest ''cannot create a slot in the past''))) (\<lambda>_.
    return_tx \<lparr>sr_date = d, sr_start_time = start_time, sr_end_time = end_time,
      sr_venue_id = se_venue_id entry, sr_course_id = se_course_id entry,
      sr_capacity = se_capacity entry,
      sr_price_cents = (case se_price_cents entry of Some p \<Rightarrow> p | None \<Rightarrow> 0)\<rparr>))))))"

definition slot_taken :: string where
  "slot_taken = utf8 [229, 160, 180, 229, 156, 176, 230, 153, 130, 230, 174, 181, 232, 136, 135, 230, 151, 162, 230, 156, 137, 230, 153, 130, 230, 174, 181, 233, 135, 141, 231, 150, 138]"

definition create_slots :: "chrono \<Rightarrow> studio_now \<Rightarrow> slot_entry list \<Rightarrow> time_slot_response list handler" where
  "create_slots ch at entries = commit_tx (
    bind_tx (for_tx (parse_slot ch at) entries) (\<lambda>parsed_slots.
    bind_tx (map_err_tx (conflict_on_exclusion slot_taken) (bulk_create_tx parsed_slots)) (\<lambda>slots.
    get_tx (\<lambda>s. map (time_slot_response_of s) slots))))"

definition update_slot :: "uuid \<Rightarrow> bool \<Rightarrow> time_slot_response handler" where
  "update_slot i closed = commit_tx (
    bind_tx (db_try (set_closed i closed)) (\<lambda>r.
    bind_tx (of_option_tx (NotFound ''time slot not found'') r) (\<lambda>slot.
    get_tx (\<lambda>s. time_slot_response_of s slot))))"

section \<open>The occupancy protocol\<close>

record locked_slot =
  lk_id :: uuid
  lk_date :: date
  lk_start_time :: time_of_day
  lk_capacity :: int
  lk_price_cents :: int

definition occupy_slot_tx :: "uuid \<Rightarrow> locked_slot option sql" where
  "occupy_slot_tx slot_id =
    bind_tx (get_tx (\<lambda>s. fetch_by (\<lambda>r. t_id r = slot_id \<and> \<not> t_is_closed r) (time_slots s))) (\<lambda>r.
    case r of
      None \<Rightarrow> return_tx None
    | Some ts \<Rightarrow> bind_tx (get_tx (booked_count (t_id ts))) (\<lambda>occupied.
        if occupied \<ge> t_capacity ts then return_tx None
        else return_tx (Some \<lparr>lk_id = t_id ts, lk_date = t_date ts, lk_start_time = t_start_time ts,
          lk_capacity = t_capacity ts, lk_price_cents = t_price_cents ts\<rparr>)))"

definition insert_occupying_booking_tx :: "locked_slot \<Rightarrow> uuid \<Rightarrow> string option \<Rightarrow> booking sql" where
  "insert_occupying_booking_tx hold uid remark = bind_tx fresh_uuid (\<lambda>i s.
    let row = \<lparr>b_id = i, b_user_id = uid, b_time_slot_id = lk_id hold, b_status = Booking_Confirmed,
      b_note = remark, b_price_cents = lk_price_cents hold, b_created_at = db_now s\<rparr>
    in if lk_price_cents hold < 0 then Inl (CheckViolation ''bookings_price_cents_check'')
       else if i \<in> b_id ` set (bookings s) then Inl (UniqueViolation ''bookings_pkey'')
       else if list_ex (\<lambda>b. b_user_id b = uid \<and> b_time_slot_id b = lk_id hold \<and>
           b_status b \<noteq> Booking_Cancelled) (bookings s)
         then Inl (UniqueViolation ''uq_bookings_user_slot_active'')
       else Inr (row, s\<lparr>bookings := bookings s @ [row]\<rparr>))"

definition cancel_occupying_booking_tx :: "uuid \<Rightarrow> booking option sql" where
  "cancel_occupying_booking_tx i = (\<lambda>s.
    let hit = (\<lambda>b. b_id b = i \<and> b_status b \<noteq> Booking_Cancelled)
    in Inr (map_option (\<lambda>b. b\<lparr>b_status := Booking_Cancelled\<rparr>) (fetch_by hit (bookings s)),
         s\<lparr>bookings := update_where hit (\<lambda>b. b\<lparr>b_status := Booking_Cancelled\<rparr>) (bookings s)\<rparr>))"

section \<open>The booking handlers\<close>

definition booking_by_id :: "uuid \<Rightarrow> db \<Rightarrow> booking option" where
  "booking_by_id i s = fetch_by (\<lambda>b. b_id b = i) (bookings s)"

record booking_request =
  br_time_slot_id :: uuid
  br_note :: "string option"

definition booking_event :: "booking \<Rightarrow> booking_payload" where
  "booking_event b = \<lparr>bp_booking_id = b_id b, bp_user_id = b_user_id b, bp_time_slot_id = b_time_slot_id b\<rparr>"

definition create_booking_tx ::
  "studio_now \<Rightarrow> uuid \<Rightarrow> booking_request \<Rightarrow> string option \<Rightarrow> booking app" where
  "create_booking_tx at uid req cid =
    bind_tx (db_try (occupy_slot_tx (br_time_slot_id req))) (\<lambda>h.
    bind_tx (of_option_tx (BadRequest ''time slot is full or closed'') h) (\<lambda>hold.
    bind_tx (of_result_tx (require_not_started (sn_tz at) (sn_now at) (lk_date hold) (lk_start_time hold)
      ''time slot'' (BadRequest ''cannot book a time slot that has already started''))) (\<lambda>_.
    bind_tx (map_err_tx (conflict_on_unique ''you already have a booking for this time slot'')
      (insert_occupying_booking_tx hold uid (br_note req))) (\<lambda>booking.
    bind_tx (db_try (insert_domain_event_tx (BookingCreated (booking_event booking)) cid)) (\<lambda>_.
    return_tx booking)))))"

definition create_booking ::
  "studio_now \<Rightarrow> uuid \<Rightarrow> booking_request \<Rightarrow> string option \<Rightarrow> booking handler" where
  "create_booking at uid req cid = then_deliver (commit_tx (create_booking_tx at uid req cid))
    (\<lambda>b. booking_confirmed (b_user_id b) (b_id b))"

definition num_hours :: "int \<Rightarrow> int" where
  "num_hours d = quot_trunc d micros_per_hour"

definition require_cancel_window :: "studio_now \<Rightarrow> booking \<Rightarrow> unit app" where
  "require_cancel_window at booking =
    bind_tx (get_tx (slot_by_id (b_time_slot_id booking))) (\<lambda>r.
    bind_tx (of_option_tx (NotFound ''time slot not found'') r) (\<lambda>slot.
    bind_tx (of_result_tx (to_utc_checked (sn_tz at) (t_date slot) (t_start_time slot) ''time slot'')) (\<lambda>slot_utc.
    ensure_tx (\<not> num_hours (slot_utc - sn_now at) < 24)
      (BadRequest ''cannot cancel within 24 hours of the scheduled time''))))"

definition cancel_booking_tx ::
  "studio_now \<Rightarrow> auth_user \<Rightarrow> uuid \<Rightarrow> string option \<Rightarrow> booking app" where
  "cancel_booking_tx at auth i cid =
    bind_tx (get_tx (booking_by_id i)) (\<lambda>r.
    bind_tx (of_option_tx (NotFound ''booking not found'') r) (\<lambda>booking.
    bind_tx (of_result_tx (owns_or_admin auth (b_user_id booking) ''you can only cancel your own bookings'')) (\<lambda>_.
    bind_tx (ensure_tx (is_cancellable (b_status booking))
      (BadRequest (''booking in state '' @ [CHR 0x27] @ booking_status_as_str (b_status booking) @
        [CHR 0x27] @ '' cannot be cancelled''))) (\<lambda>_.
    bind_tx (if \<not> is_admin auth then require_cancel_window at booking else return_tx ()) (\<lambda>_.
    bind_tx (db_try (cancel_occupying_booking_tx i)) (\<lambda>u.
    bind_tx (of_option_tx (Conflict ''booking is already cancelled'') u) (\<lambda>updated.
    bind_tx (db_try (insert_domain_event_tx (BookingCancelled (booking_event updated)) cid)) (\<lambda>_.
    return_tx updated))))))))"

definition cancel_booking ::
  "studio_now \<Rightarrow> auth_user \<Rightarrow> uuid \<Rightarrow> string option \<Rightarrow> booking handler" where
  "cancel_booking at auth i cid = then_deliver (commit_tx (cancel_booking_tx at auth i cid))
    (\<lambda>b. booking_cancelled (b_user_id b) (b_id b))"

definition my_bookings :: "uuid \<Rightarrow> pagination_params \<Rightarrow> (booking list \<times> page_meta) app" where
  "my_bookings uid p = get_tx (\<lambda>s.
    let mine = filter (\<lambda>b. b_user_id b = uid) (bookings s)
    in (page_rows p (newest_first b_created_at mine), meta p (int (length mine))))"

definition list_all_bookings :: "pagination_params \<Rightarrow> (booking list \<times> page_meta) app" where
  "list_all_bookings p = get_tx (\<lambda>s.
    (page_rows p (newest_first b_created_at (bookings s)), meta p (int (length (bookings s)))))"

lemma sorted_wrt_apart:
  assumes "sorted_wrt (\<lambda>a b. \<not> R a b) xs" "\<And>a b. R a b \<longleftrightarrow> R b a" "x \<in> set xs" "y \<in> set xs" "x \<noteq> y"
  shows "\<not> R x y"
  using assms by (induction xs) auto

lemma distinct_fetch_and:
  assumes "distinct (map k t)" "r \<in> set t"
  shows "fetch_by (\<lambda>x. k x = k r \<and> Q x) t = (if Q r then Some r else None)"
  using assms by (induction t) (auto simp: image_iff fetch_by_None)

lemma count_where_replace:
  assumes "distinct xs" "x \<in> set xs"
  shows "int (count_where P (map (\<lambda>y. if y = x then z else y) xs)) =
    int (count_where P xs) - (if P x then 1 else 0) + (if P z then 1 else 0)"
  using assms
proof (induction xs)
  case (Cons y ys)
  show ?case
  proof (cases "y = x")
    case True
    then have "map (\<lambda>y. if y = x then z else y) ys = ys" using Cons.prems by (auto intro: map_idI)
    then show ?thesis using True by simp
  next
    case False
    then show ?thesis using Cons by (auto split: if_splits)
  qed
qed simp

lemma nearest_share:
  fixes c :: int
  assumes "0 \<le> c"
  shows "quot_trunc (c * 8 + 5) 10 \<le> m \<longleftrightarrow> (\<exists>n \<le> m. \<forall>k. \<bar>10 * n - 8 * c\<bar> \<le> \<bar>10 * k - 8 * c\<bar>)"
proof -
  define q where "q = (c * 8 + 5) div 10"
  have q: "10 * q \<le> 8 * c + 5" "8 * c + 5 < 10 * q + 10" unfolding q_def by linarith+
  then have near: "\<bar>10 * q - 8 * c\<bar> < 5" by presburger
  have far: "\<bar>10 * q - 8 * c\<bar> < \<bar>10 * k - 8 * c\<bar>" if "k \<noteq> q" for k
  proof -
    have "10 \<le> 10 * k - 10 * q \<or> 10 * k - 10 * q \<le> - 10" using that by presburger
    then show ?thesis using near by linarith
  qed
  have "n = q" if "\<forall>k. \<bar>10 * n - 8 * c\<bar> \<le> \<bar>10 * k - 8 * c\<bar>" for n
    using far [of n] that [rule_format, of q] by (cases "n = q") simp_all
  moreover have "\<bar>10 * q - 8 * c\<bar> \<le> \<bar>10 * k - 8 * c\<bar>" for k
    using far [of k] by (cases "k = q") simp_all
  ultimately have "(\<exists>n \<le> m. \<forall>k. \<bar>10 * n - 8 * c\<bar> \<le> \<bar>10 * k - 8 * c\<bar>) \<longleftrightarrow> q \<le> m" by blast
  then show ?thesis using assms by (simp add: q_def)
qed

section \<open>What keeps a rental calendar consistent\<close>

definition occupying :: "booking \<Rightarrow> bool" where
  "occupying b = (b_status b \<noteq> Booking_Cancelled)"

definition calendar_ok :: "time_slot list \<Rightarrow> booking list \<Rightarrow> bool" where
  "calendar_ok slots bs \<longleftrightarrow> distinct (map t_id slots) \<and> distinct (map b_id bs) \<and>
    (\<forall>ts \<in> set slots. t_start_time ts < t_end_time ts \<and>
      int (count_where (\<lambda>b. b_time_slot_id b = t_id ts \<and> occupying b) bs) \<le> t_capacity ts) \<and>
    sorted_wrt (\<lambda>a b. \<not> venue_overlap a b) slots \<and>
    distinct (map (\<lambda>b. (b_user_id b, b_time_slot_id b)) (filter occupying bs)) \<and>
    (\<forall>b \<in> set bs. b_time_slot_id b \<in> t_id ` set slots)"

definition rentals_ok :: "db \<Rightarrow> bool" where
  "rentals_ok s = calendar_ok (time_slots s) (bookings s)"

lemma occupies_seat_iff: "occupies_seat st \<longleftrightarrow> st \<noteq> Booking_Cancelled"
  by (cases st) simp_all

lemma occupying_bookings_view: "occupying_bookings s = filter (\<lambda>b. occupies_seat (b_status b)) (bookings s)"
proof -
  have "st \<in> {Booking_Pending, Booking_Confirmed, Booking_Completed, Booking_NoShow} \<longleftrightarrow> occupies_seat st" for st
    by (cases st) simp_all
  then show ?thesis by (simp add: occupying_bookings_def)
qed

lemma booked_count_eq:
  "booked_count tid s = int (count_where (\<lambda>b. b_time_slot_id b = tid \<and> occupying b) (bookings s))"
  unfolding booked_count_def occupying_bookings_view count_where_def
  by (simp add: occupies_seat_iff occupying_def conj_commute)

lemma rentals_ok_frame: "time_slots s' = time_slots s \<Longrightarrow> bookings s' = bookings s \<Longrightarrow> rentals_ok s' = rentals_ok s"
  by (simp add: rentals_ok_def)

lemma return_tx_Inr: "return_tx x s = Inr (y, t) \<longleftrightarrow> y = x \<and> t = s"
  by auto

lemma event_frame [leaves_intros]:
  "leaves (\<lambda>s. (time_slots s, bookings s)) (insert_domain_event_tx ev cid)"
  by (auto simp: insert_domain_event_tx_def insert_event_tx_def leaves_def bind_tx_Inr split: if_splits)

lemma insert_slot_Inr:
  "insert_slot ir s = Inr (row, s') \<longleftrightarrow> row = new_slot s (fst ir) (snd ir) \<and>
    s' = s\<lparr>time_slots := time_slots s @ [row]\<rparr> \<and> t_start_time row < t_end_time row \<and> 0 \<le> t_capacity row \<and>
    0 \<le> t_price_cents row \<and> t_id row \<notin> t_id ` set (time_slots s) \<and>
    (\<forall>x \<in> set (time_slots s). \<not> venue_overlap row x)"
  by (auto simp: insert_slot_def Let_def list_ex_iff)

lemma venue_overlap_sym: "venue_overlap a b \<longleftrightarrow> venue_overlap b a"
  by (auto simp: venue_overlap_def)

lemma calendar_ok_slot:
  assumes ok: "calendar_ok slots bs" and row: "t_start_time row < t_end_time row" "0 \<le> t_capacity row"
    "t_id row \<notin> t_id ` set slots" "\<forall>x \<in> set slots. \<not> venue_overlap row x"
  shows "calendar_ok (slots @ [row]) bs"
proof -
  have "\<forall>b \<in> set bs. b_time_slot_id b \<noteq> t_id row" using ok row(3) unfolding calendar_ok_def by metis
  then have none: "count_where (\<lambda>b. b_time_slot_id b = t_id row \<and> occupying b) bs = 0"
    by (simp add: count_where_def filter_empty_conv)
  have "\<forall>x \<in> set slots. \<not> venue_overlap x row" using row(4) venue_overlap_sym by metis
  then show ?thesis using ok row none
    unfolding calendar_ok_def by (auto simp: sorted_wrt_append)
qed

lemma keeps_insert_slot [keeps_intros]: "keeps rentals_ok (insert_slot ir)"
  unfolding keeps_def rentals_ok_def insert_slot_Inr
  by (auto intro!: calendar_ok_slot)

lemma calendar_ok_closed:
  "calendar_ok (update_where P (\<lambda>r. r\<lparr>t_is_closed := c\<rparr>) slots) bs = calendar_ok slots bs"
proof -
  let ?f = "\<lambda>r. if P r then r\<lparr>t_is_closed := c\<rparr> else r"
  have ids: "map t_id (map ?f slots) = map t_id slots" by simp
  have img: "t_id ` set (map ?f slots) = t_id ` set slots"
    using arg_cong [OF ids, of set] by (simp only: set_map)
  have ov: "venue_overlap (?f a) (?f b) = venue_overlap a b" for a b by (simp add: venue_overlap_def)
  show ?thesis
    unfolding calendar_ok_def update_where_def ids sorted_wrt_map ov img unfolding set_map ball_simps by simp
qed

lemma keeps_set_closed [keeps_intros]: "keeps rentals_ok (set_closed i c)"
  by (simp add: keeps_def set_closed_def rentals_ok_def calendar_ok_closed Let_def)

section \<open>Booking and cancelling\<close>

lemma occupy_slot_tx_Inr:
  "occupy_slot_tx tid s = Inr (r, s') \<Longrightarrow> s' = s"
  "occupy_slot_tx tid s = Inr (Some hold, s') \<Longrightarrow> (\<exists>ts \<in> set (time_slots s). t_id ts = tid \<and>
    \<not> t_is_closed ts \<and> booked_count tid s < t_capacity ts \<and> lk_id hold = tid \<and> lk_date hold = t_date ts \<and>
    lk_start_time hold = t_start_time ts \<and> lk_price_cents hold = t_price_cents ts)"
  by (auto simp: occupy_slot_tx_def bind_tx_Inr dest!: fetch_by_Some split: option.splits if_splits)

lemma insert_occupying_booking_tx_Inr:
  "insert_occupying_booking_tx hold uid remark s = Inr (b, s') \<longleftrightarrow>
    b = \<lparr>b_id = uuid_supply s (uuid_pos s), b_user_id = uid, b_time_slot_id = lk_id hold,
      b_status = Booking_Confirmed, b_note = remark, b_price_cents = lk_price_cents hold,
      b_created_at = db_now s\<rparr> \<and>
    s' = s\<lparr>uuid_pos := uuid_pos s + 1, bookings := bookings s @ [b]\<rparr> \<and> 0 \<le> lk_price_cents hold \<and>
    b_id b \<notin> b_id ` set (bookings s) \<and>
    \<not> (\<exists>x \<in> set (bookings s). b_user_id x = uid \<and> b_time_slot_id x = lk_id hold \<and> occupying x)"
  by (auto simp: insert_occupying_booking_tx_def bind_tx_def Let_def list_ex_iff occupying_def split: if_splits)

lemma insert_domain_event_tx_Inr:
  "insert_domain_event_tx ev cid s = Inr (u, s') \<Longrightarrow>
    time_slots s' = time_slots s \<and> bookings s' = bookings s \<and> (\<exists>row. events_outbox s' = events_outbox s @ [row] \<and>
      ke_data (ob_payload row) = ev \<and> ob_topic row = es_topic (event_spec_of ev) \<and> ob_published_at row = None)"
  by (auto simp: insert_domain_event_tx_def insert_event_tx_def bind_tx_Inr split: if_splits)

lemma create_booking_txE:
  assumes "create_booking_tx at uid req cid s = Inr (b, s')"
  obtains ts row where "ts \<in> set (time_slots s)" "t_id ts = br_time_slot_id req" "\<not> t_is_closed ts"
    "booked_count (t_id ts) s < t_capacity ts"
    "has_started (sn_tz at) (sn_now at) (t_date ts) (t_start_time ts) = Some False"
    "b_id b \<notin> b_id ` set (bookings s)" "b_user_id b = uid" "b_time_slot_id b = t_id ts"
    "b_status b = Booking_Confirmed" "b_note b = br_note req" "b_price_cents b = t_price_cents ts"
    "\<not> (\<exists>x \<in> set (bookings s). b_user_id x = uid \<and> b_time_slot_id x = t_id ts \<and> occupying x)"
    "time_slots s' = time_slots s" "bookings s' = bookings s @ [b]"
    "events_outbox s' = events_outbox s @ [row]" "ke_data (ob_payload row) = BookingCreated (booking_event b)"
proof -
  obtain hold s1 s2 u where 1: "occupy_slot_tx (br_time_slot_id req) s = Inr (Some hold, s1)"
    and 2: "require_not_started (sn_tz at) (sn_now at) (lk_date hold) (lk_start_time hold) ''time slot''
      (BadRequest ''cannot book a time slot that has already started'') = Inr ()"
    and 3: "insert_occupying_booking_tx hold uid (br_note req) s1 = Inr (b, s2)"
    and 4: "insert_domain_event_tx (BookingCreated (booking_event b)) cid s2 = Inr (u, s')"
    using assms unfolding create_booking_tx_def bind_tx_Inr db_try_Inr map_err_tx_Inr of_option_tx_Inr
      of_result_tx_Inr return_tx_Inr sum.inject prod.inject
    by clarify (rule that; simp)
  note o = occupy_slot_tx_Inr(2) [OF 1] occupy_slot_tx_Inr(1) [OF 1]
  obtain ts where ts: "ts \<in> set (time_slots s)" "t_id ts = br_time_slot_id req" "\<not> t_is_closed ts"
    "booked_count (br_time_slot_id req) s < t_capacity ts" "lk_id hold = br_time_slot_id req"
    "lk_date hold = t_date ts" "lk_start_time hold = t_start_time ts" "lk_price_cents hold = t_price_cents ts"
    using o(1) by blast
  note i = 3 [unfolded insert_occupying_booking_tx_Inr o(2)]
  have started: "has_started (sn_tz at) (sn_now at) (t_date ts) (t_start_time ts) = Some False"
    using 2 unfolding require_not_started_iff ts by blast
  from insert_domain_event_tx_Inr [OF 4] obtain row where e: "time_slots s' = time_slots s2"
    "bookings s' = bookings s2" "events_outbox s' = events_outbox s2 @ [row]"
    "ke_data (ob_payload row) = BookingCreated (booking_event b)" by blast
  show thesis
  proof (rule that [of ts row])
    show "bookings s' = bookings s @ [b]" "time_slots s' = time_slots s"
      "events_outbox s' = events_outbox s @ [row]" unfolding e using i by auto
  qed (use ts i started e(4) in auto)
qed

lemma calendar_okD:
  assumes "calendar_ok slots bs"
  shows "distinct (map t_id slots)" "distinct (map b_id bs)" "sorted_wrt (\<lambda>a b. \<not> venue_overlap a b) slots"
    "distinct (map (\<lambda>b. (b_user_id b, b_time_slot_id b)) (filter occupying bs))"
    "ts \<in> set slots \<Longrightarrow> t_start_time ts < t_end_time ts"
    "ts \<in> set slots \<Longrightarrow> int (count_where (\<lambda>b. b_time_slot_id b = t_id ts \<and> occupying b) bs) \<le> t_capacity ts"
    "b \<in> set bs \<Longrightarrow> b_time_slot_id b \<in> t_id ` set slots"
  using assms unfolding calendar_ok_def by blast+

lemma calendar_ok_book:
  assumes ok: "calendar_ok slots bs" and ts: "ts \<in> set slots" "b_time_slot_id b = t_id ts"
    "int (count_where (\<lambda>x. b_time_slot_id x = t_id ts \<and> occupying x) bs) < t_capacity ts"
    and b: "b_id b \<notin> b_id ` set bs" "occupying b"
    "\<not> (\<exists>x \<in> set bs. b_user_id x = b_user_id b \<and> b_time_slot_id x = t_id ts \<and> occupying x)"
  shows "calendar_ok slots (bs @ [b])"
  unfolding calendar_ok_def
proof (intro conjI ballI)
  fix r assume r: "r \<in> set slots"
  show "t_start_time r < t_end_time r" by (rule calendar_okD(5) [OF ok r])
  show "int (count_where (\<lambda>b. b_time_slot_id b = t_id r \<and> occupying b) (bs @ [b])) \<le> t_capacity r"
  proof (cases "t_id r = t_id ts")
    case True
    then have "r = ts" using calendar_okD(1) [OF ok] r ts(1) by (metis distinct_key_fetch option.inject)
    then show ?thesis using ts b(2) by simp
  next
    case False
    then show ?thesis using calendar_okD(6) [OF ok r] ts(2) by simp
  qed
next
  show "distinct (map (\<lambda>b. (b_user_id b, b_time_slot_id b)) (filter occupying (bs @ [b])))"
    using calendar_okD(4) [OF ok] b(2,3) ts(2) by auto
next
  fix x assume "x \<in> set (bs @ [b])"
  then show "b_time_slot_id x \<in> t_id ` set slots" using calendar_okD(7) [OF ok] ts(1,2) by auto
qed (use calendar_okD(1-3) [OF ok] b(1) in simp_all)

lemma keeps_create_booking: "keeps rentals_ok (create_booking_tx at uid req cid)"
proof (rule keepsI)
  fix s b s'
  assume ok: "rentals_ok s" and run: "create_booking_tx at uid req cid s = Inr (b, s')"
  from run show "rentals_ok s'"
  proof (rule create_booking_txE)
    fix ts row
    assume slot: "ts \<in> set (time_slots s)" "b_time_slot_id b = t_id ts" "booked_count (t_id ts) s < t_capacity ts"
      and b: "b_id b \<notin> b_id ` set (bookings s)" "b_user_id b = uid" "b_status b = Booking_Confirmed"
      and single: "\<not> (\<exists>x \<in> set (bookings s). b_user_id x = uid \<and> b_time_slot_id x = t_id ts \<and> occupying x)"
      and s': "time_slots s' = time_slots s" "bookings s' = bookings s @ [b]"
    show "rentals_ok s'"
      unfolding rentals_ok_def s'
      by (rule calendar_ok_book [OF ok [unfolded rentals_ok_def] slot(1,2) slot(3) [unfolded booked_count_eq] b(1)])
        (use b single in \<open>simp_all add: occupying_def\<close>)
  qed
qed

lemma cancel_booking_txE:
  assumes "cancel_booking_tx at auth i cid s = Inr (b, s')"
  obtains old row where "booking_by_id i s = Some old" "au_user_id auth = b_user_id old \<or> is_admin auth"
    "is_cancellable (b_status old)" "b = old\<lparr>b_status := Booking_Cancelled\<rparr>"
    "\<not> is_admin auth \<Longrightarrow> \<exists>ts start. slot_by_id (b_time_slot_id old) s = Some ts \<and>
      to_utc (sn_tz at) (t_date ts) (t_start_time ts) = Some start \<and>
      24 \<le> num_hours (start - sn_now at)"
    "time_slots s' = time_slots s"
    "bookings s' = update_where (\<lambda>x. b_id x = i \<and> b_status x \<noteq> Booking_Cancelled)
      (\<lambda>x. x\<lparr>b_status := Booking_Cancelled\<rparr>) (bookings s)"
    "events_outbox s' = events_outbox s @ [row]" "ke_data (ob_payload row) = BookingCancelled (booking_event b)"
proof -
  let ?hit = "\<lambda>x. b_id x = i \<and> b_status x \<noteq> Booking_Cancelled"
  let ?s1 = "s\<lparr>bookings := update_where ?hit (\<lambda>x. x\<lparr>b_status := Booking_Cancelled\<rparr>) (bookings s)\<rparr>"
  have window: "t = s \<and> (\<exists>ts start. slot_by_id (b_time_slot_id old) s = Some ts \<and>
      to_utc (sn_tz at) (t_date ts) (t_start_time ts) = Some start \<and> 24 \<le> num_hours (start - sn_now at))"
    if "require_cancel_window at old s = Inr (u, t)" for old u t
    using that by (auto simp: require_cancel_window_def bind_tx_Inr to_utc_checked_def not_less split: option.splits)
  obtain old u w where 1: "booking_by_id i s = Some old" "au_user_id auth = b_user_id old \<or> is_admin auth"
    "is_cancellable (b_status old)"
    and 2: "(if \<not> is_admin auth then require_cancel_window at old else return_tx ()) s = Inr (u, s)"
    and 3: "map_option (\<lambda>b. b\<lparr>b_status := Booking_Cancelled\<rparr>) (fetch_by ?hit (bookings s)) = Some b"
    and 4: "insert_domain_event_tx (BookingCancelled (booking_event b)) cid ?s1 = Inr (w, s')"
  proof -
    obtain old u w s0 where 1: "booking_by_id i s = Some old" "au_user_id auth = b_user_id old \<or> is_admin auth"
      "is_cancellable (b_status old)"
      and 2: "(if \<not> is_admin auth then require_cancel_window at old else return_tx ()) s = Inr (u, s0)"
      and 3: "cancel_occupying_booking_tx i s0 = Inr (Some b, w)"
      and 4: "\<exists>x. insert_domain_event_tx (BookingCancelled (booking_event b)) cid w = Inr (x, s')"
      using assms unfolding cancel_booking_tx_def bind_tx_Inr db_try_Inr of_option_tx_Inr get_tx_run
        of_result_tx_Inr ensure_tx_Inr return_tx_Inr sum.inject prod.inject
      by clarify (rule that; (simp | (rule exI, simp)))
    have s0: "s0 = s" using 2 window by (auto split: if_splits)
    show thesis
      using that [OF 1] 2 3 4 unfolding s0 cancel_occupying_booking_tx_def Let_def by auto
  qed
  have found: "fetch_by (\<lambda>x. b_id x = i) (bookings s) = Some old" using 1(1) by (simp add: booking_by_id_def)
  have hit: "fetch_by ?hit (bookings s) = Some old" if "fetch_by (\<lambda>x. b_id x = i) t = Some old" "b_status old \<noteq> Booking_Cancelled"
      "bookings s = t" for t using that(1,2) unfolding that(3)
    by (induction t) (auto split: if_splits)
  have live: "b_status old \<noteq> Booking_Cancelled" using 1(3) by auto
  have b: "b = old\<lparr>b_status := Booking_Cancelled\<rparr>" using 3 hit [OF found live refl] by simp
  from insert_domain_event_tx_Inr [OF 4] obtain row where e: "time_slots s' = time_slots ?s1"
    "bookings s' = bookings ?s1" "events_outbox s' = events_outbox ?s1 @ [row]"
    "ke_data (ob_payload row) = BookingCancelled (booking_event b)" by blast
  show thesis
  proof (rule that [OF 1 b])
    assume "\<not> is_admin auth"
    then have "require_cancel_window at old s = Inr (u, s)" using 2 by (simp only: if_True simp_thms)
    then show "\<exists>ts start. slot_by_id (b_time_slot_id old) s = Some ts \<and>
      to_utc (sn_tz at) (t_date ts) (t_start_time ts) = Some start \<and> 24 \<le> num_hours (start - sn_now at)"
      using window by blast
  qed (use e in simp_all)
qed

lemma calendar_ok_cancel:
  assumes ok: "calendar_ok slots bs"
  shows "calendar_ok slots (update_where P (\<lambda>x. x\<lparr>b_status := Booking_Cancelled\<rparr>) bs)"
  unfolding calendar_ok_def
proof (intro conjI ballI)
  let ?f = "\<lambda>x. x\<lparr>b_status := Booking_Cancelled\<rparr>"
  have fewer: "count_where (\<lambda>b. Q b \<and> occupying b) (update_where P ?f bs) \<le> count_where (\<lambda>b. Q b \<and> occupying b) bs"
    if "\<And>b st. Q (b\<lparr>b_status := st\<rparr>) = Q b" for Q
    using that by (induction bs) (auto simp: occupying_def)
  have "set (map k (filter occupying (update_where P ?f bs))) \<subseteq> set (map k (filter occupying bs)) \<and>
      (distinct (map k (filter occupying bs)) \<longrightarrow> distinct (map k (filter occupying (update_where P ?f bs))))"
    for k :: "booking \<Rightarrow> uuid \<times> uuid"
    by (induction bs) (auto simp: occupying_def)
  then show "distinct (map (\<lambda>b. (b_user_id b, b_time_slot_id b)) (filter occupying (update_where P ?f bs)))"
    using calendar_okD(4) [OF ok] by blast
  show "t_start_time r < t_end_time r" if "r \<in> set slots" for r by (rule calendar_okD(5) [OF ok that])
  show "int (count_where (\<lambda>b. b_time_slot_id b = t_id r \<and> occupying b) (update_where P ?f bs)) \<le> t_capacity r"
    if "r \<in> set slots" for r
    using calendar_okD(6) [OF ok that] fewer [of "\<lambda>b. b_time_slot_id b = t_id r"] by simp
  show "b_time_slot_id x \<in> t_id ` set slots" if "x \<in> set (update_where P ?f bs)" for x
    using that calendar_okD(7) [OF ok] by (auto simp: set_update_where)
qed (use calendar_okD(1-3) [OF ok] in \<open>simp_all add: map_update_where\<close>)
lemma keeps_cancel_booking: "keeps rentals_ok (cancel_booking_tx at auth i cid)"
proof (rule keepsI)
  fix s b s'
  assume ok: "rentals_ok s" and run: "cancel_booking_tx at auth i cid s = Inr (b, s')"
  from run show "rentals_ok s'"
    by (rule cancel_booking_txE) (simp add: rentals_ok_def calendar_ok_cancel [OF ok [unfolded rentals_ok_def]])
qed

lemma keeps_parse_slot: "keeps P (parse_slot ch at e)"
  unfolding parse_slot_def by (intro keeps_intros)

lemma keeps_bulk: "keeps rentals_ok (bulk_create_tx rows)"
  unfolding bulk_create_tx_def by (intro keeps_intros) (simp add: rentals_ok_def)

lemma keeps_create_slots:
  "keeps rentals_ok (bind_tx (for_tx (parse_slot ch at) entries) (\<lambda>parsed_slots.
    bind_tx (map_err_tx (conflict_on_exclusion slot_taken) (bulk_create_tx parsed_slots)) (\<lambda>slots.
    get_tx (\<lambda>s. map (time_slot_response_of s) slots))))"
  by (intro keeps_intros keeps_parse_slot keeps_bulk)

lemma keeps_update_slot:
  "keeps rentals_ok (bind_tx (db_try (set_closed i c)) (\<lambda>r.
    bind_tx (of_option_tx (NotFound ''time slot not found'') r) (\<lambda>slot.
    get_tx (\<lambda>s. time_slot_response_of s slot))))"
  by (intro keeps_intros)

section \<open>Any sequence of requests\<close>

datatype rental_request =
    CreateSlots studio_now "slot_entry list"
  | UpdateSlot uuid bool
  | CreateBooking studio_now uuid booking_request "string option"
  | CancelBooking studio_now auth_user uuid "string option"

fun rental_handle :: "chrono \<Rightarrow> rental_request \<Rightarrow> db \<Rightarrow> db" where
  "rental_handle ch (CreateSlots at entries) s = snd (create_slots ch at entries s)"
| "rental_handle ch (UpdateSlot i c) s = snd (update_slot i c s)"
| "rental_handle ch (CreateBooking at uid req cid) s = snd (create_booking at uid req cid s)"
| "rental_handle ch (CancelBooking at auth i cid) s = snd (cancel_booking at auth i cid s)"

text \<open>
  A step of the system: a rental request, or anything else that leaves the two rental tables alone
  (the clock moving, an order, a drain of the outbox).
\<close>

inductive rental_step :: "chrono \<Rightarrow> db \<Rightarrow> db \<Rightarrow> bool" for ch where
  request: "rental_step ch s (rental_handle ch r s)"
| elsewhere: "time_slots s' = time_slots s \<Longrightarrow> bookings s' = bookings s \<Longrightarrow> rental_step ch s s'"

inductive rental_reachable :: "chrono \<Rightarrow> db \<Rightarrow> bool" for ch where
  start: "time_slots s = [] \<Longrightarrow> bookings s = [] \<Longrightarrow> rental_reachable ch s"
| step: "rental_reachable ch s \<Longrightarrow> rental_step ch s s' \<Longrightarrow> rental_reachable ch s'"

lemma commit_keeps: "keeps P m \<Longrightarrow> P s \<Longrightarrow> P (snd (commit_tx m s))"
  by (auto simp: commit_tx_state keeps_def split: sum.splits)

lemma then_deliver_keeps:
  assumes "keeps rentals_ok m" "rentals_ok s"
  shows "rentals_ok (snd (then_deliver (commit_tx m) tell s))"
proof (rule then_deliver_cases [of m s tell])
  fix x s'
  assume "m s = Inr (x, s')" and eq: "then_deliver (commit_tx m) tell s = (Inr x, deliver (tell x) s')"
  then have "rentals_ok s'" using assms unfolding keeps_def by metis
  then show ?thesis unfolding eq by (simp add: rentals_ok_def)
qed (use assms in simp)

lemma rental_handle_keeps: "rentals_ok s \<Longrightarrow> rentals_ok (rental_handle ch r s)"
proof (cases r)
  case (CreateSlots at entries)
  assume "rentals_ok s"
  then show ?thesis
    unfolding CreateSlots rental_handle.simps create_slots_def by (rule commit_keeps [OF keeps_create_slots])
next
  case (UpdateSlot i c)
  assume "rentals_ok s"
  then show ?thesis
    unfolding UpdateSlot rental_handle.simps update_slot_def by (rule commit_keeps [OF keeps_update_slot])
next
  case (CreateBooking at uid req cid)
  assume "rentals_ok s"
  then show ?thesis
    unfolding CreateBooking rental_handle.simps create_booking_def
    by (rule then_deliver_keeps [OF keeps_create_booking])
next
  case (CancelBooking at auth i cid)
  assume "rentals_ok s"
  then show ?thesis
    unfolding CancelBooking rental_handle.simps cancel_booking_def
    by (rule then_deliver_keeps [OF keeps_cancel_booking])
qed

lemma rental_reachable_ok: "rental_reachable ch s \<Longrightarrow> rentals_ok s"
proof (induction rule: rental_reachable.induct)
  case (start s)
  then show ?case by (simp add: rentals_ok_def calendar_ok_def)
next
  case (step s s')
  from step.hyps(2) show ?case
  proof cases
    case (request r)
    then show ?thesis using rental_handle_keeps [OF step.IH] by simp
  next
    case elsewhere
    then show ?thesis using step.IH by (simp add: rentals_ok_def)
  qed
qed

section \<open>The properties\<close>

definition chrono_example :: chrono where
  "chrono_example = \<lparr>
     naive_date_from_str = (\<lambda>x fmt. if x = ''2026-07-05'' \<and> fmt = ''%Y-%m-%d'' then Some (day_number 2026 7 5) else None),
     naive_time_from_str = (\<lambda>x fmt. if fmt \<noteq> ''%H:%M'' then None
       else if x = ''10:00'' then Some (10 * micros_per_hour)
       else if x = ''11:00'' then Some (11 * micros_per_hour)
       else if x = ''12:00'' then Some (12 * micros_per_hour) else None)\<rparr>"

definition june :: studio_now where
  "june = \<lparr>sn_tz = taipei, sn_now = day_number 2026 6 1 * micros_per_day\<rparr>"

definition entry :: "string \<Rightarrow> string \<Rightarrow> slot_entry" where
  "entry a b = \<lparr>se_date = ''2026-07-05'', se_start_time = a, se_end_time = b, se_venue_id = Some 5,
     se_course_id = None, se_capacity = 1, se_price_cents = Some 500\<rparr>"

definition rental_open :: db where
  "rental_open = rental_handle chrono_example (CreateSlots june [entry ''10:00'' ''11:00'', entry ''11:00'' ''12:00''])
    (empty_db\<lparr>uuid_supply := (\<lambda>n. n)\<rparr>)"

definition rental_full :: db where
  "rental_full = rental_handle chrono_example (CreateBooking june 7 \<lparr>br_time_slot_id = 0, br_note = None\<rparr> None) rental_open"

lemma rental_full_slots:
  "time_slots rental_full =
    [new_slot empty_db 0 \<lparr>sr_date = 20639, sr_start_time = 36000000000, sr_end_time = 39600000000,
        sr_venue_id = Some 5, sr_course_id = None, sr_capacity = 1, sr_price_cents = 500\<rparr>,
       new_slot empty_db 1 \<lparr>sr_date = 20639, sr_start_time = 39600000000, sr_end_time = 43200000000,
        sr_venue_id = Some 5, sr_course_id = None, sr_capacity = 1, sr_price_cents = 500\<rparr>]"
  by code_simp

lemma rental_full_bookings:
  "bookings rental_full = [\<lparr>b_id = 2, b_user_id = 7, b_time_slot_id = 0, b_status = Booking_Confirmed,
     b_note = None, b_price_cents = 500, b_created_at = 0\<rparr>]"
  by code_simp

lemma rental_full_counts: "booked_count 0 rental_full = 1" "booked_count 1 rental_full = 0"
  by (simp_all add: booked_count_eq rental_full_bookings occupying_def)

lemma rental_full_reachable: "rental_reachable chrono_example rental_open" "rental_reachable chrono_example rental_full"
proof -
  have "rental_reachable chrono_example (empty_db\<lparr>uuid_supply := (\<lambda>n. n)\<rparr>)" by (rule rental_reachable.start) (simp_all add: empty_db_def)
  then show "rental_reachable chrono_example rental_open" unfolding rental_open_def by (rule rental_reachable.step [OF _ request])
  then show "rental_reachable chrono_example rental_full" unfolding rental_full_def by (rule rental_reachable.step [OF _ request])
qed

text \<open>
  C18. Whatever requests reach the venue calendar, in whatever order and whatever else happens in
  between, no slot is booked beyond its capacity, no user holds two live bookings of one slot, and no
  two slots of a venue overlap.
\<close>

theorem rentals_invariant:
  assumes "rental_reachable ch s"
  shows "(\<forall>ts \<in> set (time_slots s). booked_count (t_id ts) s \<le> t_capacity ts) \<and>
    (\<forall>a \<in> set (bookings s). \<forall>b \<in> set (bookings s). b_status a \<noteq> Booking_Cancelled \<longrightarrow>
      b_status b \<noteq> Booking_Cancelled \<longrightarrow> b_user_id a = b_user_id b \<longrightarrow>
      b_time_slot_id a = b_time_slot_id b \<longrightarrow> a = b) \<and>
    (\<forall>x \<in> set (time_slots s). \<forall>y \<in> set (time_slots s). x \<noteq> y \<longrightarrow> \<not> venue_overlap x y)"
proof (intro conjI ballI impI)
  have ok: "calendar_ok (time_slots s) (bookings s)"
    using rental_reachable_ok [OF assms] by (simp add: rentals_ok_def)
  show "booked_count (t_id ts) s \<le> t_capacity ts" if "ts \<in> set (time_slots s)" for ts
    using calendar_okD(6) [OF ok that] by (simp add: booked_count_eq)
  show "a = b" if "a \<in> set (bookings s)" "b \<in> set (bookings s)" "b_status a \<noteq> Booking_Cancelled"
    "b_status b \<noteq> Booking_Cancelled" "b_user_id a = b_user_id b" "b_time_slot_id a = b_time_slot_id b" for a b
    using calendar_okD(4) [OF ok] that by (auto simp: distinct_map inj_on_def occupying_def)
  show "\<not> venue_overlap x y" if "x \<in> set (time_slots s)" "y \<in> set (time_slots s)" "x \<noteq> y" for x y
    using sorted_wrt_apart [OF calendar_okD(3) [OF ok] venue_overlap_sym that] .
qed

lemma rentals_invariant_witness:
  "map t_id (time_slots rental_full) = [0, 1] \<and> booked_count 0 rental_full = 1 \<and>
   booked_count 0 rental_full \<le> 1 \<and> \<not> venue_overlap (time_slots rental_full ! 0) (time_slots rental_full ! 1)"
proof -
  note inv = rentals_invariant [OF rental_full_reachable(2)]
  have "booked_count 0 rental_full \<le> 1" using inv [THEN conjunct1, rule_format, of "time_slots rental_full ! 0"] by (simp add: rental_full_slots new_slot_def)
  moreover have "\<not> venue_overlap (time_slots rental_full ! 0) (time_slots rental_full ! 1)"
    by (rule inv [THEN conjunct2, THEN conjunct2, rule_format]) (simp_all add: rental_full_slots new_slot_def)
  ultimately show ?thesis using rental_full_counts by (simp add: rental_full_slots new_slot_def)
qed

text \<open>
  C20. A booking that succeeds was for an open slot with a seat left that has not started; it is the
  user's only live booking of the slot, keeps the price of the moment, takes exactly one seat and
  queues one event. A booking that fails changes nothing.
\<close>

theorem booking_takes_seat:
  assumes "create_booking at uid req cid s = (r, s')"
  shows "case r of Inl e \<Rightarrow> s' = s | Inr b \<Rightarrow> \<exists>ts row. ts \<in> set (time_slots s) \<and> t_id ts = br_time_slot_id req \<and>
      \<not> t_is_closed ts \<and> booked_count (t_id ts) s < t_capacity ts \<and>
      has_started (sn_tz at) (sn_now at) (t_date ts) (t_start_time ts) = Some False \<and>
      time_slots s' = time_slots s \<and> bookings s' = bookings s @ [b] \<and> b_user_id b = uid \<and>
      b_status b = Booking_Confirmed \<and> b_price_cents b = t_price_cents ts \<and>
      (\<forall>tid. booked_count tid s' = booked_count tid s + (if tid = t_id ts then 1 else 0)) \<and>
      events_outbox s' = events_outbox s @ [row] \<and> ke_data (ob_payload row) = BookingCreated (booking_event b)"
proof -
  let ?tell = "\<lambda>b. booking_confirmed (b_user_id b) (b_id b)"
  have run: "then_deliver (commit_tx (create_booking_tx at uid req cid)) ?tell s = (r, s')"
    using assms by (simp add: create_booking_def)
  have fail: "s' = s" if "r = Inl e" for e
    using run that by (rule_tac then_deliver_cases [of "create_booking_tx at uid req cid" s ?tell]) auto
  show ?thesis
  proof (cases r)
    case (Inl e)
    then show ?thesis using fail by simp
  next
    case r: (Inr b)
  obtain t where t: "create_booking_tx at uid req cid s = Inr (b, t)" "s' = deliver (?tell b) t"
    using run unfolding r by (rule_tac then_deliver_cases [of "create_booking_tx at uid req cid" s ?tell]) auto
  from t(1) show ?thesis unfolding r sum.case
  proof (rule create_booking_txE)
    fix ts row
    assume A: "ts \<in> set (time_slots s)" "t_id ts = br_time_slot_id req" "\<not> t_is_closed ts"
      "booked_count (t_id ts) s < t_capacity ts"
      "has_started (sn_tz at) (sn_now at) (t_date ts) (t_start_time ts) = Some False"
      and B: "b_user_id b = uid" "b_time_slot_id b = t_id ts" "b_status b = Booking_Confirmed"
      "b_price_cents b = t_price_cents ts"
      and C: "time_slots t = time_slots s" "bookings t = bookings s @ [b]" "events_outbox t = events_outbox s @ [row]"
      "ke_data (ob_payload row) = BookingCreated (booking_event b)"
    have "booked_count tid s' = booked_count tid s + (if tid = t_id ts then 1 else 0)" for tid
      using B(2,3) by (simp add: booked_count_eq t(2) C(2) occupying_def)
    then show "\<exists>ts row. ts \<in> set (time_slots s) \<and> t_id ts = br_time_slot_id req \<and>
      \<not> t_is_closed ts \<and> booked_count (t_id ts) s < t_capacity ts \<and>
      has_started (sn_tz at) (sn_now at) (t_date ts) (t_start_time ts) = Some False \<and>
      time_slots s' = time_slots s \<and> bookings s' = bookings s @ [b] \<and> b_user_id b = uid \<and>
      b_status b = Booking_Confirmed \<and> b_price_cents b = t_price_cents ts \<and>
      (\<forall>tid. booked_count tid s' = booked_count tid s + (if tid = t_id ts then 1 else 0)) \<and>
      events_outbox s' = events_outbox s @ [row] \<and> ke_data (ob_payload row) = BookingCreated (booking_event b)"
      using A B(1,3,4) C(4)
      by (intro exI [of _ ts] exI [of _ row] conjI) (simp_all add: t(2) C(1-3))
  qed
  qed
qed

lemma booking_takes_seat_witness:
  "booked_count 0 rental_open = 0 \<and> booked_count 0 rental_full = 1 \<and> booked_count 1 rental_full = 0"
proof -
  let ?req = "\<lparr>br_time_slot_id = 0, br_note = None\<rparr>" and ?b = "bookings rental_full ! 0"
  have run: "create_booking june 7 ?req None rental_open = (Inr ?b, rental_full)"
  proof -
    have "fst (create_booking june 7 ?req None rental_open) = Inr ?b" by code_simp
    then show ?thesis by (simp add: prod_eq_iff rental_full_def)
  qed
  have "bookings rental_open = []" by code_simp
  then have zero: "booked_count 0 rental_open = 0" "booked_count 1 rental_open = 0"
    by (simp_all add: booked_count_eq)
  obtain ts :: time_slot where ts: "t_id ts = br_time_slot_id ?req"
    "\<forall>tid. booked_count tid rental_full = booked_count tid rental_open + (if tid = t_id ts then 1 else 0)"
    using booking_takes_seat [OF run] by auto
  show ?thesis using ts(2) [rule_format, of 0] ts(2) [rule_format, of 1] ts(1) zero by simp
qed

text \<open>
  Cancelling frees exactly the seat the booking held and nothing else; only the booking's user or an
  admin does it, only while the booking is pending or confirmed, and the user only until 24 hours
  before the slot starts. Afterwards the booking is not cancellable.
\<close>

theorem cancel_frees_seat:
  assumes "cancel_booking at auth i cid s = (r, s')" "rentals_ok s"
  shows "case r of Inl e \<Rightarrow> s' = s | Inr b \<Rightarrow> \<exists>old \<in> set (bookings s). b_id old = i \<and> is_cancellable (b_status old) \<and>
      (au_user_id auth = b_user_id old \<or> is_admin auth) \<and>
      (is_admin auth \<or> (\<exists>ts \<in> set (time_slots s). t_id ts = b_time_slot_id old \<and>
        (\<exists>start. to_utc (sn_tz at) (t_date ts) (t_start_time ts) = Some start \<and>
          sn_now at + 24 * micros_per_hour \<le> start))) \<and>
      b = old\<lparr>b_status := Booking_Cancelled\<rparr> \<and> time_slots s' = time_slots s \<and>
      bookings s' = map (\<lambda>x. if x = old then b else x) (bookings s) \<and>
      (\<forall>tid. booked_count tid s' = booked_count tid s - (if tid = b_time_slot_id old then 1 else 0))"
proof -
  let ?tell = "\<lambda>b. booking_cancelled (b_user_id b) (b_id b)"
  have run: "then_deliver (commit_tx (cancel_booking_tx at auth i cid)) ?tell s = (r, s')"
    using assms by (simp add: cancel_booking_def)
  have fail: "s' = s" if "r = Inl e" for e
    using run that by (rule_tac then_deliver_cases [of "cancel_booking_tx at auth i cid" s ?tell]) auto
  show ?thesis
  proof (cases r)
    case (Inl e)
    then show ?thesis using fail by simp
  next
    case r: (Inr b)
  obtain t where t: "cancel_booking_tx at auth i cid s = Inr (b, t)" "s' = deliver (?tell b) t"
    using run unfolding r by (rule_tac then_deliver_cases [of "cancel_booking_tx at auth i cid" s ?tell]) auto
  have ids: "distinct (map b_id (bookings s))"
    using assms(2) unfolding rentals_ok_def by (rule calendar_okD(2))
  from t(1) obtain old where old: "booking_by_id i s = Some old"
    "au_user_id auth = b_user_id old \<or> is_admin auth" "is_cancellable (b_status old)"
    and b: "b = old\<lparr>b_status := Booking_Cancelled\<rparr>"
    and window: "\<not> is_admin auth \<Longrightarrow> \<exists>ts start. slot_by_id (b_time_slot_id old) s = Some ts \<and>
      to_utc (sn_tz at) (t_date ts) (t_start_time ts) = Some start \<and> 24 \<le> num_hours (start - sn_now at)"
    and fr: "time_slots t = time_slots s"
    "bookings t = update_where (\<lambda>x. b_id x = i \<and> b_status x \<noteq> Booking_Cancelled)
      (\<lambda>x. x\<lparr>b_status := Booking_Cancelled\<rparr>) (bookings s)"
    by (rule cancel_booking_txE) (rule that)
  have mem: "old \<in> set (bookings s)" "b_id old = i" using fetch_by_Some [OF old(1) [unfolded booking_by_id_def]] by auto
  have live: "b_status old \<noteq> Booking_Cancelled" using old(3) by auto
  have one: "x = old" if "x \<in> set (bookings s)" "b_id x = i" for x
    using distinct_key_fetch [OF ids that(1)] distinct_key_fetch [OF ids mem(1)] that(2) mem(2) by simp
  have bs: "bookings s' = map (\<lambda>x. if x = old then b else x) (bookings s)"
    unfolding t(2) deliver_frame fr(2) update_where_def b
  proof (rule map_cong [OF refl])
    fix x assume "x \<in> set (bookings s)"
    then have "b_id x = i \<and> b_status x \<noteq> Booking_Cancelled \<longleftrightarrow> x = old" using one mem(2) live by blast
    then show "(if b_id x = i \<and> b_status x \<noteq> Booking_Cancelled then x\<lparr>b_status := Booking_Cancelled\<rparr> else x) =
        (if x = old then old\<lparr>b_status := Booking_Cancelled\<rparr> else x)" by (simp only:) simp
  qed
  have seats: "booked_count tid s' = booked_count tid s - (if tid = b_time_slot_id old then 1 else 0)" for tid
    unfolding booked_count_eq bs
    using count_where_replace [of "bookings s" old "\<lambda>x. b_time_slot_id x = tid \<and> occupying x" b] ids mem(1) live
    by (simp add: b occupying_def distinct_map)
  have hours: "sn_now at + 24 * micros_per_hour \<le> start" if "24 \<le> num_hours (start - sn_now at)" for start
  proof -
    have "0 \<le> start - sn_now at" using that unfolding num_hours_def quot_trunc_def
      by (cases "start - sn_now at < 0") simp_all
    then have "24 \<le> (start - sn_now at) div micros_per_hour" using that by (simp add: num_hours_def)
    then show ?thesis by linarith
  qed
  have "is_admin auth \<or> (\<exists>ts \<in> set (time_slots s). t_id ts = b_time_slot_id old \<and>
        (\<exists>start. to_utc (sn_tz at) (t_date ts) (t_start_time ts) = Some start \<and>
          sn_now at + 24 * micros_per_hour \<le> start))"
  proof (cases "is_admin auth")
    case False
    then obtain ts start where w: "slot_by_id (b_time_slot_id old) s = Some ts"
      "to_utc (sn_tz at) (t_date ts) (t_start_time ts) = Some start" "24 \<le> num_hours (start - sn_now at)"
      using window by blast
    show ?thesis using fetch_by_Some [OF w(1) [unfolded slot_by_id_def]] w(2) hours [OF w(3)] by blast
  qed simp
  then show ?thesis unfolding r sum.case
    using mem old(2,3) b bs seats by (intro bexI [OF _ mem(1)] conjI) (simp_all add: t(2) fr(1))
  qed
qed

lemma cancel_frees_seat_witness:
  "booked_count 0 rental_full = 1 \<and>
   booked_count 0 (snd (cancel_booking june \<lparr>au_user_id = 7, au_email = [], au_roles = [''member'']\<rparr> 2 None rental_full)) = 0"
proof -
  let ?auth = "\<lparr>au_user_id = 7, au_email = [], au_roles = [''member'']\<rparr>"
  let ?s' = "snd (cancel_booking june ?auth 2 None rental_full)"
  let ?b = "(bookings rental_full ! 0)\<lparr>b_status := Booking_Cancelled\<rparr>"
  have "fst (cancel_booking june ?auth 2 None rental_full) = Inr ?b" by code_simp
  then have run: "cancel_booking june ?auth 2 None rental_full = (Inr ?b, ?s')" by (simp add: prod_eq_iff)
  obtain old where old: "old \<in> set (bookings rental_full)"
    "\<forall>tid. booked_count tid ?s' = booked_count tid rental_full - (if tid = b_time_slot_id old then 1 else 0)"
    using cancel_frees_seat [OF run rental_reachable_ok [OF rental_full_reachable(2)]] by auto
  have "b_time_slot_id old = 0" using old(1) by (simp add: rental_full_bookings)
  then show ?thesis using old(2) rental_full_counts by simp
qed

text \<open>
  C19. The derived status and the booking gate agree: a slot is shown full or closed exactly when the
  protocol refuses to book it, and it is shown limited exactly when it is bookable and at least the
  nearest integer to eighty percent of its capacity is taken, at every capacity.
\<close>

theorem slot_status_gates_booking:
  assumes "rentals_ok s" "slot_by_id tid s = Some ts"
  shows "(occupy_slot_tx tid s = Inr (None, s) \<longleftrightarrow>
      tr_status (time_slot_response_of s ts) = Slot_Full \<or> tr_status (time_slot_response_of s ts) = Slot_Closed) \<and>
    (tr_status (time_slot_response_of s ts) = Slot_Limited \<longleftrightarrow> \<not> t_is_closed ts \<and>
      booked_count tid s < t_capacity ts \<and>
      (\<exists>n. n \<le> booked_count tid s \<and> (\<forall>k. \<bar>10 * n - 8 * t_capacity ts\<bar> \<le> \<bar>10 * k - 8 * t_capacity ts\<bar>)))"
proof -
  have id: "t_id ts = tid" and mem: "ts \<in> set (time_slots s)"
    using fetch_by_Some [OF assms(2) [unfolded slot_by_id_def]] by auto
  have ids: "distinct (map t_id (time_slots s))"
    using assms(1) unfolding rentals_ok_def by (rule calendar_okD(1))
  have open_row: "fetch_by (\<lambda>r. t_id r = tid \<and> \<not> t_is_closed r) (time_slots s) =
      (if t_is_closed ts then None else Some ts)"
    using distinct_fetch_and [OF ids mem, of "\<lambda>r. \<not> t_is_closed r"] id by auto
  have cap: "0 \<le> t_capacity ts"
    using calendar_okD(6) [OF assms(1) [unfolded rentals_ok_def] mem] by linarith
  have gate: "occupy_slot_tx tid s = Inr (None, s) \<longleftrightarrow>
      tr_status (time_slot_response_of s ts) = Slot_Full \<or> tr_status (time_slot_response_of s ts) = Slot_Closed"
    by (simp add: occupy_slot_tx_def bind_tx_def open_row time_slot_response_of_def derive_def Let_def id)
  have nearest: "quot_trunc (t_capacity ts * 8 + 5) 10 \<le> m \<longleftrightarrow>
      (\<exists>n \<le> m. \<forall>k. \<bar>10 * n - 8 * t_capacity ts\<bar> \<le> \<bar>10 * k - 8 * t_capacity ts\<bar>)" for m
    using nearest_share [OF cap] by simp
  have limited: "tr_status (time_slot_response_of s ts) = Slot_Limited \<longleftrightarrow> \<not> t_is_closed ts \<and>
      booked_count tid s < t_capacity ts \<and>
      (\<exists>n. n \<le> booked_count tid s \<and> (\<forall>k. \<bar>10 * n - 8 * t_capacity ts\<bar> \<le> \<bar>10 * k - 8 * t_capacity ts\<bar>))"
    using nearest [of "booked_count tid s"]
    by (auto simp: time_slot_response_of_def derive_def Let_def id not_le split: if_splits)
  show ?thesis using gate limited by (rule conjI)
qed

lemma slot_status_gates_booking_witness:
  "occupy_slot_tx 0 rental_full = Inr (None, rental_full) \<and>
   tr_status (time_slot_response_of rental_full (time_slots rental_full ! 0)) = Slot_Full \<and>
   occupy_slot_tx 1 rental_full \<noteq> Inr (None, rental_full)"
proof -
  note ok = rental_reachable_ok [OF rental_full_reachable(2)]
  have slots: "slot_by_id 0 rental_full = Some (time_slots rental_full ! 0)"
    "slot_by_id 1 rental_full = Some (time_slots rental_full ! 1)"
    by (simp_all add: slot_by_id_def rental_full_slots new_slot_def)
  have st: "tr_status (time_slot_response_of rental_full (time_slots rental_full ! 0)) = Slot_Full"
    "tr_status (time_slot_response_of rental_full (time_slots rental_full ! 1)) = Slot_Available"
    by (simp_all add: time_slot_response_of_def derive_def Let_def rental_full_counts [unfolded One_nat_def] rental_full_slots new_slot_def)
  show ?thesis using slot_status_gates_booking [OF ok slots(1)] slot_status_gates_booking [OF ok slots(2)] st by simp
qed

end
