(* ===== verification/Tokens.thy ===== *)
theory Tokens
  imports Access Decimal
begin

text \<open>
  Session tokens (\<open>src/modules/auth/session.rs\<close>, \<open>src/utils/jwt.rs\<close>): the refresh token table with
  its five operations. Signing and verifying a JWT and the SHA-256 digest in hexadecimal are library
  calls, the fields of \<open>jwt_lib\<close>; nothing is assumed of them. The validity of a token (signature,
  issuer, audience, expiry with the leeway) is the library's answer to the validation the code asks
  for. A user id in a claim is its decimal text.
\<close>

section \<open>Tokens\<close>

record auth_config =
  ac_jwt_secret :: string
  ac_jwt_access_expiration_minutes :: int
  ac_jwt_refresh_expiration_days :: int

record claims =
  cl_sub :: string
  cl_email :: string
  cl_exp :: int
  cl_iat :: int
  cl_iss :: string
  cl_aud :: string
  cl_jti :: string
  cl_token_type :: string

record refresh_claims =
  rc_sub :: string
  rc_exp :: int
  rc_iat :: int
  rc_iss :: string
  rc_aud :: string
  rc_jti :: string
  rc_token_type :: string

record validation =
  va_issuer :: string
  va_audience :: string
  va_required :: "string list"
  va_leeway :: nat

record jwt_lib =
  jl_sign_access :: "string \<Rightarrow> claims \<Rightarrow> string + string"
  jl_sign_refresh :: "string \<Rightarrow> refresh_claims \<Rightarrow> string + string"
  jl_read_access :: "string \<Rightarrow> validation \<Rightarrow> instant \<Rightarrow> string \<Rightarrow> claims option"
  jl_read_refresh :: "string \<Rightarrow> validation \<Rightarrow> instant \<Rightarrow> string \<Rightarrow> refresh_claims option"
  jl_sha256_hex :: "string \<Rightarrow> string"

definition jwt_issuer :: string where "jwt_issuer = ''dream-fly-backend''"
definition jwt_access_audience :: string where "jwt_access_audience = ''dream-fly-api''"
definition jwt_refresh_audience :: string where "jwt_refresh_audience = ''dream-fly-refresh''"

definition access_validation :: validation where
  "access_validation = \<lparr>va_issuer = jwt_issuer, va_audience = jwt_access_audience,
     va_required = [''exp'', ''iat'', ''sub'', ''iss'', ''aud''], va_leeway = 5\<rparr>"

definition refresh_validation :: validation where
  "refresh_validation = \<lparr>va_issuer = jwt_issuer, va_audience = jwt_refresh_audience,
     va_required = [''exp'', ''iat'', ''sub'', ''iss'', ''aud''], va_leeway = 5\<rparr>"

text \<open>\<open>timestamp() as usize\<close>: whole seconds, reinterpreted as an unsigned 64-bit number.\<close>

definition timestamp_usize :: "instant \<Rightarrow> int" where
  "timestamp_usize t = (t div micros_per_second) mod 2 ^ 64"

definition encode_access_token :: "jwt_lib \<Rightarrow> auth_config \<Rightarrow> uuid \<Rightarrow> string \<Rightarrow> string app" where
  "encode_access_token lib cfg uid email =
    bind_tx (get_tx db_wall) (\<lambda>now.
    bind_tx fresh_uuid (\<lambda>jti.
    of_result_tx (case jl_sign_access lib (ac_jwt_secret cfg)
        \<lparr>cl_sub = show_nat uid, cl_email = email,
         cl_exp = timestamp_usize (now + ac_jwt_access_expiration_minutes cfg * 60 * micros_per_second),
         cl_iat = timestamp_usize now, cl_iss = jwt_issuer, cl_aud = jwt_access_audience,
         cl_jti = show_nat jti, cl_token_type = ''access''\<rparr> of
      Inl e \<Rightarrow> Inl (Internal (''failed to encode access token: '' @ e)) | Inr t \<Rightarrow> Inr t)))"

definition encode_refresh_token :: "jwt_lib \<Rightarrow> auth_config \<Rightarrow> uuid \<Rightarrow> string app" where
  "encode_refresh_token lib cfg uid =
    bind_tx (get_tx db_wall) (\<lambda>now.
    bind_tx fresh_uuid (\<lambda>jti.
    of_result_tx (case jl_sign_refresh lib (ac_jwt_secret cfg)
        \<lparr>rc_sub = show_nat uid,
         rc_exp = timestamp_usize (now + ac_jwt_refresh_expiration_days cfg * micros_per_day),
         rc_iat = timestamp_usize now, rc_iss = jwt_issuer, rc_aud = jwt_refresh_audience,
         rc_jti = show_nat jti, rc_token_type = ''refresh''\<rparr> of
      Inl e \<Rightarrow> Inl (Internal (''failed to encode refresh token: '' @ e)) | Inr t \<Rightarrow> Inr t)))"

definition decode_access_token :: "jwt_lib \<Rightarrow> auth_config \<Rightarrow> instant \<Rightarrow> string \<Rightarrow> app_error + claims" where
  "decode_access_token lib cfg now tok =
    (case jl_read_access lib (ac_jwt_secret cfg) access_validation now tok of
       None \<Rightarrow> Inl Unauthorized
     | Some c \<Rightarrow> if cl_token_type c \<noteq> ''access'' then Inl Unauthorized else Inr c)"

definition decode_refresh_token :: "jwt_lib \<Rightarrow> auth_config \<Rightarrow> instant \<Rightarrow> string \<Rightarrow> app_error + refresh_claims" where
  "decode_refresh_token lib cfg now tok =
    (case jl_read_refresh lib (ac_jwt_secret cfg) refresh_validation now tok of
       None \<Rightarrow> Inl Unauthorized
     | Some c \<Rightarrow> if rc_token_type c \<noteq> ''refresh'' then Inl Unauthorized else Inr c)"

definition hash_token :: "jwt_lib \<Rightarrow> string \<Rightarrow> string" where
  "hash_token lib tok = jl_sha256_hex lib tok"

section \<open>The table\<close>

definition save_refresh_token :: "uuid \<Rightarrow> string \<Rightarrow> instant \<Rightarrow> unit sql" where
  "save_refresh_token uid h expires_at = bind_tx fresh_uuid (\<lambda>i s.
    let row = \<lparr>rt_id = i, rt_user_id = uid, rt_token_hash = h, rt_expires_at = expires_at,
      rt_revoked = False, rt_created_at = db_now s\<rparr>
    in if i \<in> rt_id ` set (refresh_tokens s) then Inl (UniqueViolation ''refresh_tokens_pkey'')
       else if h \<in> rt_token_hash ` set (refresh_tokens s)
         then Inl (UniqueViolation ''refresh_tokens_token_hash_key'')
       else Inr ((), s\<lparr>refresh_tokens := refresh_tokens s @ [row]\<rparr>))"

definition find_refresh_token_tx :: "string \<Rightarrow> refresh_token_row option sql" where
  "find_refresh_token_tx h = get_tx (\<lambda>s. fetch_by (\<lambda>r. rt_token_hash r = h) (refresh_tokens s))"

definition revoke_refresh_token :: "string \<Rightarrow> unit sql" where
  "revoke_refresh_token h = put_tx (\<lambda>s. s\<lparr>refresh_tokens :=
    update_where (\<lambda>r. rt_token_hash r = h) (\<lambda>r. r\<lparr>rt_revoked := True\<rparr>) (refresh_tokens s)\<rparr>)"

definition end_all :: "uuid \<Rightarrow> unit sql" where
  "end_all uid = put_tx (\<lambda>s. s\<lparr>refresh_tokens := delete_where (\<lambda>r. rt_user_id r = uid) (refresh_tokens s)\<rparr>)"

definition purge_expired :: "nat sql" where
  "purge_expired = (\<lambda>s. Inr (count_where (\<lambda>r. rt_expires_at r < db_now s) (refresh_tokens s),
    s\<lparr>refresh_tokens := delete_where (\<lambda>r. rt_expires_at r < db_now s) (refresh_tokens s)\<rparr>))"

section \<open>The five operations\<close>

fun str_le :: "string \<Rightarrow> string \<Rightarrow> bool" where
  "str_le [] _ = True"
| "str_le (_ # _) [] = False"
| "str_le (a # as) (b # bs) = (of_char a < (of_char b :: nat) \<or> (a = b \<and> str_le as bs))"

text \<open>\<open>ORDER BY\<close> a name, keeping the order of equal names.\<close>

fun insert_by_name :: "('a \<Rightarrow> string) \<Rightarrow> 'a \<Rightarrow> 'a list \<Rightarrow> 'a list" where
  "insert_by_name key x [] = [x]"
| "insert_by_name key x (y # ys) = (if str_le (key x) (key y) then x # y # ys else y # insert_by_name key x ys)"

definition sort_by_name :: "('a \<Rightarrow> string) \<Rightarrow> 'a list \<Rightarrow> 'a list" where
  "sort_by_name key xs = foldr (insert_by_name key) xs []"

text \<open>
  The names of the roles a user has (\<open>permissions::repository::find_role_names_by_user\<close>), in the order
  of the names.
\<close>

fun insert_name :: "string \<Rightarrow> string list \<Rightarrow> string list" where
  "insert_name x [] = [x]"
| "insert_name x (y # ys) = (if str_le x y then x # y # ys else y # insert_name x ys)"

definition role_names_of :: "uuid \<Rightarrow> db \<Rightarrow> string list" where
  "role_names_of uid s =
    foldr insert_name (map snd (filter (\<lambda>ur. fst ur = uid \<and> snd ur \<in> set (role_names s)) (user_roles s))) []"

definition find_role_names_by_user :: "uuid \<Rightarrow> string list sql" where
  "find_role_names_by_user uid = get_tx (role_names_of uid)"

record user_response =
  us_id :: uuid
  us_email :: string
  us_name :: string
  us_phone :: "string option"
  us_phone_verified :: bool
  us_avatar_url :: "string option"
  us_is_active :: bool
  us_created_at :: instant
  us_roles :: "string list"

definition user_response_new :: "user \<Rightarrow> string list \<Rightarrow> user_response" where
  "user_response_new u roles = \<lparr>us_id = u_id u, us_email = u_email u, us_name = u_name u,
     us_phone = u_phone u, us_phone_verified = u_phone_verified u, us_avatar_url = u_avatar_url u,
     us_is_active = u_is_active u, us_created_at = u_created_at u, us_roles = roles\<rparr>"

record auth_response =
  ar_access_token :: string
  ar_refresh_token :: string
  ar_user :: user_response

definition start :: "jwt_lib \<Rightarrow> auth_config \<Rightarrow> user \<Rightarrow> auth_response app" where
  "start lib cfg u =
    bind_tx (ensure_tx (u_is_active u) Unauthorized) (\<lambda>_.
    bind_tx (encode_access_token lib cfg (u_id u) (u_email u)) (\<lambda>access_token.
    bind_tx (encode_refresh_token lib cfg (u_id u)) (\<lambda>refresh_token.
    bind_tx (get_tx (\<lambda>s. db_wall s + ac_jwt_refresh_expiration_days cfg * micros_per_day)) (\<lambda>expires_at.
    bind_tx (db_try (save_refresh_token (u_id u) (hash_token lib refresh_token) expires_at)) (\<lambda>_.
    bind_tx (db_try (find_role_names_by_user (u_id u))) (\<lambda>roles.
    return_tx \<lparr>ar_access_token = access_token, ar_refresh_token = refresh_token,
      ar_user = user_response_new u roles\<rparr>))))))"

definition find_user_by_id_for_share_tx :: "uuid \<Rightarrow> user option sql" where
  "find_user_by_id_for_share_tx uid = get_tx (\<lambda>s. fetch_by (\<lambda>u. u_id u = uid) (users s))"

text \<open>
  How the transaction of a rotation ends when it commits: with the new pair, or with the sessions of
  the user ended and the caller refused.
\<close>

datatype rotation = Rotated auth_response | SessionsEnded

definition rotate_tx :: "jwt_lib \<Rightarrow> auth_config \<Rightarrow> string \<Rightarrow> uuid \<Rightarrow> rotation app" where
  "rotate_tx lib cfg h uid =
    bind_tx (db_try (find_user_by_id_for_share_tx uid)) (\<lambda>u.
    bind_tx (of_option_tx Unauthorized u) (\<lambda>user.
    bind_tx (db_try (find_refresh_token_tx h)) (\<lambda>r.
    bind_tx (of_option_tx Unauthorized r) (\<lambda>stored.
    bind_tx (ensure_tx (\<not> rt_user_id stored \<noteq> uid) Unauthorized) (\<lambda>_.
    if rt_revoked stored
    then bind_tx (db_try (end_all (rt_user_id stored))) (\<lambda>_. return_tx SessionsEnded)
    else
      bind_tx (get_tx db_wall) (\<lambda>now.
      bind_tx (ensure_tx (\<not> rt_expires_at stored < now) Unauthorized) (\<lambda>_.
      bind_tx (db_try (revoke_refresh_token h)) (\<lambda>_.
      if \<not> u_is_active user
      then bind_tx (db_try (end_all (u_id user))) (\<lambda>_. return_tx SessionsEnded)
      else bind_tx (start lib cfg user) (\<lambda>response. return_tx (Rotated response))))))))))"

definition rotate :: "jwt_lib \<Rightarrow> auth_config \<Rightarrow> string \<Rightarrow> auth_response handler" where
  "rotate lib cfg refresh_token s =
    (case decode_refresh_token lib cfg (db_wall s) refresh_token of
       Inl e \<Rightarrow> (Inl e, s)
     | Inr c \<Rightarrow>
         (case parse_nat (rc_sub c) of
            None \<Rightarrow> (Inl Unauthorized, s)
          | Some uid \<Rightarrow>
              (case commit_tx (rotate_tx lib cfg (hash_token lib refresh_token) uid) s of
                 (Inl e, s') \<Rightarrow> (Inl e, s')
               | (Inr SessionsEnded, s') \<Rightarrow> (Inl Unauthorized, s')
               | (Inr (Rotated response), s') \<Rightarrow> (Inr response, s'))))"

definition end_session :: "jwt_lib \<Rightarrow> auth_config \<Rightarrow> string \<Rightarrow> unit handler" where
  "end_session lib cfg refresh_token s =
    (case decode_refresh_token lib cfg (db_wall s) refresh_token of
       Inl _ \<Rightarrow> (Inr (), s)
     | Inr _ \<Rightarrow> commit_tx (db_try (revoke_refresh_token (hash_token lib refresh_token))) s)"

section \<open>Effects\<close>

definition live_tokens :: "string \<Rightarrow> db \<Rightarrow> nat" where
  "live_tokens h s = count_where (\<lambda>r. rt_token_hash r = h \<and> \<not> rt_revoked r) (refresh_tokens s)"

lemma get_tx_Inr: "get_tx g s = Inr (x, t) \<longleftrightarrow> x = g s \<and> t = s"
  by auto

lemma save_refresh_token_Inr:
  "save_refresh_token uid h exp s = Inr (u, s') \<Longrightarrow>
    h \<notin> rt_token_hash ` set (refresh_tokens s) \<and> users s' = users s \<and>
    refresh_tokens s' = refresh_tokens s @ [\<lparr>rt_id = uuid_supply s (uuid_pos s), rt_user_id = uid,
      rt_token_hash = h, rt_expires_at = exp, rt_revoked = False, rt_created_at = db_now s\<rparr>]"
  by (auto simp: save_refresh_token_def bind_tx_def Let_def split: if_splits)

lemma encode_token_frame:
  "encode_access_token lib cfg uid email s = Inr (t, s') \<Longrightarrow>
    users s' = users s \<and> refresh_tokens s' = refresh_tokens s \<and> db_wall s' = db_wall s"
  "encode_refresh_token lib cfg uid s = Inr (t, s') \<Longrightarrow>
    users s' = users s \<and> refresh_tokens s' = refresh_tokens s \<and> db_wall s' = db_wall s"
  by (auto simp: encode_access_token_def encode_refresh_token_def bind_tx_Inr)

lemma startE:
  assumes "start lib cfg u s = Inr (resp, s')"
  obtains row where "u_is_active u" "refresh_tokens s' = refresh_tokens s @ [row]" "users s' = users s"
    "rt_user_id row = u_id u" "rt_token_hash row = hash_token lib (ar_refresh_token resp)"
    "\<not> rt_revoked row" "rt_expires_at row = db_wall s + ac_jwt_refresh_expiration_days cfg * micros_per_day"
    "rt_token_hash row \<notin> rt_token_hash ` set (refresh_tokens s)" "us_id (ar_user resp) = u_id u"
proof -
  obtain a s1 t s2 w s3 roles where active: "u_is_active u"
    and 1: "encode_access_token lib cfg (u_id u) (u_email u) s = Inr (a, s1)"
    and 2: "encode_refresh_token lib cfg (u_id u) s1 = Inr (t, s2)"
    and 3: "save_refresh_token (u_id u) (hash_token lib t)
      (db_wall s2 + ac_jwt_refresh_expiration_days cfg * micros_per_day) s2 = Inr (w, s3)"
    and 4: "find_role_names_by_user (u_id u) s3 = Inr (roles, s')"
    and resp: "resp = \<lparr>ar_access_token = a, ar_refresh_token = t, ar_user = user_response_new u roles\<rparr>"
    using assms by (auto simp: start_def bind_tx_Inr)
  have s': "s' = s3" using 4 by (simp add: find_role_names_by_user_def)
  note f = encode_token_frame(1) [OF 1] encode_token_frame(2) [OF 2] save_refresh_token_Inr [OF 3]
  show thesis
  proof (rule that)
    show "refresh_tokens s' = refresh_tokens s @ [\<lparr>rt_id = uuid_supply s2 (uuid_pos s2), rt_user_id = u_id u,
      rt_token_hash = hash_token lib t, rt_expires_at = db_wall s + ac_jwt_refresh_expiration_days cfg * micros_per_day,
      rt_revoked = False, rt_created_at = db_now s2\<rparr>]" using f by (simp add: s')
  qed (use active f resp in \<open>simp_all add: s' user_response_new_def\<close>)
qed

lemma rotate_tx_Inr:
  assumes "rotate_tx lib cfg h uid s = Inr (e, s')"
  obtains user stored where "fetch_by (\<lambda>u. u_id u = uid) (users s) = Some user"
    "fetch_by (\<lambda>r. rt_token_hash r = h) (refresh_tokens s) = Some stored" "rt_user_id stored = uid"
    "e = SessionsEnded \<and> (rt_revoked stored \<or> \<not> u_is_active user) \<and> users s' = users s \<and>
        (\<exists>t. refresh_tokens s' = delete_where (\<lambda>r. rt_user_id r = uid) t \<and>
          (t = refresh_tokens s \<or> t = update_where (\<lambda>r. rt_token_hash r = h) (\<lambda>r. r\<lparr>rt_revoked := True\<rparr>) (refresh_tokens s))) \<or>
      (\<exists>resp s1. e = Rotated resp \<and> \<not> rt_revoked stored \<and> db_wall s \<le> rt_expires_at stored \<and> u_is_active user \<and>
        revoke_refresh_token h s = Inr ((), s1) \<and> start lib cfg user s1 = Inr (resp, s'))"
proof -
  obtain user stored where 1: "fetch_by (\<lambda>u. u_id u = uid) (users s) = Some user"
    "fetch_by (\<lambda>r. rt_token_hash r = h) (refresh_tokens s) = Some stored" "rt_user_id stored = uid"
    and rest: "(if rt_revoked stored
      then bind_tx (db_try (end_all (rt_user_id stored))) (\<lambda>_. return_tx SessionsEnded)
      else
        bind_tx (get_tx db_wall) (\<lambda>now.
        bind_tx (ensure_tx (\<not> rt_expires_at stored < now) Unauthorized) (\<lambda>_.
        bind_tx (db_try (revoke_refresh_token h)) (\<lambda>_.
        if \<not> u_is_active user
        then bind_tx (db_try (end_all (u_id user))) (\<lambda>_. return_tx SessionsEnded)
        else bind_tx (start lib cfg user) (\<lambda>response. return_tx (Rotated response)))))) s = Inr (e, s')"
    using assms unfolding rotate_tx_def find_user_by_id_for_share_tx_def find_refresh_token_tx_def
      bind_tx_Inr db_try_Inr of_option_tx_Inr get_tx_Inr ensure_tx_Inr not_not
    by clarify (rule that, simp, simp, simp, simp only:)
  have user: "u_id user = uid" using fetch_by_Some [OF 1(1)] by simp
  show thesis
    using rest unfolding 1(3) user by (intro that [OF 1])
      (auto simp: bind_tx_Inr end_all_def revoke_refresh_token_def not_less split: if_splits)
qed

section \<open>The properties\<close>

text \<open>
  What can happen to the token table: a sign-in issues a pair, a rotation is attempted, a logout, the
  end of every session of a user (password reset, deactivation), the hourly purge, and anything that
  does not touch the table. Each step is labelled with the tokens it issued and spent.
\<close>

datatype token_event = Issued string | Spent string

inductive session_step :: "jwt_lib \<Rightarrow> auth_config \<Rightarrow> db \<Rightarrow> token_event list \<Rightarrow> db \<Rightarrow> bool" for lib cfg where
  sign_in: "start lib cfg u s = Inr (r, s') \<Longrightarrow>
    session_step lib cfg s [Issued (hash_token lib (ar_refresh_token r))] s'"
| rotated: "rotate lib cfg tok s = (Inr r, s') \<Longrightarrow>
    session_step lib cfg s [Spent (hash_token lib tok), Issued (hash_token lib (ar_refresh_token r))] s'"
| refused: "rotate lib cfg tok s = (Inl e, s') \<Longrightarrow> session_step lib cfg s [] s'"
| logout: "end_session lib cfg tok s = (r, s') \<Longrightarrow> session_step lib cfg s [] s'"
| ended: "end_all uid s = Inr (u, s') \<Longrightarrow> session_step lib cfg s [] s'"
| purged: "purge_expired s = Inr (n, s') \<Longrightarrow> session_step lib cfg s [] s'"
| elsewhere: "refresh_tokens s' = refresh_tokens s \<Longrightarrow> session_step lib cfg s [] s'"

inductive session_run :: "jwt_lib \<Rightarrow> auth_config \<Rightarrow> db \<Rightarrow> token_event list \<Rightarrow> db \<Rightarrow> bool" for lib cfg where
  nothing: "session_run lib cfg s [] s"
| then_step: "session_run lib cfg s evs t \<Longrightarrow> session_step lib cfg t ev s' \<Longrightarrow> session_run lib cfg s (evs @ ev) s'"

lemma count_where_delete_le: "count_where P (delete_where Q t) \<le> count_where P t"
  by (induction t) auto

lemma live_after_revoke:
  "count_where (\<lambda>r. rt_token_hash r = h \<and> \<not> rt_revoked r)
    (update_where (\<lambda>r. rt_token_hash r = k) (\<lambda>r. r\<lparr>rt_revoked := True\<rparr>) t) =
   (if h = k then 0 else count_where (\<lambda>r. rt_token_hash r = h \<and> \<not> rt_revoked r) t)"
  by (induction t) auto

lemma live_found:
  "fetch_by (\<lambda>r. rt_token_hash r = h) t = Some stored \<Longrightarrow> \<not> rt_revoked stored \<Longrightarrow>
    0 < count_where (\<lambda>r. rt_token_hash r = h \<and> \<not> rt_revoked r) t"
  by (induction t) (auto split: if_splits)

lemma start_live:
  assumes "start lib cfg u s = Inr (r, s')"
  shows "live_tokens h s' = live_tokens h s + (if h = hash_token lib (ar_refresh_token r) then 1 else 0)"
  using assms by (rule startE) (simp add: live_tokens_def)

lemma rotate_cases:
  obtains e where "rotate lib cfg tok s = (Inl e, s)"
  | c uid s' where "decode_refresh_token lib cfg (db_wall s) tok = Inr c" "parse_nat (rc_sub c) = Some uid"
      "rotate_tx lib cfg (hash_token lib tok) uid s = Inr (SessionsEnded, s')"
      "rotate lib cfg tok s = (Inl Unauthorized, s')"
  | c uid resp s' where "decode_refresh_token lib cfg (db_wall s) tok = Inr c" "parse_nat (rc_sub c) = Some uid"
      "rotate_tx lib cfg (hash_token lib tok) uid s = Inr (Rotated resp, s')"
      "rotate lib cfg tok s = (Inr resp, s')"
proof (cases "decode_refresh_token lib cfg (db_wall s) tok")
  case (Inl e)
  then show thesis by (intro that(1)) (simp add: rotate_def)
next
  case dec: (Inr c)
  show thesis
  proof (cases "parse_nat (rc_sub c)")
    case None
    then show thesis using dec by (intro that(1)) (simp add: rotate_def)
  next
    case sub: (Some uid)
    show thesis
    proof (cases "rotate_tx lib cfg (hash_token lib tok) uid s")
      case (Inl e)
      then show thesis using dec sub by (intro that(1)) (simp add: rotate_def)
    next
      case run: (Inr x)
      obtain fin s' where x: "x = (fin, s')" by (cases x)
      show thesis
      proof (cases fin)
        case (Rotated resp)
        then show thesis using dec sub run x by (intro that(3) [OF dec sub]) (simp_all add: rotate_def)
      next
        case SessionsEnded
        then show thesis using dec sub run x by (intro that(2) [OF dec sub]) (simp_all add: rotate_def)
      qed
    qed
  qed
qed

lemma step_live:
  assumes "session_step lib cfg s evs s'"
  shows "count_list evs (Spent h) + live_tokens h s' \<le> live_tokens h s + count_list evs (Issued h)"
  using assms
proof cases
  case (sign_in u r)
  then show ?thesis by (simp add: start_live)
next
  case (rotated tok r)
  from rotated(2) show ?thesis
  proof (cases rule: rotate_cases [of lib cfg tok s, case_names failed ended renewed])
    case (renewed c uid resp t)
    then have t: "t = s'" "resp = r" using rotated(2) by simp_all
    from renewed(3) obtain user stored where
      st: "fetch_by (\<lambda>x. rt_token_hash x = hash_token lib tok) (refresh_tokens s) = Some stored"
        "\<not> rt_revoked stored"
      and ex: "\<exists>s1. revoke_refresh_token (hash_token lib tok) s = Inr ((), s1) \<and> start lib cfg user s1 = Inr (resp, t)"
      by (rule rotate_tx_Inr) blast
    from ex obtain s1 where s1: "s1 = s\<lparr>refresh_tokens := update_where (\<lambda>x. rt_token_hash x = hash_token lib tok)
        (\<lambda>x. x\<lparr>rt_revoked := True\<rparr>) (refresh_tokens s)\<rparr>" and new: "start lib cfg user s1 = Inr (r, s')"
      unfolding revoke_refresh_token_def t by auto
    have "live_tokens h s1 = (if h = hash_token lib tok then 0 else live_tokens h s)"
      by (simp add: s1 live_tokens_def live_after_revoke)
    moreover have "h = hash_token lib tok \<Longrightarrow> 0 < live_tokens h s"
      unfolding live_tokens_def using live_found [OF st] by simp
    ultimately show ?thesis using start_live [OF new, of h] rotated(1) by auto
  qed (use rotated(2) in simp_all)
next
  case (refused tok e)
  show ?thesis
  proof (cases rule: rotate_cases [of lib cfg tok s, case_names failed ended renewed])
    case (ended c uid t)
    then have t: "t = s'" using refused(2) by simp
    from ended(3) show ?thesis
    proof (rule rotate_tx_Inr)
      fix user stored
      assume "SessionsEnded = SessionsEnded \<and> (rt_revoked stored \<or> \<not> u_is_active user) \<and> users t = users s \<and>
        (\<exists>ta. refresh_tokens t = delete_where (\<lambda>r. rt_user_id r = uid) ta \<and> (ta = refresh_tokens s \<or>
          ta = update_where (\<lambda>r. rt_token_hash r = hash_token lib tok) (\<lambda>r. r\<lparr>rt_revoked := True\<rparr>) (refresh_tokens s))) \<or>
        (\<exists>resp s1. SessionsEnded = Rotated resp \<and> \<not> rt_revoked stored \<and> db_wall s \<le> rt_expires_at stored \<and>
          u_is_active user \<and> revoke_refresh_token (hash_token lib tok) s = Inr ((), s1) \<and> start lib cfg user s1 = Inr (resp, t))"
      then obtain ta where ta: "refresh_tokens t = delete_where (\<lambda>r. rt_user_id r = uid) ta"
        "ta = refresh_tokens s \<or> ta = update_where (\<lambda>r. rt_token_hash r = hash_token lib tok)
          (\<lambda>r. r\<lparr>rt_revoked := True\<rparr>) (refresh_tokens s)" by blast
      have "count_where (\<lambda>r. rt_token_hash r = h \<and> \<not> rt_revoked r) ta \<le> live_tokens h s"
        using ta(2) by (auto simp: live_tokens_def live_after_revoke)
      then show ?thesis
        using count_where_delete_le [of "\<lambda>r. rt_token_hash r = h \<and> \<not> rt_revoked r" "\<lambda>r. rt_user_id r = uid" ta]
        unfolding refused(1) live_tokens_def t [symmetric] ta(1) by (simp add: live_tokens_def)
    qed
  qed (use refused in simp_all)
next
  case (logout tok r)
  then show ?thesis
    by (auto simp: end_session_def revoke_refresh_token_def live_tokens_def live_after_revoke split: sum.splits)
next
  case (ended uid u)
  then show ?thesis by (auto simp: end_all_def live_tokens_def count_where_delete_le)
next
  case (purged n)
  then show ?thesis by (auto simp: purge_expired_def live_tokens_def count_where_delete_le)
next
  case elsewhere
  then show ?thesis by (simp add: live_tokens_def)
qed

text \<open>
  C31. A refresh token is spent at most once for every time it was issued, whatever sign-ins, rotations
  (accepted, refused or replayed), logouts, resets and purges happen in whatever order: every
  successful rotation of a token uses up a live row, and only issuing it makes one.
\<close>

theorem refresh_tokens_spent_once:
  assumes "session_run lib cfg s evs s'"
  shows "count_list evs (Spent h) + live_tokens h s' \<le> live_tokens h s + count_list evs (Issued h)"
  using assms
proof (induction rule: session_run.induct)
  case (then_step s evs t ev s')
  show ?case using then_step.IH step_live [OF then_step.hyps(2), of h] by simp
qed simp

text \<open>Marking the row of a token, where hashes are unique, marks that one row.\<close>

lemma spent_row:
  assumes "distinct (map rt_token_hash t)" "fetch_by (\<lambda>r. rt_token_hash r = h) t = Some stored"
  shows "update_where (\<lambda>r. rt_token_hash r = h) f t = map (\<lambda>x. if x = stored then f x else x) t"
  unfolding update_where_def
proof (rule map_cong [OF refl])
  fix x assume x: "x \<in> set t"
  have "x = stored" if "rt_token_hash x = h"
    using distinct_key_fetch [OF assms(1) x] assms(2) that by simp
  then have "rt_token_hash x = h \<longleftrightarrow> x = stored" using fetch_by_Some [OF assms(2)] by blast
  then show "(if rt_token_hash x = h then f x else x) = (if x = stored then f x else x)" by (simp only:)
qed

lemma wiped_rows:
  assumes "distinct (map rt_token_hash t)" "fetch_by (\<lambda>r. rt_token_hash r = h) t = Some stored"
    "rt_user_id stored = uid"
  shows "delete_where (\<lambda>r. rt_user_id r = uid)
    (update_where (\<lambda>r. rt_token_hash r = h) (\<lambda>x. x\<lparr>rt_revoked := True\<rparr>) t) = filter (\<lambda>x. rt_user_id x \<noteq> uid) t"
proof -
  have "delete_where (\<lambda>r. rt_user_id r = uid) (map (\<lambda>x. if x = stored then x\<lparr>rt_revoked := True\<rparr> else x) t) =
      filter (\<lambda>x. rt_user_id x \<noteq> uid) t" for t using assms(3) by (induction t) auto
  then show ?thesis unfolding spent_row [OF assms(1,2)] .
qed

lemma rotate_success:
  assumes "rotate lib cfg tok s = (Inr resp, s')" "distinct (map rt_token_hash (refresh_tokens s))"
  shows "\<exists>c user stored row. decode_refresh_token lib cfg (db_wall s) tok = Inr c \<and>
      user \<in> set (users s) \<and> parse_nat (rc_sub c) = Some (u_id user) \<and> u_is_active user \<and>
      stored \<in> set (refresh_tokens s) \<and> rt_token_hash stored = hash_token lib tok \<and>
      rt_user_id stored = u_id user \<and> \<not> rt_revoked stored \<and> db_wall s \<le> rt_expires_at stored \<and>
      refresh_tokens s' = map (\<lambda>x. if x = stored then x\<lparr>rt_revoked := True\<rparr> else x) (refresh_tokens s) @ [row] \<and>
      rt_token_hash row = hash_token lib (ar_refresh_token resp) \<and> rt_user_id row = u_id user \<and>
      \<not> rt_revoked row \<and> us_id (ar_user resp) = u_id user"
proof (cases rule: rotate_cases [of lib cfg tok s, case_names failed ended renewed])
  case (renewed c uid resp' t)
  have t: "t = s'" "resp' = resp" using renewed(4) assms(1) by simp_all
  from renewed(3) obtain user stored s1 where f: "fetch_by (\<lambda>u. u_id u = uid) (users s) = Some user"
    "fetch_by (\<lambda>r. rt_token_hash r = hash_token lib tok) (refresh_tokens s) = Some stored" "rt_user_id stored = uid"
    and st: "\<not> rt_revoked stored" "db_wall s \<le> rt_expires_at stored" "u_is_active user"
    and ex: "revoke_refresh_token (hash_token lib tok) s = Inr ((), s1)" "start lib cfg user s1 = Inr (resp', t)"
    by (rule rotate_tx_Inr) blast
  have s1: "s1 = s\<lparr>refresh_tokens := map (\<lambda>x. if x = stored then x\<lparr>rt_revoked := True\<rparr> else x) (refresh_tokens s)\<rparr>"
    using ex(1) spent_row [OF assms(2) f(2)] by (simp add: revoke_refresh_token_def)
  from ex(2) [unfolded t] obtain row where row: "refresh_tokens s' = refresh_tokens s1 @ [row]"
    "rt_user_id row = u_id user" "rt_token_hash row = hash_token lib (ar_refresh_token resp)" "\<not> rt_revoked row"
    "us_id (ar_user resp) = u_id user" by (rule startE) (rule that)
  have new: "refresh_tokens s' = map (\<lambda>x. if x = stored then x\<lparr>rt_revoked := True\<rparr> else x) (refresh_tokens s) @ [row]"
    using row(1) by (simp add: s1)
  note u = fetch_by_Some [OF f(1)] and rt = fetch_by_Some [OF f(2)]
  show ?thesis
    by (rule exI [of _ c], rule exI [of _ user], rule exI [of _ stored], rule exI [of _ row], intro conjI)
      (use renewed(1,2) u rt f(3) st new row in simp_all)
qed (use assms(1) in simp_all)

lemma rotate_failure:
  assumes "rotate lib cfg tok s = (Inl e, s')" "distinct (map rt_token_hash (refresh_tokens s))"
  shows "s' = s \<or> e = Unauthorized \<and> (\<exists>uid.
      refresh_tokens s' = filter (\<lambda>x. rt_user_id x \<noteq> uid) (refresh_tokens s) \<and>
      (\<exists>stored \<in> set (refresh_tokens s). rt_token_hash stored = hash_token lib tok \<and> rt_user_id stored = uid \<and>
        (rt_revoked stored \<or> (\<exists>user \<in> set (users s). u_id user = uid \<and> \<not> u_is_active user))))"
proof (cases rule: rotate_cases [of lib cfg tok s, case_names failed ended renewed])
  case (ended c uid t)
  have t: "t = s'" "e = Unauthorized" using ended(4) assms(1) by simp_all
  from ended(3) [unfolded t] obtain user stored ta where f: "fetch_by (\<lambda>u. u_id u = uid) (users s) = Some user"
    "fetch_by (\<lambda>r. rt_token_hash r = hash_token lib tok) (refresh_tokens s) = Some stored" "rt_user_id stored = uid"
    and why: "rt_revoked stored \<or> \<not> u_is_active user"
    and ta: "refresh_tokens s' = delete_where (\<lambda>r. rt_user_id r = uid) ta"
      "ta = refresh_tokens s \<or> ta = update_where (\<lambda>r. rt_token_hash r = hash_token lib tok) (\<lambda>x. x\<lparr>rt_revoked := True\<rparr>) (refresh_tokens s)"
    by (rule rotate_tx_Inr) blast
  have "refresh_tokens s' = filter (\<lambda>x. rt_user_id x \<noteq> uid) (refresh_tokens s)"
    using ta wiped_rows [OF assms(2) f(2,3)] by (auto simp: delete_where_def)
  then show ?thesis using t(2) fetch_by_Some [OF f(1)] fetch_by_Some [OF f(2)] f(3) why by blast
qed (use assms(1) in simp_all)

lemma rotate_replay:
  assumes run: "rotate lib cfg tok s = (r, s')" and dist: "distinct (map rt_token_hash (refresh_tokens s))"
    and dec: "decode_refresh_token lib cfg (db_wall s) tok = Inr c" and sub: "parse_nat (rc_sub c) = Some uid"
        and user: "uid \<in> u_id ` set (users s)" and st: "stored \<in> set (refresh_tokens s)"
        "rt_token_hash stored = hash_token lib tok" "rt_user_id stored = uid" "rt_revoked stored"
  shows "r = Inl Unauthorized \<and> refresh_tokens s' = filter (\<lambda>x. rt_user_id x \<noteq> uid) (refresh_tokens s)"
proof -
  have found: "fetch_by (\<lambda>r. rt_token_hash r = hash_token lib tok) (refresh_tokens s) = Some stored"
    using distinct_key_fetch [OF dist st(1)] st(2) by simp
  obtain u where u: "fetch_by (\<lambda>u. u_id u = uid) (users s) = Some u"
    using user in_set_key_fetch [of uid u_id "users s"] by auto
  have "rotate_tx lib cfg (hash_token lib tok) uid s =
      Inr (SessionsEnded, s\<lparr>refresh_tokens := delete_where (\<lambda>r. rt_user_id r = uid) (refresh_tokens s)\<rparr>)"
    by (simp add: rotate_tx_def find_user_by_id_for_share_tx_def find_refresh_token_tx_def bind_tx_def found u st
        end_all_def)
  then show ?thesis using run dec sub by (auto simp: rotate_def delete_where_def)
qed

text \<open>
  C32. A rotation that succeeds had a validly signed refresh token, naming an active user, whose row is
  that user's, live and not expired; it revokes that row and adds one live row, for the token it hands
  out. A rotation that fails changes nothing, except that presenting a revoked token, or a token of a
  deactivated user, ends every session of its user and no other. A replayed token always ends in that
  way.
\<close>

theorem rotate_effect:
  assumes "rotate lib cfg tok s = (r, s')" "distinct (map rt_token_hash (refresh_tokens s))"
  shows "(case r of Inr resp \<Rightarrow> \<exists>c user stored row. decode_refresh_token lib cfg (db_wall s) tok = Inr c \<and>
      user \<in> set (users s) \<and> parse_nat (rc_sub c) = Some (u_id user) \<and> u_is_active user \<and>
      stored \<in> set (refresh_tokens s) \<and> rt_token_hash stored = hash_token lib tok \<and>
      rt_user_id stored = u_id user \<and> \<not> rt_revoked stored \<and> db_wall s \<le> rt_expires_at stored \<and>
      refresh_tokens s' = map (\<lambda>x. if x = stored then x\<lparr>rt_revoked := True\<rparr> else x) (refresh_tokens s) @ [row] \<and>
      rt_token_hash row = hash_token lib (ar_refresh_token resp) \<and> rt_user_id row = u_id user \<and>
      \<not> rt_revoked row \<and> us_id (ar_user resp) = u_id user
    | Inl e \<Rightarrow> s' = s \<or> e = Unauthorized \<and> (\<exists>uid.
      refresh_tokens s' = filter (\<lambda>x. rt_user_id x \<noteq> uid) (refresh_tokens s) \<and>
      (\<exists>stored \<in> set (refresh_tokens s). rt_token_hash stored = hash_token lib tok \<and> rt_user_id stored = uid \<and>
        (rt_revoked stored \<or> (\<exists>user \<in> set (users s). u_id user = uid \<and> \<not> u_is_active user))))) \<and>
    (\<forall>c uid stored. decode_refresh_token lib cfg (db_wall s) tok = Inr c \<longrightarrow> parse_nat (rc_sub c) = Some uid \<longrightarrow>
      uid \<in> u_id ` set (users s) \<longrightarrow> stored \<in> set (refresh_tokens s) \<longrightarrow>
      rt_token_hash stored = hash_token lib tok \<longrightarrow> rt_user_id stored = uid \<longrightarrow> rt_revoked stored \<longrightarrow>
      r = Inl Unauthorized \<and> refresh_tokens s' = filter (\<lambda>x. rt_user_id x \<noteq> uid) (refresh_tokens s))"
proof (intro conjI allI impI)
  show "case r of Inr resp \<Rightarrow> \<exists>c user stored row. decode_refresh_token lib cfg (db_wall s) tok = Inr c \<and>
      user \<in> set (users s) \<and> parse_nat (rc_sub c) = Some (u_id user) \<and> u_is_active user \<and>
      stored \<in> set (refresh_tokens s) \<and> rt_token_hash stored = hash_token lib tok \<and>
      rt_user_id stored = u_id user \<and> \<not> rt_revoked stored \<and> db_wall s \<le> rt_expires_at stored \<and>
      refresh_tokens s' = map (\<lambda>x. if x = stored then x\<lparr>rt_revoked := True\<rparr> else x) (refresh_tokens s) @ [row] \<and>
      rt_token_hash row = hash_token lib (ar_refresh_token resp) \<and> rt_user_id row = u_id user \<and>
      \<not> rt_revoked row \<and> us_id (ar_user resp) = u_id user
    | Inl e \<Rightarrow> s' = s \<or> e = Unauthorized \<and> (\<exists>uid.
      refresh_tokens s' = filter (\<lambda>x. rt_user_id x \<noteq> uid) (refresh_tokens s) \<and>
      (\<exists>stored \<in> set (refresh_tokens s). rt_token_hash stored = hash_token lib tok \<and> rt_user_id stored = uid \<and>
        (rt_revoked stored \<or> (\<exists>user \<in> set (users s). u_id user = uid \<and> \<not> u_is_active user))))"
  proof (cases r)
    case (Inl e)
    show ?thesis unfolding Inl sum.case by (rule rotate_failure [OF assms [unfolded Inl]])
  next
    case (Inr resp)
    show ?thesis unfolding Inr sum.case by (rule rotate_success [OF assms [unfolded Inr]])
  qed
qed (simp_all add: rotate_replay [OF assms])

section \<open>A session's life, run\<close>

text \<open>A token that is its user, a dot and its serial number, with the validation the code asks for.\<close>

definition toy_lib :: jwt_lib where
  "toy_lib = \<lparr>
     jl_sign_access = (\<lambda>secret c. Inr (cl_sub c @ ''a'' @ cl_jti c)),
     jl_sign_refresh = (\<lambda>secret c. Inr (rc_sub c @ ''r'' @ rc_jti c)),
     jl_read_access = (\<lambda>secret v now tok. None),
     jl_read_refresh = (\<lambda>secret v now tok.
       if CHR ''r'' \<in> set tok
       then Some \<lparr>rc_sub = takeWhile (\<lambda>x. x \<noteq> CHR ''r'') tok, rc_exp = 0, rc_iat = 0, rc_iss = va_issuer v,
         rc_aud = va_audience v, rc_jti = [], rc_token_type = ''refresh''\<rparr>
       else None),
     jl_sha256_hex = (\<lambda>tok. tok)\<rparr>"

definition week :: auth_config where
  "week = \<lparr>ac_jwt_secret = [], ac_jwt_access_expiration_minutes = 15, ac_jwt_refresh_expiration_days = 7\<rparr>"

definition signed_in :: db where
  "signed_in = snd (commit_tx (start toy_lib week (member 7 0)) (empty_db\<lparr>users := [member 7 0], uuid_supply := (\<lambda>n. n)\<rparr>))"

definition renewed_session :: db where
  "renewed_session = snd (rotate toy_lib week ''7r1'' signed_in)"

lemma signed_in_eq:
  "refresh_tokens signed_in = [\<lparr>rt_id = 2, rt_user_id = 7, rt_token_hash = ''7r1'',
     rt_expires_at = 604800000000, rt_revoked = False, rt_created_at = 0\<rparr>]"
  by code_simp

lemma renewed_eq:
  "\<exists>r. rotate toy_lib week ''7r1'' signed_in = (Inr r, renewed_session) \<and> ar_refresh_token r = ''7r4''"
  "map (\<lambda>x. (rt_token_hash x, rt_user_id x, rt_revoked x)) (refresh_tokens renewed_session) =
    [(''7r1'', 7, True), (''7r4'', 7, False)]"
proof -
  have "(case fst (rotate toy_lib week ''7r1'' signed_in) of Inr r \<Rightarrow> ar_refresh_token r = ''7r4'' | Inl _ \<Rightarrow> False)"
    by code_simp
  then show "\<exists>r. rotate toy_lib week ''7r1'' signed_in = (Inr r, renewed_session) \<and> ar_refresh_token r = ''7r4''"
    unfolding renewed_session_def
    by (cases "rotate toy_lib week ''7r1'' signed_in"; cases "fst (rotate toy_lib week ''7r1'' signed_in)") auto
  show "map (\<lambda>x. (rt_token_hash x, rt_user_id x, rt_revoked x)) (refresh_tokens renewed_session) =
    [(''7r1'', 7, True), (''7r4'', 7, False)]" by code_simp
qed

lemma refresh_tokens_spent_once_witness:
  "count_list [Spent ''7r1'', Issued ''7r4''] (Spent ''7r1'') + live_tokens ''7r1'' renewed_session \<le> 1 \<and>
   live_tokens ''7r1'' renewed_session = 0"
proof -
  have hash: "hash_token toy_lib tok = tok" for tok by (simp add: hash_token_def toy_lib_def)
  obtain r where "rotate toy_lib week ''7r1'' signed_in = (Inr r, renewed_session)" "ar_refresh_token r = ''7r4''"
    using renewed_eq(1) by blast
  then have "session_step toy_lib week signed_in [Spent ''7r1'', Issued ''7r4''] renewed_session"
    using session_step.rotated [of toy_lib week "''7r1''" signed_in r renewed_session] by (simp add: hash)
  then have "session_run toy_lib week signed_in ([] @ [Spent ''7r1'', Issued ''7r4'']) renewed_session"
    by (rule session_run.then_step [OF session_run.nothing])
  from refresh_tokens_spent_once [OF this, of "''7r1''"]
  show ?thesis by (simp add: live_tokens_def signed_in_eq)
qed

lemma rotate_effect_witness:
  "fst (rotate toy_lib week ''7r1'' renewed_session) = Inl Unauthorized \<and>
   refresh_tokens (snd (rotate toy_lib week ''7r1'' renewed_session)) = []"
proof -
  let ?s' = "snd (rotate toy_lib week ''7r1'' renewed_session)" and ?r = "fst (rotate toy_lib week ''7r1'' renewed_session)"
  have run: "rotate toy_lib week ''7r1'' renewed_session = (?r, ?s')" by simp
  have hash: "hash_token toy_lib tok = tok" for tok by (simp add: hash_token_def toy_lib_def)
  have "map rt_token_hash (refresh_tokens renewed_session) = map fst [(''7r1'', 7 :: nat, True), (''7r4'', 7, False)]"
    unfolding renewed_eq(2) [symmetric] by simp
  then have dist: "distinct (map rt_token_hash (refresh_tokens renewed_session))" by simp
  obtain a b where rows: "refresh_tokens renewed_session = [a, b]" "rt_token_hash a = ''7r1''" "rt_user_id a = 7"
    "rt_revoked a" "rt_user_id b = 7" using renewed_eq(2) by (auto simp: map_eq_Cons_conv)
  obtain c where c: "decode_refresh_token toy_lib week (db_wall renewed_session) ''7r1'' = Inr c" "rc_sub c = ''7''"
    by (simp add: decode_refresh_token_def toy_lib_def)
  have users: "u_id ` set (users renewed_session) = {7}" by code_simp
  have "parse_nat (rc_sub c) = Some 7" unfolding c(2) by code_simp
  note kill = rotate_effect [OF run dist, THEN conjunct2, rule_format, OF c(1) this, of a]
  show ?thesis using kill rows users by (simp add: hash)
qed

end
