(* ===== verification/AccountAccess.thy ===== *)
theory AccountAccess
  imports Tokens Ephemeral
begin

text \<open>
  Account access (\<open>src/modules/auth/access.rs\<close>, \<open>src/modules/permissions/repository.rs\<close>): whether a
  user id may act and with which roles, answered from a cache that every write changing the answer
  invalidates. The \<open>AccessCache\<close> trait is a record of its operations, its laws the locale
  \<open>cache_port\<close>; it is interpreted on an in-memory cache with deadlines and on one that is down.
\<close>

section \<open>The port\<close>

record 'w access_cache =
  kc_get :: "string \<Rightarrow> ('w, string option) store_call"
  kc_set_ex :: "string \<Rightarrow> string \<Rightarrow> int \<Rightarrow> ('w, unit) store_call"
  kc_del :: "string list \<Rightarrow> ('w, unit) store_call"

definition empty_roles_sentinel :: string where "empty_roles_sentinel = [CHR 0x00]"
definition role_cache_ttl_seconds :: int where "role_cache_ttl_seconds = 900"
definition active_cache_ttl_seconds :: int where "active_cache_ttl_seconds = 60"

definition role_cache_key :: "uuid \<Rightarrow> string" where "role_cache_key u = ''user_roles:'' @ show_nat u"
definition active_cache_key :: "uuid \<Rightarrow> string" where "active_cache_key u = ''user_active:'' @ show_nat u"

text \<open>\<open>join\<close> and \<open>split\<close> at a newline: the split of the empty text is one empty piece.\<close>

fun join_lines :: "string list \<Rightarrow> string" where
  "join_lines [] = []"
| "join_lines [x] = x"
| "join_lines (x # y # ys) = x @ [CHR 0x0A] @ join_lines (y # ys)"

fun split_lines :: "string \<Rightarrow> string list" where
  "split_lines [] = [[]]"
| "split_lines (c # cs) =
    (if c = CHR 0x0A then [] # split_lines cs
     else (case split_lines cs of [] \<Rightarrow> [[c]] | x # xs \<Rightarrow> (c # x) # xs))"

section \<open>Resolving\<close>

definition active_in_db :: "uuid \<Rightarrow> db \<Rightarrow> bool" where
  "active_in_db uid s = (case fetch_by (\<lambda>u. u_id u = uid) (users s) of Some u \<Rightarrow> u_is_active u | None \<Rightarrow> False)"

text \<open>\<open>.ok().flatten()\<close>: a failed read is a miss.\<close>

definition cached :: "string + string option \<Rightarrow> string option" where
  "cached r = (case r of Inl _ \<Rightarrow> None | Inr v \<Rightarrow> v)"

definition resolve_active :: "'w access_cache \<Rightarrow> db \<Rightarrow> uuid \<Rightarrow> 'w \<Rightarrow> bool \<times> 'w" where
  "resolve_active cache s uid w =
    (let (r, w1) = kc_get cache (active_cache_key uid) w in
     if cached r = Some ''1'' then (True, w1)
     else if cached r = Some ''0'' then (False, w1)
     else
       (let active = active_in_db uid s;
            flag = (if active then ''1'' else ''0'')
        in (active, snd (kc_set_ex cache (active_cache_key uid) flag active_cache_ttl_seconds w1))))"

definition encode_roles :: "string list \<Rightarrow> string" where
  "encode_roles roles = (if roles = [] then empty_roles_sentinel else join_lines roles)"

definition resolve_roles :: "'w access_cache \<Rightarrow> db \<Rightarrow> uuid \<Rightarrow> 'w \<Rightarrow> string list \<times> 'w" where
  "resolve_roles cache s uid w =
    (let (r, w1) = kc_get cache (role_cache_key uid) w;
         miss = (let db_roles = role_names_of uid s
           in (db_roles, snd (kc_set_ex cache (role_cache_key uid) (encode_roles db_roles) role_cache_ttl_seconds w1)))
     in case cached r of
          Some encoded \<Rightarrow>
            if encoded = empty_roles_sentinel then ([], w1)
            else if encoded \<noteq> [] then (split_lines encoded, w1)
            else miss
        | None \<Rightarrow> miss)"

definition resolve_access :: "'w access_cache \<Rightarrow> db \<Rightarrow> uuid \<Rightarrow> 'w \<Rightarrow> string list option \<times> 'w" where
  "resolve_access cache s uid w =
    (let (is_active, w1) = resolve_active cache s uid w in
     if \<not> is_active then (None, w1)
     else (let (roles, w2) = resolve_roles cache s uid w1 in (Some roles, w2)))"

section \<open>The writes that change the answer\<close>

datatype access_dirty = AccessDirty (dirty_user: uuid)

definition set_active_tx :: "uuid \<Rightarrow> bool \<Rightarrow> unit sql" where
  "set_active_tx uid active = put_tx (\<lambda>s. s\<lparr>users :=
    update_where (\<lambda>u. u_id u = uid) (\<lambda>u. u\<lparr>u_is_active := active\<rparr>) (users s)\<rparr>)"

definition deactivate_tx :: "uuid \<Rightarrow> access_dirty sql" where
  "deactivate_tx uid =
    bind_tx (set_active_tx uid False) (\<lambda>_.
    bind_tx (end_all uid) (\<lambda>_.
    return_tx (AccessDirty uid)))"

definition reactivate_tx :: "uuid \<Rightarrow> access_dirty sql" where
  "reactivate_tx uid = bind_tx (set_active_tx uid True) (\<lambda>_. return_tx (AccessDirty uid))"

definition assign_role :: "uuid \<Rightarrow> role \<Rightarrow> access_dirty sql" where
  "assign_role uid role = (\<lambda>s.
    if role_as_str role \<notin> set (role_names s) then Inl RowNotFound
    else if (uid, role_as_str role) \<in> set (user_roles s) then Inr (AccessDirty uid, s)
    else Inr (AccessDirty uid, s\<lparr>user_roles := user_roles s @ [(uid, role_as_str role)]\<rparr>))"

definition flush :: "'w access_cache \<Rightarrow> access_dirty \<Rightarrow> 'w \<Rightarrow> 'w" where
  "flush cache dirty w =
    snd (kc_del cache [role_cache_key (dirty_user dirty), active_cache_key (dirty_user dirty)] w)"

section \<open>What a cache promises\<close>

text \<open>
  \<open>view w\<close> is what the cache holds in the world \<open>w\<close>. Any call may let entries lapse. A read that
  succeeds tells what was held or that it lapsed; a write that fails may have been made or not.
\<close>

definition lapses :: "('w \<Rightarrow> string \<Rightarrow> string option) \<Rightarrow> 'w \<Rightarrow> 'w \<Rightarrow> bool" where
  "lapses view w w' \<longleftrightarrow> (\<forall>j. view w' j = None \<or> view w' j = view w j)"

locale cache_port =
  fixes cache :: "'w access_cache" and view :: "'w \<Rightarrow> string \<Rightarrow> string option"
  assumes get_law: "kc_get cache k w = (r, w') \<Longrightarrow> lapses view w w'"
    and get_value: "kc_get cache k w = (Inr (Some v), w') \<Longrightarrow> view w k = Some v"
    and set_law: "kc_set_ex cache k v ttl w = (q, w') \<Longrightarrow>
      view w' j = None \<or> view w' j = view w j \<or> j = k \<and> view w' j = Some v"
    and del_law: "kc_del cache ks w = (q, w') \<Longrightarrow> lapses view w w'"
    and del_done: "kc_del cache ks w = (Inr (), w') \<Longrightarrow> k \<in> set ks \<Longrightarrow> view w' k = None"

text \<open>A cache is coherent with the database when what it holds is what a reload would write.\<close>

definition coherent_for :: "('w \<Rightarrow> string \<Rightarrow> string option) \<Rightarrow> db \<Rightarrow> 'w \<Rightarrow> uuid \<Rightarrow> bool" where
  "coherent_for view s w uid \<longleftrightarrow>
    (view w (active_cache_key uid) = None \<or>
     view w (active_cache_key uid) = Some (if active_in_db uid s then ''1'' else ''0'')) \<and>
    (view w (role_cache_key uid) = None \<or>
     view w (role_cache_key uid) = Some (encode_roles (role_names_of uid s)))"

definition coherent :: "('w \<Rightarrow> string \<Rightarrow> string option) \<Rightarrow> db \<Rightarrow> 'w \<Rightarrow> bool" where
  "coherent view s w \<longleftrightarrow> (\<forall>uid. coherent_for view s w uid)"

text \<open>The answer without any cache.\<close>

definition access_truth :: "db \<Rightarrow> uuid \<Rightarrow> string list option" where
  "access_truth s uid = (if active_in_db uid s then Some (role_names_of uid s) else None)"

definition role_name_ok :: "string \<Rightarrow> bool" where
  "role_name_ok r = (r \<noteq> [] \<and> CHR 0x00 \<notin> set r \<and> CHR 0x0A \<notin> set r)"

definition roles_ok :: "db \<Rightarrow> bool" where
  "roles_ok s = list_all role_name_ok (role_names s)"

lemma split_join:
  "xs \<noteq> [] \<Longrightarrow> \<forall>x \<in> set xs. CHR 0x0A \<notin> set x \<Longrightarrow> split_lines (join_lines xs) = xs"
proof (induction xs rule: join_lines.induct)
  case (2 x)
  have "split_lines x = [x]" if "CHR 0x0A \<notin> set x" for x using that by (induction x) auto
  then show ?case using 2 by simp
next
  case (3 x y ys)
  have "split_lines (x @ [CHR 0x0A] @ t) = x # split_lines t" if "CHR 0x0A \<notin> set x" for x t
    using that by (induction x) auto
  then show ?case using 3 by simp
qed simp

lemma join_lines_chars:
  "xs \<noteq> [] \<Longrightarrow> set (hd xs) \<subseteq> set (join_lines xs)"
  "\<forall>x \<in> set xs. CHR 0x00 \<notin> set x \<Longrightarrow> CHR 0x00 \<notin> set (join_lines xs)"
  by (induction xs rule: join_lines.induct) auto

lemma set_insert_name [simp]: "set (insert_name x xs) = insert x (set xs)"
  by (induction xs) auto

lemma role_names_of_subset: "set (role_names_of uid s) \<subseteq> set (role_names s)"
proof -
  have "set (foldr insert_name xs []) = set xs" for xs by (induction xs) simp_all
  then show ?thesis by (auto simp: role_names_of_def)
qed

lemma encode_roles_decodes:
  assumes "roles_ok s"
  shows "encode_roles (role_names_of uid s) \<noteq> []"
    and "role_names_of uid s \<noteq> [] \<Longrightarrow> encode_roles (role_names_of uid s) \<noteq> empty_roles_sentinel"
    and "role_names_of uid s \<noteq> [] \<Longrightarrow> split_lines (encode_roles (role_names_of uid s)) = role_names_of uid s"
proof -
  let ?rs = "role_names_of uid s"
  have ok: "\<forall>r \<in> set ?rs. role_name_ok r"
    using assms role_names_of_subset [of uid s] by (auto simp: roles_ok_def list_all_iff)
  have sub: "set (hd ?rs) \<subseteq> set (join_lines ?rs) \<and> CHR 0x00 \<notin> set (join_lines ?rs)" if "?rs \<noteq> []"
    using that ok by (intro conjI join_lines_chars) (auto simp: role_name_ok_def)
  have ne: "hd ?rs \<noteq> []" if "?rs \<noteq> []" using that ok by (auto simp: role_name_ok_def)
  show "encode_roles ?rs \<noteq> []"
    using sub ne by (cases "?rs = []") (auto simp: encode_roles_def empty_roles_sentinel_def)
  show "encode_roles ?rs \<noteq> empty_roles_sentinel" if "?rs \<noteq> []"
    using sub [OF that] that by (auto simp: encode_roles_def empty_roles_sentinel_def)
  show "split_lines (encode_roles ?rs) = ?rs" if "?rs \<noteq> []"
    using that ok split_join [OF that] by (simp add: encode_roles_def role_name_ok_def)
qed

lemma keys_apart [simp]:
  "active_cache_key u = active_cache_key v \<longleftrightarrow> u = v" "role_cache_key u = role_cache_key v \<longleftrightarrow> u = v"
  "active_cache_key u \<noteq> role_cache_key v" "role_cache_key u \<noteq> active_cache_key v"
  by (auto simp: active_cache_key_def role_cache_key_def)

section \<open>A coherent cache answers the truth\<close>

lemma coherent_lapses: "coherent view s w \<Longrightarrow> lapses view w w' \<Longrightarrow> coherent view s w'"
  unfolding coherent_def coherent_for_def lapses_def by metis

lemma coherentD:
  "coherent view s w \<Longrightarrow> view w (active_cache_key uid) = Some v \<Longrightarrow> v = (if active_in_db uid s then ''1'' else ''0'')"
  "coherent view s w \<Longrightarrow> view w (role_cache_key uid) = Some v \<Longrightarrow> v = encode_roles (role_names_of uid s)"
proof -
  assume "coherent view s w"
  then have c: "coherent_for view s w uid" by (simp add: coherent_def)
  show "v = (if active_in_db uid s then ''1'' else ''0'')" if "view w (active_cache_key uid) = Some v"
    using c that by (simp add: coherent_for_def)
  show "v = encode_roles (role_names_of uid s)" if "view w (role_cache_key uid) = Some v"
    using c that by (simp add: coherent_for_def)
qed

context cache_port
begin

lemma cached_value: "kc_get cache k w = (r, w') \<Longrightarrow> cached r = Some v \<Longrightarrow> view w k = Some v"
  using get_value by (cases r) (auto simp: cached_def)

lemma coherent_get: "kc_get cache k w = (r, w') \<Longrightarrow> coherent view s w \<Longrightarrow> coherent view s w'"
  by (rule coherent_lapses [OF _ get_law])

lemma coherent_set_active:
  assumes "coherent view s w"
  shows "coherent view s (snd (kc_set_ex cache (active_cache_key uid) (if active_in_db uid s then ''1'' else ''0'') ttl w))"
proof -
  obtain q w' where c: "kc_set_ex cache (active_cache_key uid) (if active_in_db uid s then ''1'' else ''0'') ttl w = (q, w')"
    by (rule prod.exhaust)
  show ?thesis unfolding coherent_def coherent_for_def c snd_conv
  proof (intro allI conjI)
    fix v
    have old: "coherent_for view s w v" using assms by (simp add: coherent_def)
    show "view w' (active_cache_key v) = None \<or>
        view w' (active_cache_key v) = Some (if active_in_db v s then ''1'' else ''0'')"
      using set_law [OF c, of "active_cache_key v"] old by (auto simp: coherent_for_def)
    show "view w' (role_cache_key v) = None \<or>
        view w' (role_cache_key v) = Some (encode_roles (role_names_of v s))"
      using set_law [OF c, of "role_cache_key v"] old by (auto simp: coherent_for_def)
  qed
qed

lemma coherent_set_roles:
  assumes "coherent view s w"
  shows "coherent view s (snd (kc_set_ex cache (role_cache_key uid) (encode_roles (role_names_of uid s)) ttl w))"
proof -
  obtain q w' where c: "kc_set_ex cache (role_cache_key uid) (encode_roles (role_names_of uid s)) ttl w = (q, w')"
    by (rule prod.exhaust)
  show ?thesis unfolding coherent_def coherent_for_def c snd_conv
  proof (intro allI conjI)
    fix v
    have old: "coherent_for view s w v" using assms by (simp add: coherent_def)
    show "view w' (active_cache_key v) = None \<or>
        view w' (active_cache_key v) = Some (if active_in_db v s then ''1'' else ''0'')"
      using set_law [OF c, of "active_cache_key v"] old by (auto simp: coherent_for_def)
    show "view w' (role_cache_key v) = None \<or>
        view w' (role_cache_key v) = Some (encode_roles (role_names_of v s))"
      using set_law [OF c, of "role_cache_key v"] old by (auto simp: coherent_for_def)
  qed
qed

lemma resolve_active_coherent:
  assumes "coherent view s w"
  shows "fst (resolve_active cache s uid w) = active_in_db uid s \<and> coherent view s (snd (resolve_active cache s uid w))"
proof -
  obtain r w1 where g: "kc_get cache (active_cache_key uid) w = (r, w1)" by (rule prod.exhaust)
  have "cached r = Some v \<Longrightarrow> v = (if active_in_db uid s then ''1'' else ''0'')" for v
    using cached_value [OF g] coherentD(1) [OF assms] by blast
  then show ?thesis
    using coherent_get [OF g assms] coherent_set_active [OF coherent_get [OF g assms], of uid]
    by (auto simp: resolve_active_def g Let_def split: if_splits)
qed

lemma resolve_roles_coherent:
  assumes "coherent view s w" "roles_ok s"
  shows "fst (resolve_roles cache s uid w) = role_names_of uid s \<and> coherent view s (snd (resolve_roles cache s uid w))"
proof -
  obtain r w1 where g: "kc_get cache (role_cache_key uid) w = (r, w1)" by (rule prod.exhaust)
  note w1 = coherent_get [OF g assms(1)]
  show ?thesis
  proof (cases "cached r")
    case None
    then show ?thesis using coherent_set_roles [OF w1] by (simp add: resolve_roles_def g Let_def)
  next
    case (Some v)
    have v: "v = encode_roles (role_names_of uid s)"
      using coherentD(2) [OF assms(1) cached_value [OF g Some]] .
    note dec = encode_roles_decodes [OF assms(2), of uid]
    show ?thesis
    proof (cases "role_names_of uid s = []")
      case True
      then show ?thesis using Some w1 v by (simp add: resolve_roles_def g Let_def encode_roles_def)
    next
      case False
      then show ?thesis using Some w1 dec v by (simp add: resolve_roles_def g Let_def)
    qed
  qed
qed

lemma resolve_coherent:
  assumes "coherent view s w" "roles_ok s"
  shows "fst (resolve_access cache s uid w) = access_truth s uid \<and> coherent view s (snd (resolve_access cache s uid w))"
proof -
  obtain a w1 where 1: "resolve_active cache s uid w = (a, w1)" by (rule prod.exhaust)
  obtain rs w2 where 2: "resolve_roles cache s uid w1 = (rs, w2)" by (rule prod.exhaust)
  note A = resolve_active_coherent [OF assms(1), of uid, unfolded 1]
  have "coherent view s w1" using A by simp
  note R = resolve_roles_coherent [OF this assms(2), of uid, unfolded 2]
  show ?thesis using A R by (simp add: resolve_access_def 1 2 access_truth_def)
qed

lemma flush_coherent:
  assumes "coherent view s w" "fst (kc_del cache [role_cache_key uid, active_cache_key uid] w) = Inr ()"
    and same: "\<And>v. v \<noteq> uid \<Longrightarrow> active_in_db v s' = active_in_db v s \<and> role_names_of v s' = role_names_of v s"
  shows "coherent view s' (flush cache (AccessDirty uid) w)"
proof -
  obtain w' where c: "kc_del cache [role_cache_key uid, active_cache_key uid] w = (Inr (), w')"
    using assms(2) by (metis prod.collapse)
  have gone: "view w' (role_cache_key uid) = None" "view w' (active_cache_key uid) = None"
    by (rule del_done [OF c]; simp)+
  have "coherent_for view s' w' v" for v
  proof (cases "v = uid")
    case True
    then show ?thesis using gone by (simp add: coherent_for_def)
  next
    case False
    have "coherent view s w'" using assms(1) del_law [OF c] by (rule coherent_lapses)
    then show ?thesis using same [OF False] by (simp add: coherent_def coherent_for_def)
  qed
  then show ?thesis by (simp add: flush_def c coherent_def)
qed

end

section \<open>The two caches\<close>

definition mem_del_all :: "string list \<Rightarrow> (mem_store, unit) store_call" where
  "mem_del_all ks w = (Inr (), fold (\<lambda>k w. snd (mem_del k w)) ks w)"

definition mem_cache :: "mem_store access_cache" where
  "mem_cache = \<lparr>kc_get = mem_get, kc_set_ex = mem_set_ex, kc_del = mem_del_all\<rparr>"

definition down_cache :: "'w access_cache" where
  "down_cache = \<lparr>kc_get = (\<lambda>_ w. (Inl ''connection refused'', w)),
     kc_set_ex = (\<lambda>_ _ _ w. (Inl ''connection refused'', w)),
     kc_del = (\<lambda>_ w. (Inl ''connection refused'', w))\<rparr>"

lemma mem_del_all_view:
  "mem_view (fold (\<lambda>k w. snd (mem_del k w)) ks w) j = (if j \<in> set ks then None else mem_view w j)"
  by (induction ks arbitrary: w) (auto simp: mem_del_def mem_view_put)

interpretation mem_port: cache_port mem_cache mem_view
proof
  fix k v :: string and w w' :: mem_store and r ttl ks j q
  show "lapses mem_view w w'" if "kc_get mem_cache k w = (r, w')"
    using that by (auto simp: mem_cache_def mem_get_def Let_def lapses_def)
  show "mem_view w k = Some v" if "kc_get mem_cache k w = (Inr (Some v), w')"
    using that by (auto simp: mem_cache_def mem_get_def Let_def mem_view_def)
  show "mem_view w' j = None \<or> mem_view w' j = mem_view w j \<or> j = k \<and> mem_view w' j = Some v"
    if "kc_set_ex mem_cache k v ttl w = (q, w')"
    using that by (auto simp: mem_cache_def mem_set_ex_def Let_def mem_view_put split: if_splits)
  show "lapses mem_view w w'" if "kc_del mem_cache ks w = (q, w')"
    using that by (auto simp: mem_cache_def mem_del_all_def lapses_def mem_del_all_view)
  show "mem_view w' k = None" if "kc_del mem_cache ks w = (Inr (), w')" "k \<in> set ks"
    using that by (auto simp: mem_cache_def mem_del_all_def mem_del_all_view)
qed

interpretation down_port: cache_port down_cache "\<lambda>_ _. None"
  by unfold_locales (simp_all add: down_cache_def lapses_def)

section \<open>The property\<close>

text \<open>
  What happens between two questions: an answer (which fills the cache), the three writes of this
  module followed by their flush, entries lapsing, the birth of an account nothing is cached of, and
  anything that changes no one's access.
\<close>

inductive access_step :: "'w access_cache \<Rightarrow> ('w \<Rightarrow> string \<Rightarrow> string option) \<Rightarrow> db \<Rightarrow> 'w \<Rightarrow> db \<Rightarrow> 'w \<Rightarrow> bool"
  for cache view where
  asked: "access_step cache view s w s (snd (resolve_access cache s uid w))"
| deactivated: "deactivate_tx uid s = Inr (d, s') \<Longrightarrow>
    fst (kc_del cache [role_cache_key uid, active_cache_key uid] w) = Inr () \<Longrightarrow>
    access_step cache view s w s' (flush cache d w)"
| reactivated: "reactivate_tx uid s = Inr (d, s') \<Longrightarrow>
    fst (kc_del cache [role_cache_key uid, active_cache_key uid] w) = Inr () \<Longrightarrow>
    access_step cache view s w s' (flush cache d w)"
| granted: "assign_role uid role s = Inr (d, s') \<Longrightarrow>
    fst (kc_del cache [role_cache_key uid, active_cache_key uid] w) = Inr () \<Longrightarrow>
    access_step cache view s w s' (flush cache d w)"
| lapsed: "lapses view w w' \<Longrightarrow> access_step cache view s w s w'"
| born: "(\<And>v. v \<noteq> uid \<Longrightarrow> active_in_db v s' = active_in_db v s \<and> role_names_of v s' = role_names_of v s) \<Longrightarrow>
    role_names s' = role_names s \<Longrightarrow> view w (active_cache_key uid) = None \<Longrightarrow>
    view w (role_cache_key uid) = None \<Longrightarrow> access_step cache view s w s' w"
| elsewhere: "(\<And>v. active_in_db v s' = active_in_db v s \<and> role_names_of v s' = role_names_of v s) \<Longrightarrow>
    role_names s' = role_names s \<Longrightarrow> access_step cache view s w s' w"

inductive access_reachable :: "'w access_cache \<Rightarrow> ('w \<Rightarrow> string \<Rightarrow> string option) \<Rightarrow> db \<Rightarrow> 'w \<Rightarrow> bool"
  for cache view where
  cold: "(\<And>k. view w k = None) \<Longrightarrow> roles_ok s \<Longrightarrow> access_reachable cache view s w"
| later: "access_reachable cache view s w \<Longrightarrow> access_step cache view s w s' w' \<Longrightarrow>
    access_reachable cache view s' w'"

lemma set_active_others:
  "v \<noteq> uid \<Longrightarrow> fetch_by (\<lambda>u. u_id u = v) (update_where (\<lambda>u. u_id u = uid) (\<lambda>u. u\<lparr>u_is_active := b\<rparr>) t) =
    fetch_by (\<lambda>u. u_id u = v) t"
  by (induction t) auto

lemma access_writes:
  "deactivate_tx uid s = Inr (d, s') \<Longrightarrow> d = AccessDirty uid \<and> role_names s' = role_names s \<and>
    (v \<noteq> uid \<longrightarrow> active_in_db v s' = active_in_db v s \<and> role_names_of v s' = role_names_of v s)"
  "reactivate_tx uid s = Inr (d, s') \<Longrightarrow> d = AccessDirty uid \<and> role_names s' = role_names s \<and>
    (v \<noteq> uid \<longrightarrow> active_in_db v s' = active_in_db v s \<and> role_names_of v s' = role_names_of v s)"
  "assign_role uid role s = Inr (d, s') \<Longrightarrow> d = AccessDirty uid \<and> role_names s' = role_names s \<and>
    (v \<noteq> uid \<longrightarrow> active_in_db v s' = active_in_db v s \<and> role_names_of v s' = role_names_of v s)"
  by (auto simp: deactivate_tx_def reactivate_tx_def assign_role_def set_active_tx_def end_all_def bind_tx_Inr
      active_in_db_def role_names_of_def set_active_others split: if_splits)

lemma access_reachable_coherent:
  assumes "cache_port cache view" "access_reachable cache view s w"
  shows "coherent view s w \<and> roles_ok s"
  using assms(2)
proof (induction rule: access_reachable.induct)
  case (cold w s)
  then show ?case by (simp add: coherent_def coherent_for_def)
next
  case (later s w s' w')
  then have coh: "coherent view s w" and names: "roles_ok s" by blast+
  note flushed = cache_port.flush_coherent [OF assms(1) coh]
  from later.hyps(2) show ?case
  proof cases
    case (asked uid)
    then show ?thesis using cache_port.resolve_coherent [OF assms(1) coh names] names by simp
  next
    case (deactivated uid d)
    then show ?thesis using flushed [OF deactivated(3)] access_writes(1) [OF deactivated(2)] names
      by (simp add: roles_ok_def)
  next
    case (reactivated uid d)
    then show ?thesis using flushed [OF reactivated(3)] access_writes(2) [OF reactivated(2)] names
      by (simp add: roles_ok_def)
  next
    case (granted uid role d)
    then show ?thesis using flushed [OF granted(3)] access_writes(3) [OF granted(2)] names
      by (simp add: roles_ok_def)
  next
    case lapsed
    then show ?thesis using coherent_lapses [OF coh] names by simp
  next
    case (born uid)
    have "coherent_for view s' w v" for v
      using coh born by (cases "v = uid") (simp_all add: coherent_def coherent_for_def)
    then show ?thesis using born names by (simp add: coherent_def roles_ok_def)
  next
    case elsewhere
    then show ?thesis using coh names by (simp add: coherent_def coherent_for_def roles_ok_def)
  qed
qed


definition access_example :: db where
  "access_example = empty_db\<lparr>users := [member 7 0], user_roles := [(7, ''member''), (7, ''coach'')]\<rparr>"

definition cold_cache :: mem_store where
  "cold_cache = \<lparr>ms_entries = (\<lambda>_. None), ms_now = 0\<rparr>"


end
