(* ===== verification/Accounts.thy ===== *)
theory Accounts
  imports AccountAccess Guards Notices Outbox Clock
begin

text \<open>
  Accounts (\<open>src/modules/auth/service.rs\<close>, \<open>provisioning.rs\<close>, \<open>linking.rs\<close>, \<open>repository.rs\<close>,
  \<open>src/modules/users\<close>): registration, password and Google sign-in, password reset, phone
  verification, profiles and the admin's user management. The email column compares without regard
  to case (\<open>CITEXT\<close>). Hashing a password, the exchange of a Google code and the token library are
  parameters; the world \<open>'w\<close> is the ephemeral store's or the access cache's.
\<close>

section \<open>Rows\<close>

definition normalize_email :: "string \<Rightarrow> string" where
  "normalize_email email = to_lowercase email"

definition insert_user :: "user \<Rightarrow> user sql" where
  "insert_user u = (\<lambda>s.
    if u_id u \<in> u_id ` set (users s) then Inl (UniqueViolation ''users_pkey'')
    else if list_ex (\<lambda>x. to_lowercase (u_email x) = to_lowercase (u_email u)) (users s)
      then Inl (UniqueViolation ''users_email_key'')
    else if u_google_id u \<noteq> None \<and> list_ex (\<lambda>x. u_google_id x = u_google_id u) (users s)
      then Inl (UniqueViolation ''users_google_id_key'')
    else if u_password_hash u = None \<and> u_google_id u = None
      then Inl (CheckViolation ''users_has_auth_method'')
    else Inr (u, s\<lparr>users := users s @ [u]\<rparr>))"

definition new_user :: "uuid \<Rightarrow> string \<Rightarrow> string \<Rightarrow> instant \<Rightarrow> user" where
  "new_user i email name now = \<lparr>u_id = i, u_email = email, u_name = name, u_phone = None,
     u_phone_verified = False, u_avatar_url = None, u_password_hash = None, u_google_id = None,
     u_is_active = True, u_last_login = None, u_created_at = now, u_points_balance = 0,
     u_preferences = None, u_birth_date = None\<rparr>"

definition create_user_tx ::
  "string \<Rightarrow> string \<Rightarrow> string option \<Rightarrow> string \<Rightarrow> date option \<Rightarrow> instant \<Rightarrow> user sql" where
  "create_user_tx email name phone hash birth_date now = bind_tx fresh_uuid (\<lambda>i.
    insert_user ((new_user i email name now)\<lparr>u_phone := phone, u_password_hash := Some hash,
      u_birth_date := birth_date\<rparr>))"

definition user_by_email :: "string \<Rightarrow> db \<Rightarrow> user option" where
  "user_by_email email s = fetch_by (\<lambda>u. to_lowercase (u_email u) = to_lowercase email) (users s)"

definition user_by_google_id :: "string \<Rightarrow> db \<Rightarrow> user option" where
  "user_by_google_id g s = fetch_by (\<lambda>u. u_google_id u = Some g) (users s)"

definition user_by_id :: "uuid \<Rightarrow> db \<Rightarrow> user option" where
  "user_by_id i s = fetch_by (\<lambda>u. u_id u = i) (users s)"

text \<open>An UPDATE of the row with an id; \<open>RETURNING *\<close> reads it back.\<close>

definition update_user :: "uuid \<Rightarrow> (user \<Rightarrow> user) \<Rightarrow> db \<Rightarrow> db" where
  "update_user i f s = s\<lparr>users := update_where (\<lambda>u. u_id u = i) f (users s)\<rparr>"

definition update_last_login :: "uuid \<Rightarrow> unit sql" where
  "update_last_login i = (\<lambda>s. Inr ((), update_user i (\<lambda>u. u\<lparr>u_last_login := Some (db_now s)\<rparr>) s))"

definition update_phone_verified :: "uuid \<Rightarrow> string \<Rightarrow> unit sql" where
  "update_phone_verified i phone =
    put_tx (update_user i (\<lambda>u. u\<lparr>u_phone_verified := True, u_phone := Some phone\<rparr>))"

definition update_password_tx :: "uuid \<Rightarrow> string \<Rightarrow> unit sql" where
  "update_password_tx i hash = put_tx (update_user i (\<lambda>u. u\<lparr>u_password_hash := Some hash\<rparr>))"

definition create_or_update_google_user_tx ::
  "string \<Rightarrow> string \<Rightarrow> string \<Rightarrow> string option \<Rightarrow> instant \<Rightarrow> user sql" where
  "create_or_update_google_user_tx email name g avatar now = bind_tx fresh_uuid (\<lambda>i s.
    (case user_by_google_id g s of
       Some old \<Rightarrow>
         if list_ex (\<lambda>x. u_id x \<noteq> u_id old \<and> to_lowercase (u_email x) = to_lowercase email) (users s)
         then Inl (UniqueViolation ''users_email_key'')
         else (let f = (\<lambda>u. u\<lparr>u_email := email, u_name := name, u_avatar_url := coalesce avatar (u_avatar_url u)\<rparr>)
               in Inr (f old, update_user (u_id old) f s))
     | None \<Rightarrow> insert_user ((new_user i email name now)\<lparr>u_google_id := Some g, u_avatar_url := avatar\<rparr>) s))"

definition link_google_account_tx :: "uuid \<Rightarrow> string \<Rightarrow> string option \<Rightarrow> user sql" where
  "link_google_account_tx i g avatar = (\<lambda>s.
    if list_ex (\<lambda>x. u_id x \<noteq> i \<and> u_google_id x = Some g) (users s)
    then Inl (UniqueViolation ''users_google_id_key'')
    else (let s' = update_user i (\<lambda>u. u\<lparr>u_google_id := Some g, u_avatar_url := coalesce avatar (u_avatar_url u)\<rparr>) s
          in case user_by_id i s' of None \<Rightarrow> Inl RowNotFound | Some u \<Rightarrow> Inr (u, s')))"

section \<open>Birth of an account\<close>

record new_account =
  na_email :: string
  na_name :: string
  na_phone :: "string option"
  na_birth_date :: "date option"
  na_password_hash :: string

definition registered_event :: "user \<Rightarrow> domain_event" where
  "registered_event u = UserRegistered \<lparr>ur_user_id = u_id u, ur_email = u_email u, ur_name = u_name u\<rparr>"

definition create_account :: "new_account \<Rightarrow> string option \<Rightarrow> instant \<Rightarrow> user sql" where
  "create_account account cid now =
    bind_tx (create_user_tx (normalize_email (na_email account)) (na_name account) (na_phone account)
      (na_password_hash account) (na_birth_date account) now) (\<lambda>user.
    bind_tx (assign_role (u_id user) Role_Member) (\<lambda>_.
    bind_tx (insert_domain_event_tx (registered_event user) cid) (\<lambda>_.
    return_tx user)))"

section \<open>Linking a Google account\<close>

datatype link_action = Create | Link uuid | Refresh

record link_plan =
  lp_action :: link_action
  lp_grant_member :: bool
  lp_emit_registered_event :: bool
  lp_send_welcome :: bool

definition link_plan_of :: "user option \<Rightarrow> user option \<Rightarrow> app_error + link_plan" where
  "link_plan_of by_google by_email =
    (if by_google \<noteq> None
     then Inr \<lparr>lp_action = Refresh, lp_grant_member = False, lp_emit_registered_event = False,
       lp_send_welcome = False\<rparr>
     else (case by_email of
        Some u \<Rightarrow>
          if u_google_id u \<noteq> None then Inl (Conflict ''email already associated with another account'')
          else Inr \<lparr>lp_action = Link (u_id u), lp_grant_member = False, lp_emit_registered_event = True,
            lp_send_welcome = False\<rparr>
      | None \<Rightarrow> Inr \<lparr>lp_action = Create, lp_grant_member = True, lp_emit_registered_event = True,
          lp_send_welcome = True\<rparr>))"

section \<open>Signing up and in\<close>

record register_request =
  rg_email :: string
  rg_name :: string
  rg_password :: string

definition hash_for_storage :: "(string \<Rightarrow> string + string) \<Rightarrow> string \<Rightarrow> app_error + string" where
  "hash_for_storage hash_password password =
    (case hash_password password of
       Inl e \<Rightarrow> Inl (Internal (''password hash error: '' @ e)) | Inr h \<Rightarrow> Inr h)"

definition register_tx ::
  "jwt_lib \<Rightarrow> auth_config \<Rightarrow> register_request \<Rightarrow> string \<Rightarrow> string option \<Rightarrow> instant \<Rightarrow> auth_response app" where
  "register_tx lib cfg req hashed cid now =
    bind_tx (map_err_tx (conflict_on_unique ''registration failed'')
      (create_account \<lparr>na_email = rg_email req, na_name = rg_name req, na_phone = None,
         na_birth_date = None, na_password_hash = hashed\<rparr> cid now)) (\<lambda>user.
    start lib cfg user)"

definition register ::
  "(string \<Rightarrow> string + string) \<Rightarrow> jwt_lib \<Rightarrow> auth_config \<Rightarrow> register_request \<Rightarrow> string option \<Rightarrow>
    instant \<Rightarrow> auth_response handler" where
  "register hash_password lib cfg req cid now s =
    (case hash_for_storage hash_password (rg_password req) of
       Inl e \<Rightarrow> (Inl e, s)
     | Inr hashed \<Rightarrow> then_deliver (commit_tx (register_tx lib cfg req hashed cid now))
         (\<lambda>response. user_welcomed (us_id (ar_user response))) s)"

record login_request =
  lg_email :: string
  lg_password :: string

text \<open>The second half of a sign-in works with the row the check has read; nothing locks it in between.\<close>

definition login_issue :: "jwt_lib \<Rightarrow> auth_config \<Rightarrow> user \<Rightarrow> auth_response handler" where
  "login_issue lib cfg user s =
    (case commit_tx (db_try (update_last_login (u_id user))) s of
       (Inl e, s') \<Rightarrow> (Inl e, s')
     | (Inr _, s') \<Rightarrow> commit_tx (start lib cfg user) s')"

definition login ::
  "(string \<Rightarrow> string \<Rightarrow> string + bool) \<Rightarrow> string \<Rightarrow> 'w ephemeral_store \<Rightarrow> jwt_lib \<Rightarrow> auth_config \<Rightarrow>
    login_request \<Rightarrow> 'w \<Rightarrow> db \<Rightarrow> (app_error + auth_response) \<times> 'w \<times> db" where
  "login argon2 dummy_hash store lib cfg req w s =
    (case verify_credentials argon2 dummy_hash (\<lambda>e. Inr (user_by_email e s)) store
        (normalize_email (lg_email req)) (lg_password req) w of
       (Inl e, w') \<Rightarrow> (Inl e, w', s)
     | (Inr user, w') \<Rightarrow> (let (r, s') = login_issue lib cfg user s in (r, w', s')))"

record google_identity =
  gi_sub :: string
  gi_email :: string
  gi_name :: "string option"
  gi_picture :: "string option"

definition google_tx ::
  "jwt_lib \<Rightarrow> auth_config \<Rightarrow> google_identity \<Rightarrow> string option \<Rightarrow> instant \<Rightarrow>
    (link_plan \<times> access_dirty option \<times> auth_response) app" where
  "google_tx lib cfg g cid now =
    (let name = (case gi_name g of Some n \<Rightarrow> n | None \<Rightarrow> gi_email g);
         email = normalize_email (gi_email g) in
    bind_tx (get_tx (user_by_google_id (gi_sub g))) (\<lambda>by_google.
    bind_tx (if by_google = None then get_tx (user_by_email email) else return_tx None) (\<lambda>by_email.
    bind_tx (of_result_tx (link_plan_of by_google by_email)) (\<lambda>lp.
    bind_tx (db_try (case lp_action lp of
        Link i \<Rightarrow> link_google_account_tx i (gi_sub g) (gi_picture g)
      | _ \<Rightarrow> create_or_update_google_user_tx email name (gi_sub g) (gi_picture g) now)) (\<lambda>user.
    bind_tx (if lp_grant_member lp
      then bind_tx (db_try (assign_role (u_id user) Role_Member)) (\<lambda>d. return_tx (Some d))
      else return_tx None) (\<lambda>dirty.
    bind_tx (db_try (update_last_login (u_id user))) (\<lambda>_.
    bind_tx (start lib cfg user) (\<lambda>response.
    bind_tx (if lp_emit_registered_event lp
      then db_try (insert_domain_event_tx (registered_event user) cid) else return_tx ()) (\<lambda>_.
    return_tx (lp, dirty, response))))))))))"

definition google_auth ::
  "(string \<Rightarrow> app_error + google_identity) \<Rightarrow> 'w access_cache \<Rightarrow> jwt_lib \<Rightarrow> auth_config \<Rightarrow> string \<Rightarrow>
    string option \<Rightarrow> instant \<Rightarrow> 'w \<Rightarrow> db \<Rightarrow> (app_error + auth_response) \<times> 'w \<times> db" where
  "google_auth verify_code cache lib cfg code cid now w s =
    (case verify_code code of
       Inl e \<Rightarrow> (Inl e, w, s)
     | Inr g \<Rightarrow>
         (case commit_tx (google_tx lib cfg g cid now) s of
            (Inl e, s') \<Rightarrow> (Inl e, w, s')
          | (Inr (lp, dirty, response), s') \<Rightarrow>
              (Inr response, (case dirty of Some d \<Rightarrow> flush cache d w | None \<Rightarrow> w),
               if lp_send_welcome lp then deliver (user_welcomed (us_id (ar_user response))) s' else s')))"

section \<open>Phone and password\<close>

definition verify_otp ::
  "otp_json \<Rightarrow> 'w ephemeral_store \<Rightarrow> uuid \<Rightarrow> otp_verify_request \<Rightarrow> 'w \<Rightarrow> db \<Rightarrow>
    (app_error + string) \<times> 'w \<times> db" where
  "verify_otp js store uid req w s =
    (case check_otp js store uid req w of
       (Inl e, w') \<Rightarrow> (Inl e, w', s)
     | (Inr proof_, w') \<Rightarrow>
         (case commit_tx (db_try (update_phone_verified uid (ov_phone req))) s of
            (Inl e, s') \<Rightarrow> (Inl e, w', s')
          | (Inr _, s') \<Rightarrow>
              (case consume_otp store proof_ w' of
                 (Inl e, w'') \<Rightarrow> (Inl e, w'', s')
               | (Inr _, w'') \<Rightarrow> (Inr ''phone verified successfully'', w'', s'))))"

text \<open>The mail to send after answering, with its token, is part of the answer.\<close>

definition forgot_password ::
  "string \<Rightarrow> 'w ephemeral_store \<Rightarrow> string \<Rightarrow> 'w \<Rightarrow> db \<Rightarrow> (app_error + string \<times> (string \<times> string) option) \<times> 'w" where
  "forgot_password token store req_email w s =
    (let success_msg = ''if that email exists, a password reset link has been sent'';
         email = normalize_email req_email in
     case user_by_email email s of
       None \<Rightarrow> (Inr (success_msg, None), w)
     | Some user \<Rightarrow>
         (case forgot_allowed store email w of
            (False, w') \<Rightarrow> (Inr (success_msg, None), w')
          | (True, w') \<Rightarrow>
              (case issue_reset token store (u_id user) w' of
                 (Inl e, w'') \<Rightarrow> (Inl e, w'')
               | (Inr t, w'') \<Rightarrow> (Inr (success_msg, Some (u_email user, t)), w''))))"

definition reset_password_tx :: "uuid \<Rightarrow> string \<Rightarrow> unit app" where
  "reset_password_tx uid hashed =
    bind_tx (db_try (update_password_tx uid hashed)) (\<lambda>_. db_try (end_all uid))"

definition reset_password ::
  "(string \<Rightarrow> string + string) \<Rightarrow> 'w ephemeral_store \<Rightarrow> string \<Rightarrow> string \<Rightarrow> 'w \<Rightarrow> db \<Rightarrow>
    (app_error + string) \<times> 'w \<times> db" where
  "reset_password hash_password store token new_password w s =
    (case consume_reset store token w of
       (Inl e, w') \<Rightarrow> (Inl e, w', s)
     | (Inr uid, w') \<Rightarrow>
         (case hash_for_storage hash_password new_password of
            Inl e \<Rightarrow> (Inl e, w', s)
          | Inr hashed \<Rightarrow>
              (case commit_tx (reset_password_tx uid hashed) s of
                 (Inl e, s') \<Rightarrow> (Inl e, w', s')
               | (Inr _, s') \<Rightarrow> (Inr ''password reset successfully'', w', s'))))"

section \<open>Profiles\<close>

definition birth_date_floor_error :: "date \<Rightarrow> string option" where
  "birth_date_floor_error d =
    (if d < day_number 1900 1 1 then Some ''birth_date must not be before 1900-01-01'' else None)"

definition birth_date_range_error :: "date \<Rightarrow> date \<Rightarrow> string option" where
  "birth_date_range_error d now_day = coalesce (birth_date_floor_error d)
    (if d > now_day then Some ''birth_date cannot be in the future'' else None)"

record profile_request =
  pr_name :: "string option"
  pr_phone :: "string option"
  pr_avatar_url :: "string option"
  pr_preferences :: "json option"
  pr_birth_date :: "date option option"

definition still_verified :: "string option \<Rightarrow> user \<Rightarrow> bool" where
  "still_verified phone u =
    (case phone of None \<Rightarrow> u_phone_verified u
     | Some v \<Rightarrow> if u_phone u \<noteq> Some v then False else u_phone_verified u)"

definition profile_change :: "profile_request \<Rightarrow> user \<Rightarrow> user" where
  "profile_change req u = u\<lparr>u_name := set_to (pr_name req) (u_name u),
     u_phone := coalesce (pr_phone req) (u_phone u),
     u_phone_verified := still_verified (pr_phone req) u,
     u_avatar_url := coalesce (pr_avatar_url req) (u_avatar_url u),
     u_preferences := coalesce (pr_preferences req) (u_preferences u),
     u_birth_date := set_to (pr_birth_date req) (u_birth_date u)\<rparr>"

definition update_profile :: "uuid \<Rightarrow> profile_request \<Rightarrow> user sql" where
  "update_profile uid req = (\<lambda>s.
    let s' = update_user uid (profile_change req) s
    in case user_by_id uid s' of None \<Rightarrow> Inl RowNotFound | Some u \<Rightarrow> Inr (u, s'))"

definition admin_update :: "uuid \<Rightarrow> string option \<Rightarrow> string option \<Rightarrow> user option sql" where
  "admin_update uid name phone = (\<lambda>s.
    let s' = update_user uid (\<lambda>u. u\<lparr>u_name := set_to name (u_name u),
      u_phone := coalesce phone (u_phone u), u_phone_verified := still_verified phone u\<rparr>) s
    in Inr (user_by_id uid s', s'))"

text \<open>The users' own response type carries four more columns than the one of \<open>auth\<close>.\<close>

record profile_response =
  pf_base :: user_response
  pf_last_login :: "instant option"
  pf_points_balance :: int
  pf_preferences :: "json option"
  pf_birth_date :: "date option"

definition profile_response_new :: "user \<Rightarrow> string list \<Rightarrow> profile_response" where
  "profile_response_new u roles = \<lparr>pf_base = user_response_new u roles, pf_last_login = u_last_login u,
     pf_points_balance = u_points_balance u, pf_preferences = u_preferences u, pf_birth_date = u_birth_date u\<rparr>"

definition get_user :: "uuid \<Rightarrow> profile_response app" where
  "get_user uid =
    bind_tx (get_tx (user_by_id uid)) (\<lambda>r.
    bind_tx (of_option_tx (NotFound ''user not found'') r) (\<lambda>user.
    bind_tx (db_try (find_role_names_by_user uid)) (\<lambda>roles.
    return_tx (profile_response_new user roles))))"

definition update_me :: "studio_now \<Rightarrow> uuid \<Rightarrow> profile_request \<Rightarrow> profile_response handler" where
  "update_me at uid req s =
    (case pr_birth_date req of
       Some (Some d) \<Rightarrow>
         (case birth_date_range_error d (studio_today at) of
            Some msg \<Rightarrow> (Inl (Validation msg), s)
          | None \<Rightarrow> after_commit (commit_tx (db_try (update_profile uid req)))
              (\<lambda>user. bind_tx (db_try (find_role_names_by_user uid)) (\<lambda>roles.
                return_tx (profile_response_new user roles))) s)
     | _ \<Rightarrow> after_commit (commit_tx (db_try (update_profile uid req)))
         (\<lambda>user. bind_tx (db_try (find_role_names_by_user uid)) (\<lambda>roles.
           return_tx (profile_response_new user roles))) s)"

definition list_users :: "pagination_params \<Rightarrow> (profile_response list \<times> page_meta) app" where
  "list_users p = get_tx (\<lambda>s.
    (map (\<lambda>u. profile_response_new u (role_names_of (u_id u) s))
       (page_rows p (newest_first u_created_at (users s))), meta p (int (length (users s)))))"

record create_user_request =
  cu_email :: string
  cu_name :: string
  cu_phone :: "string option"
  cu_password :: string
  cu_birth_date :: "date option"

definition email_taken :: string where "email_taken = ''Email '' @ utf8 [229, 183, 178, 232, 162, 171, 228, 189, 191, 231, 148, 168]"

definition create_user ::
  "(string \<Rightarrow> string + string) \<Rightarrow> studio_now \<Rightarrow> create_user_request \<Rightarrow> string option \<Rightarrow> profile_response handler" where
  "create_user hash_password at req cid s =
    (case Option.bind (cu_birth_date req) (\<lambda>d. birth_date_range_error d (studio_today at)) of
       Some msg \<Rightarrow> (Inl (field_error ''birth_date'' msg), s)
     | None \<Rightarrow>
         (case hash_for_storage hash_password (cu_password req) of
            Inl e \<Rightarrow> (Inl e, s)
          | Inr hashed \<Rightarrow> commit_tx (
              bind_tx (map_err_tx (conflict_on_unique email_taken)
                (create_account \<lparr>na_email = cu_email req, na_name = cu_name req, na_phone = cu_phone req,
                   na_birth_date = cu_birth_date req, na_password_hash = hashed\<rparr> cid (sn_now at))) (\<lambda>user.
              bind_tx (db_try (find_role_names_by_user (u_id user))) (\<lambda>roles.
              return_tx (profile_response_new user roles)))) s))"

record user_update_request =
  uu_name :: "string option"
  uu_phone :: "string option"
  uu_is_active :: "bool option"

definition one_field :: string where "one_field = utf8 [232, 135, 179, 229, 176, 145, 230, 143, 144, 228, 190, 155, 228, 184, 128, 229, 128, 139, 230, 172, 132, 228, 189, 141]"

definition admin_update_tx :: "uuid \<Rightarrow> user_update_request \<Rightarrow> (user \<times> access_dirty option) app" where
  "admin_update_tx uid req =
    bind_tx (db_try (case uu_is_active req of
        Some False \<Rightarrow> bind_tx (deactivate_tx uid) (\<lambda>d. return_tx (Some d))
      | Some True \<Rightarrow> bind_tx (reactivate_tx uid) (\<lambda>d. return_tx (Some d))
      | None \<Rightarrow> return_tx None)) (\<lambda>dirty.
    bind_tx (db_try (admin_update uid (uu_name req) (uu_phone req))) (\<lambda>r.
    bind_tx (of_option_tx (NotFound ''user not found'') r) (\<lambda>user.
    return_tx (user, dirty))))"

definition admin_update_user ::
  "'w access_cache \<Rightarrow> uuid \<Rightarrow> user_update_request \<Rightarrow> 'w \<Rightarrow> db \<Rightarrow> (app_error + profile_response) \<times> 'w \<times> db" where
  "admin_update_user cache uid req w s =
    (if uu_name req = None \<and> uu_phone req = None \<and> uu_is_active req = None
     then (Inl (Validation one_field), w, s)
     else
       (case commit_tx (admin_update_tx uid req) s of
          (Inl e, s') \<Rightarrow> (Inl e, w, s')
        | (Inr (user, dirty), s') \<Rightarrow>
            (Inr (profile_response_new user (role_names_of uid s')),
             (case dirty of Some d \<Rightarrow> flush cache d w | None \<Rightarrow> w), s')))"

section \<open>Who is who\<close>

text \<open>
  Relations a transaction moves along: a reflexive and transitive relation between the states before and
  after is established statement by statement.
\<close>

locale moving =
  fixes R :: "db \<Rightarrow> db \<Rightarrow> bool"
  assumes stays: "R s s"
    and chain: "R s t \<Longrightarrow> R t u \<Longrightarrow> R s u"
begin

definition moves :: "(db, 'e, 'a) tx \<Rightarrow> bool" where
  "moves m \<longleftrightarrow> (\<forall>s x s'. m s = Inr (x, s') \<longrightarrow> R s s')"

lemma movesD: "moves m \<Longrightarrow> m s = Inr (x, s') \<Longrightarrow> R s s'"
  by (auto simp: moves_def)

lemma moves_basic:
  "moves (return_tx x)" "moves (fail_tx e)" "moves (get_tx g)" "moves (ensure_tx b e)"
  "moves (of_option_tx e y)" "moves (of_result_tx r)"
  by (auto simp: moves_def stays)

lemma moves_bind: "moves m \<Longrightarrow> (\<And>x. moves (f x)) \<Longrightarrow> moves (bind_tx m f)"
  unfolding moves_def bind_tx_Inr using chain by blast

lemma moves_try: "moves m \<Longrightarrow> moves (db_try m)"
  by (simp add: moves_def)

lemma moves_map_err: "moves m \<Longrightarrow> moves (map_err_tx h m)"
  by (simp add: moves_def)

lemma moves_if: "moves m \<Longrightarrow> moves n \<Longrightarrow> moves (if b then m else n)"
  by simp

lemmas moves_intros = moves_basic moves_bind moves_try moves_map_err moves_if

lemma moves_commit: "moves m \<Longrightarrow> R s (snd (commit_tx m s))"
  by (cases "m s") (auto simp: moves_def stays)

end

type_synonym identity = "uuid \<times> string \<times> string option"

definition identity_of :: "user \<Rightarrow> identity" where
  "identity_of u = (u_id u, u_email u, u_google_id u)"

definition clash :: "identity \<Rightarrow> identity \<Rightarrow> bool" where
  "clash k l = (case (k, l) of ((_, e, g), (_, e', g')) \<Rightarrow>
     to_lowercase e = to_lowercase e' \<or> g \<noteq> None \<and> g = g')"

definition distinct_identities :: "identity list \<Rightarrow> bool" where
  "distinct_identities ks \<longleftrightarrow> distinct (map fst ks) \<and>
    (\<forall>k \<in> set ks. \<forall>l \<in> set ks. clash k l \<longrightarrow> fst k = fst l)"

definition google_kept :: "identity list \<Rightarrow> identity list \<Rightarrow> bool" where
  "google_kept ks ks' \<longleftrightarrow> (\<forall>(i, e, g) \<in> set ks. \<exists>e' g'. (i, e', g') \<in> set ks' \<and> (g \<noteq> None \<longrightarrow> g' = g))"

definition phones_confirmed :: "(uuid \<times> string) set \<Rightarrow> user list \<Rightarrow> bool" where
  "phones_confirmed C t \<longleftrightarrow> (\<forall>u \<in> set t. u_phone_verified u \<longrightarrow> (\<exists>p. u_phone u = Some p \<and> (u_id u, p) \<in> C))"

definition account_move :: "(uuid \<times> string) set \<Rightarrow> db \<Rightarrow> db \<Rightarrow> bool" where
  "account_move C s s' \<longleftrightarrow> distinct_identities (map identity_of (users s)) \<longrightarrow>
    distinct_identities (map identity_of (users s')) \<and>
    google_kept (map identity_of (users s)) (map identity_of (users s')) \<and>
    (phones_confirmed C (users s) \<longrightarrow> phones_confirmed C (users s'))"

lemma google_kept_refl: "google_kept ks ks"
  by (auto simp: google_kept_def)

lemma google_kept_trans: "google_kept a b \<Longrightarrow> google_kept b c \<Longrightarrow> google_kept a c"
  unfolding google_kept_def by (smt (verit, best) case_prodD case_prodI2)

interpretation acct: moving "account_move C" for C
  by unfold_locales (auto simp: account_move_def google_kept_refl intro: google_kept_trans)

lemma account_move_users: "users s' = users s \<Longrightarrow> account_move C s s'"
  by (simp add: account_move_def google_kept_refl)

lemma moves_leaves: "leaves users m \<Longrightarrow> acct.moves C m"
  by (auto simp: acct.moves_def leaves_def intro: account_move_users)

text \<open>An update by id that touches no identity column and keeps the phone rule.\<close>

lemma account_move_update:
  assumes "\<And>u. identity_of (f u) = identity_of u"
    and "\<And>u. u_phone_verified (f u) \<Longrightarrow> u_phone_verified u \<and> u_phone (f u) = u_phone u \<or>
      (\<exists>p. u_phone (f u) = Some p \<and> (i, p) \<in> C)"
  shows "account_move C s (update_user i f s)"
proof -
  have ids: "map identity_of (update_where (\<lambda>u. u_id u = i) f t) = map identity_of t" for t
    using assms(1) by (simp add: map_update_where)
  have id: "u_id (f u) = u_id u" for u using assms(1) [of u] by (simp add: identity_of_def)
  have "phones_confirmed C (update_where (\<lambda>u. u_id u = i) f t)" if "phones_confirmed C t" for t
    using that assms(2) unfolding phones_confirmed_def by (auto simp: set_update_where id; metis)
  then show ?thesis by (simp add: account_move_def update_user_def ids google_kept_refl)
qed

lemma clash_sym: "clash k l \<Longrightarrow> clash l k"
  by (auto simp: clash_def split: prod.splits)

lemma distinct_identities_append:
  assumes "distinct_identities ks" "fst k \<notin> fst ` set ks" "\<And>l. l \<in> set ks \<Longrightarrow> \<not> clash k l"
  shows "distinct_identities (ks @ [k])"
  unfolding distinct_identities_def
proof (intro conjI ballI impI)
  show "distinct (map fst (ks @ [k]))" using assms(1,2) by (simp add: distinct_identities_def)
  fix a b assume ab: "a \<in> set (ks @ [k])" "b \<in> set (ks @ [k])" "clash a b"
  have old: "fst a = fst b" if "a \<in> set ks" "b \<in> set ks"
    using assms(1) ab(3) that unfolding distinct_identities_def by blast
  have "\<not> (a = k \<and> b \<in> set ks)" "\<not> (b = k \<and> a \<in> set ks)" using assms(3) ab(3) clash_sym by blast+
  then show "fst a = fst b" using ab(1,2) old by auto
qed

lemma distinct_identities_replace:
  assumes "distinct_identities ks" "fst k = i" "\<And>l. l \<in> set ks \<Longrightarrow> fst l \<noteq> i \<Longrightarrow> \<not> clash k l"
  shows "distinct_identities (map (\<lambda>l. if fst l = i then k else l) ks)"
  unfolding distinct_identities_def
proof (intro conjI ballI impI)
  let ?f = "\<lambda>l. if fst l = i then k else l"
  have "fst (?f l) = fst l" for l using assms(2) by simp
  then have "map fst (map ?f ks) = map fst ks" by simp
  then show "distinct (map fst (map ?f ks))" using assms(1) unfolding distinct_identities_def by metis
  fix a b assume ab: "a \<in> set (map ?f ks)" "b \<in> set (map ?f ks)" "clash a b"
  have old: "fst a = fst b" if "a \<in> set ks" "b \<in> set ks"
    using assms(1) ab(3) that unfolding distinct_identities_def by blast
  have mem: "c = k \<or> c \<in> set ks \<and> fst c \<noteq> i" if "c \<in> set (map ?f ks)" for c using that by auto
  have "\<not> (a = k \<and> b \<in> set ks \<and> fst b \<noteq> i)" "\<not> (b = k \<and> a \<in> set ks \<and> fst a \<noteq> i)"
    using assms(3) ab(3) clash_sym by blast+
  then show "fst a = fst b" using mem [OF ab(1)] mem [OF ab(2)] old by blast
qed

lemma insert_user_Inr:
  "insert_user u s = Inr (x, s') \<Longrightarrow> x = u \<and> s' = s\<lparr>users := users s @ [u]\<rparr> \<and> u_id u \<notin> u_id ` set (users s) \<and>
    (\<forall>v \<in> set (users s). \<not> clash (identity_of u) (identity_of v))"
  by (auto simp: insert_user_def list_ex_iff clash_def identity_of_def split: if_splits)

lemma google_kept_append: "google_kept ks (ks @ ls)"
  by (auto simp: google_kept_def)

lemma fst_identity [simp]: "fst (identity_of u) = u_id u"
  by (simp add: identity_of_def)

lemma account_move_insert:
  assumes "insert_user u s = Inr (x, s')" "\<not> u_phone_verified u"
  shows "account_move C s s'"
proof -
  note i = insert_user_Inr [OF assms(1)]
  have "distinct_identities (map identity_of (users s) @ [identity_of u])"
    if "distinct_identities (map identity_of (users s))"
    using i by (intro distinct_identities_append that) (auto simp: identity_of_def)
  then show ?thesis using i assms(2)
    by (simp add: account_move_def google_kept_append) (simp add: phones_confirmed_def)
qed

lemma account_move_identity:
  assumes r: "r \<in> set (users s)" "u_id r = i" and k: "identity_of (f r) = k" "fst k = i"
    and apart: "\<And>x. x \<in> set (users s) \<Longrightarrow> u_id x \<noteq> i \<Longrightarrow> \<not> clash k (identity_of x)"
    and kept: "u_google_id r \<noteq> None \<Longrightarrow> snd (snd k) = u_google_id r"
    and phone: "u_phone (f r) = u_phone r" "u_phone_verified (f r) = u_phone_verified r"
  shows "account_move C s (update_user i f s)"
proof (cases "distinct_identities (map identity_of (users s))")
  case True
  then have "distinct (map u_id (users s))" by (simp add: distinct_identities_def comp_def identity_of_def)
  then have only: "x = r" if "x \<in> set (users s)" "u_id x = i" for x
    using that r by (metis distinct_key_fetch option.inject)
  have ids: "map identity_of (users (update_user i f s)) =
      map (\<lambda>l. if fst l = i then k else l) (map identity_of (users s))"
  proof -
    have "identity_of (if u_id x = i then f x else x) = (if u_id x = i then k else identity_of x)"
      if "x \<in> set (users s)" for x using only [OF that] k(1) by (cases "u_id x = i") auto
    then show ?thesis by (simp add: update_user_def update_where_def)
  qed
  have "distinct_identities (map identity_of (users (update_user i f s)))"
    unfolding ids using apart by (intro distinct_identities_replace True k(2)) (auto simp: identity_of_def)
  moreover have "google_kept (map identity_of (users s)) (map identity_of (users (update_user i f s)))"
  proof -
    have still: "\<exists>e' g'. (u_id x, e', g') \<in> (\<lambda>l. if fst l = i then k else l) ` identity_of ` set (users s) \<and>
        (u_google_id x \<noteq> None \<longrightarrow> g' = u_google_id x)" if x: "x \<in> set (users s)" for x
    proof (cases "u_id x = i")
      case True
      then have "x = r" using only x by blast
      moreover have "k \<in> (\<lambda>l. if fst l = i then k else l) ` identity_of ` set (users s)"
        using r by (force simp: identity_of_def)
      moreover have "k = (u_id r, fst (snd k), snd (snd k))" using k(2) r(2) by (cases k) simp
      ultimately show ?thesis using kept by (metis (no_types, lifting))
    next
      case False
      then have "identity_of x \<in> (\<lambda>l. if fst l = i then k else l) ` identity_of ` set (users s)"
        using x by (force simp: identity_of_def)
      then show ?thesis unfolding identity_of_def [of x] by blast
    qed
    show ?thesis unfolding google_kept_def ids set_map
    proof (rule ballI)
      fix l assume "l \<in> identity_of ` set (users s)"
      then obtain x where x: "x \<in> set (users s)" "l = identity_of x" by blast
      show "case l of (j, e, g) \<Rightarrow> \<exists>e' g'.
          (j, e', g') \<in> (\<lambda>l. if fst l = i then k else l) ` identity_of ` set (users s) \<and> (g \<noteq> None \<longrightarrow> g' = g)"
        unfolding x(2) identity_of_def [of x] prod.case by (rule still [OF x(1)])
    qed
  qed
  moreover have "phones_confirmed C (users (update_user i f s))" if "phones_confirmed C (users s)"
  proof -
    have "u_id (f r) = u_id r" using arg_cong [OF k(1), of fst] k(2) r(2) by simp
    then show ?thesis using that only phone unfolding phones_confirmed_def update_user_def
      by (auto simp: set_update_where; metis)
  qed
  ultimately show ?thesis by (simp add: account_move_def)
qed (simp add: account_move_def)

section \<open>Every write keeps people apart\<close>

lemma moves_insert_user: "\<not> u_phone_verified u \<Longrightarrow> acct.moves C (insert_user u)"
  by (auto simp: acct.moves_def intro: account_move_insert)

lemma moves_fresh: "acct.moves C fresh_uuid"
  by (simp add: acct.moves_def account_move_users)

lemma moves_create_user_tx: "acct.moves C (create_user_tx email name phone hash bd now)"
  unfolding create_user_tx_def
  by (intro acct.moves_bind moves_fresh moves_insert_user) (simp add: new_user_def)

lemma moves_frames:
  "acct.moves C (assign_role i role)" "acct.moves C (insert_domain_event_tx ev cid)" "acct.moves C (end_all i)"
  "acct.moves C (start lib cfg u)" "acct.moves C (find_role_names_by_user i)"
proof -
  show "acct.moves C (start lib cfg u)"
    unfolding acct.moves_def by (auto elim!: startE intro: account_move_users)
qed (auto simp: acct.moves_def assign_role_def end_all_def find_role_names_by_user_def insert_domain_event_tx_def
    insert_event_tx_def bind_tx_Inr intro!: account_move_users split: if_splits)

lemma moves_update:
  "acct.moves C (update_last_login i)" "acct.moves C (update_password_tx i hash)"
  "acct.moves C (set_active_tx i b)" "(i, phone) \<in> C \<Longrightarrow> acct.moves C (update_phone_verified i phone)"
  by (auto simp: acct.moves_def update_last_login_def update_password_tx_def set_active_tx_def update_phone_verified_def
      identity_of_def update_user_def [symmetric] intro!: account_move_update)

lemma still_verifiedD:
  "still_verified phone u \<Longrightarrow> u_phone_verified u \<and> coalesce phone (u_phone u) = u_phone u"
  by (auto simp: still_verified_def coalesce_def split: option.splits if_splits)

lemma moves_profile:
  "acct.moves C (update_profile i req)" "acct.moves C (admin_update i name phone)"
  using still_verifiedD
  by (auto simp: acct.moves_def update_profile_def admin_update_def profile_change_def Let_def identity_of_def
      split: option.splits intro!: account_move_update)

lemma moves_access:
  "acct.moves C (deactivate_tx i)" "acct.moves C (reactivate_tx i)"
  unfolding deactivate_tx_def reactivate_tx_def by (intro acct.moves_intros moves_update moves_frames)+

lemma moves_create_account: "acct.moves C (create_account account cid now)"
  unfolding create_account_def by (intro acct.moves_intros moves_create_user_tx moves_frames)

lemma moves_google_upsert: "acct.moves C (create_or_update_google_user_tx email name g avatar now)"
  unfolding acct.moves_def
proof (intro allI impI)
  fix s :: db and u s'
  let ?s = "s\<lparr>uuid_pos := uuid_pos s + 1\<rparr>"
  assume run: "create_or_update_google_user_tx email name g avatar now s = Inr (u, s')"
  have "account_move C ?s s'"
  proof (cases "user_by_google_id g ?s")
    case None
    then have "insert_user ((new_user (uuid_supply s (uuid_pos s)) email name now)\<lparr>u_google_id := Some g,
        u_avatar_url := avatar\<rparr>) ?s = Inr (u, s')"
      using run by (simp add: create_or_update_google_user_tx_def bind_tx_def)
    then show ?thesis by (rule account_move_insert) (simp add: new_user_def)
  next
    case (Some old)
    let ?f = "\<lambda>u. u\<lparr>u_email := email, u_name := name, u_avatar_url := coalesce avatar (u_avatar_url u)\<rparr>"
    have old: "old \<in> set (users ?s)" "u_google_id old = Some g"
      using fetch_by_Some [OF Some [unfolded user_by_google_id_def]] by auto
    have free: "\<not> list_ex (\<lambda>x. u_id x \<noteq> u_id old \<and> to_lowercase (u_email x) = to_lowercase email) (users ?s)"
      and s': "s' = update_user (u_id old) ?f ?s"
      using run Some by (auto simp: create_or_update_google_user_tx_def bind_tx_def Let_def split: if_splits)
    have "account_move C ?s (update_user (u_id old) ?f ?s)"
      if wf: "distinct_identities (map identity_of (users ?s))"
    proof (rule account_move_identity [OF old(1) refl])
      show "identity_of (?f old) = (u_id old, email, Some g)" using old(2) by (simp add: identity_of_def)
      fix x assume x: "x \<in> set (users ?s)" "u_id x \<noteq> u_id old"
      have "\<not> clash (identity_of old) (identity_of x)"
        using wf x old(1) unfolding distinct_identities_def by (metis fst_identity image_eqI set_map)
      then show "\<not> clash (u_id old, email, Some g) (identity_of x)"
        using free x old(2) by (auto simp: clash_def identity_of_def list_ex_iff)
    qed (simp_all add: old(2))
    then show ?thesis unfolding s' by (auto simp: account_move_def)
  qed
  then show "account_move C s s'" by (simp add: account_move_def)
qed

text \<open>Linking is safe because the plan links only an account with no Google identity yet.\<close>

lemma account_move_link:
  assumes "link_google_account_tx i g avatar s = Inr (u, s')" "old \<in> set (users s)" "u_id old = i"
    "u_google_id old = None"
  shows "account_move C s s'"
proof -
  let ?f = "\<lambda>u. u\<lparr>u_google_id := Some g, u_avatar_url := coalesce avatar (u_avatar_url u)\<rparr>"
  have free: "\<not> list_ex (\<lambda>x. u_id x \<noteq> i \<and> u_google_id x = Some g) (users s)" and s': "s' = update_user i ?f s"
    using assms(1) by (auto simp: link_google_account_tx_def Let_def split: if_splits option.splits)
  have "account_move C s (update_user i ?f s)" if wf: "distinct_identities (map identity_of (users s))"
  proof (rule account_move_identity [OF assms(2,3)])
    show "identity_of (?f old) = (i, u_email old, Some g)" using assms(3) by (simp add: identity_of_def)
    fix x assume x: "x \<in> set (users s)" "u_id x \<noteq> i"
    have "\<not> clash (identity_of old) (identity_of x)"
      using wf x assms(2,3) unfolding distinct_identities_def by (metis fst_identity image_eqI set_map)
    then show "\<not> clash (i, u_email old, Some g) (identity_of x)"
      using free x by (auto simp: clash_def identity_of_def list_ex_iff)
  qed (use assms(4) in simp_all)
  then show ?thesis unfolding s' by (auto simp: account_move_def)
qed

lemma link_plan_link:
  "link_plan_of a b = Inr lp \<Longrightarrow> lp_action lp = Link i \<Longrightarrow> \<exists>u. b = Some u \<and> u_id u = i \<and> u_google_id u = None"
  by (auto simp: link_plan_of_def split: option.splits if_splits)

lemma moves_google_tx: "acct.moves C (google_tx lib cfg g cid now)"
  unfolding acct.moves_def
proof (intro allI impI)
  fix s :: db and x s'
  assume run: "google_tx lib cfg g cid now s = Inr (x, s')"
  let ?email = "normalize_email (gi_email g)"
  let ?name = "case gi_name g of Some n \<Rightarrow> n | None \<Rightarrow> gi_email g"
  let ?rest = "\<lambda>lp user. bind_tx (if lp_grant_member lp
      then bind_tx (db_try (assign_role (u_id user) Role_Member)) (\<lambda>d. return_tx (Some d))
      else return_tx None) (\<lambda>dirty.
    bind_tx (db_try (update_last_login (u_id user))) (\<lambda>_.
    bind_tx (start lib cfg user) (\<lambda>response.
    bind_tx (if lp_emit_registered_event lp
      then db_try (insert_domain_event_tx (registered_event user) cid) else return_tx ()) (\<lambda>_.
    return_tx (lp, dirty, response)))))"
  obtain be lp user t where
    be: "be = (if user_by_google_id (gi_sub g) s = None then user_by_email ?email s else None)"
    and lp: "link_plan_of (user_by_google_id (gi_sub g) s) be = Inr lp"
    and w: "(case lp_action lp of Link i \<Rightarrow> link_google_account_tx i (gi_sub g) (gi_picture g)
      | _ \<Rightarrow> create_or_update_google_user_tx ?email ?name (gi_sub g) (gi_picture g) now) s = Inr (user, t)"
    and rest: "?rest lp user t = Inr (x, s')"
  proof -
    have "\<exists>be lp user t. be = (if user_by_google_id (gi_sub g) s = None then user_by_email ?email s else None) \<and>
      link_plan_of (user_by_google_id (gi_sub g) s) be = Inr lp \<and>
      (case lp_action lp of Link i \<Rightarrow> link_google_account_tx i (gi_sub g) (gi_picture g)
        | _ \<Rightarrow> create_or_update_google_user_tx ?email ?name (gi_sub g) (gi_picture g) now) s = Inr (user, t) \<and>
      ?rest lp user t = Inr (x, s')"
      using run unfolding google_tx_def Let_def
      by (elim bind_txE) (auto split: if_splits)
    then show thesis using that by blast
  qed
  have "acct.moves C (?rest lp user)"
    by (intro acct.moves_intros moves_frames moves_update)
  then have after: "account_move C t s'" using rest by (rule acct.movesD)
  have "account_move C s t"
  proof (cases "lp_action lp")
    case (Link i)
    obtain u where u: "be = Some u" "u_id u = i" "u_google_id u = None" using link_plan_link [OF lp Link] by blast
    then have "u \<in> set (users s)"
      using be fetch_by_Some [of _ "users s" u] by (auto simp: user_by_email_def split: if_splits)
    then show ?thesis using w Link u account_move_link by auto
  qed (use w acct.movesD [OF moves_google_upsert] in auto)
  then show "account_move C s s'" using after by (rule acct.chain)
qed

text \<open>
  A run of the account handlers, with the phone numbers confirmed on the way: a number is confirmed for a user
  when \<open>check_otp\<close> accepts the code that was sent to it.
\<close>

inductive account_step ::
  "'w ephemeral_store \<Rightarrow> 'w access_cache \<Rightarrow> (uuid \<times> string) set \<times> db \<Rightarrow> (uuid \<times> string) set \<times> db \<Rightarrow> bool"
  for store cache where
  registered: "account_step store cache (C, s) (C, snd (register hash_password lib cfg rg cid now s))"
| signed_in: "account_step store cache (C, s) (C, snd (login_issue lib cfg user s))"
| google: "account_step store cache (C, s) (C, snd (snd (google_auth verify_code cache lib cfg code cid now w s)))"
| wrong_code: "fst (check_otp js store uid otp w) = Inl e \<Longrightarrow>
    account_step store cache (C, s) (C, snd (snd (verify_otp js store uid otp w s)))"
| right_code: "fst (check_otp js store uid otp w) = Inr accepted \<Longrightarrow>
    account_step store cache (C, s) (insert (uid, ov_phone otp) C, snd (snd (verify_otp js store uid otp w s)))"
| password_set: "account_step store cache (C, s) (C, snd (snd (reset_password hash_password store token pw w s)))"
| profile: "account_step store cache (C, s) (C, snd (update_me clock uid pr s))"
| created: "account_step store cache (C, s) (C, snd (create_user hash_password clock cu cid s))"
| managed: "account_step store cache (C, s) (C, snd (snd (admin_update_user cache uid uu w s)))"
| elsewhere: "map (\<lambda>u. (identity_of u, u_phone u, u_phone_verified u)) (users s') =
      map (\<lambda>u. (identity_of u, u_phone u, u_phone_verified u)) (users s) \<Longrightarrow>
    account_step store cache (C, s) (C, s')"

inductive account_reachable ::
  "'w ephemeral_store \<Rightarrow> 'w access_cache \<Rightarrow> (uuid \<times> string) set \<times> db \<Rightarrow> bool" for store cache where
  nobody: "users s = [] \<Longrightarrow> account_reachable store cache ({}, s)"
| later: "account_reachable store cache x \<Longrightarrow> account_step store cache x y \<Longrightarrow> account_reachable store cache y"

lemma users_deliver [simp]: "users (deliver p s) = users s"
  by (auto simp: deliver_def emit_def create_notification_def bind_tx_def Let_def split: sum.splits if_splits)

lemma moves_then_deliver:
  assumes "acct.moves C m"
  shows "account_move C s (snd (then_deliver (commit_tx m) tell s))"
proof (rule then_deliver_cases [of m s tell])
  fix x s' assume "m s = Inr (x, s')" "then_deliver (commit_tx m) tell s = (Inr x, deliver (tell x) s')"
  then show ?thesis using acct.movesD [OF assms] by (fastforce simp: account_move_def)
qed (simp add: acct.stays)

lemma moves_register: "account_move C s (snd (register hash_password lib cfg rg cid now s))"
proof -
  have "acct.moves C (register_tx lib cfg rg hashed cid now)" for hashed
    unfolding register_tx_def by (intro acct.moves_intros moves_create_account moves_frames)
  then show ?thesis
    by (simp add: register_def moves_then_deliver acct.stays split: sum.splits)
qed

lemma moves_login_issue: "account_move C s (snd (login_issue lib cfg user s))"
proof -
  obtain r t where a: "commit_tx (db_try (update_last_login (u_id user))) s = (r, t)" by fastforce
  have "account_move C s t"
    using acct.moves_commit [OF acct.moves_try [OF moves_update(1)], where s = s] a by (metis snd_conv)
  moreover have "account_move C t (snd (commit_tx (start lib cfg user) t))"
    by (rule acct.moves_commit [OF moves_frames(4)])
  ultimately show ?thesis using a by (auto simp: login_issue_def split: sum.splits intro: acct.chain)
qed

lemma moves_google_auth:
  "account_move C s (snd (snd (google_auth verify_code cache lib cfg code cid now w s)))"
proof (cases "verify_code code")
  case (Inr g)
  have "account_move C s (snd (commit_tx (google_tx lib cfg g cid now) s))"
    by (rule acct.moves_commit [OF moves_google_tx])
  then show ?thesis using Inr
    by (auto simp: google_auth_def commit_tx_def account_move_def split: prod.splits sum.splits option.splits)
qed (simp add: google_auth_def acct.stays)

lemma moves_verify_otp:
  assumes "\<And>p. fst (check_otp js store uid otp w) = Inr p \<Longrightarrow> (uid, ov_phone otp) \<in> C"
  shows "account_move C s (snd (snd (verify_otp js store uid otp w s)))"
proof (cases "check_otp js store uid otp w")
  case (Pair r w')
  show ?thesis
  proof (cases r)
    case (Inr p)
    then have "account_move C s (snd (commit_tx (db_try (update_phone_verified uid (ov_phone otp))) s))"
      using assms Pair by (intro acct.moves_commit acct.moves_try moves_update(4)) simp
    then show ?thesis using Pair Inr by (auto simp: verify_otp_def split: prod.splits sum.splits)
  qed (simp add: verify_otp_def Pair acct.stays)
qed

lemma moves_reset_password: "account_move C s (snd (snd (reset_password hash_password store token pw w s)))"
proof -
  have "account_move C s (snd (commit_tx (reset_password_tx uid hashed) s))" for uid hashed
    unfolding reset_password_tx_def by (intro acct.moves_commit acct.moves_intros moves_update moves_frames)
  then show ?thesis
    by (auto simp: reset_password_def acct.stays split: prod.splits sum.splits) (metis snd_conv)+
qed

lemma moves_update_me: "account_move C s (snd (update_me clock uid pr s))"
proof -
  have "account_move C s (snd (after_commit (commit_tx (db_try (update_profile uid pr)))
      (\<lambda>user. bind_tx (db_try (find_role_names_by_user uid)) (\<lambda>roles. return_tx (profile_response_new user roles))) s))"
    by (subst after_commit_state)
      (auto simp: leaves_def find_role_names_by_user_def bind_tx_Inr intro!: acct.moves_commit acct.moves_try moves_profile)
  then show ?thesis by (simp add: update_me_def acct.stays split: option.splits)
qed

lemma moves_create_user: "account_move C s (snd (create_user hash_password clock cu cid s))"
proof -
  have "account_move C s (snd (commit_tx (bind_tx (map_err_tx (conflict_on_unique email_taken)
      (create_account na cid now)) (\<lambda>user.
      bind_tx (db_try (find_role_names_by_user (u_id user))) (\<lambda>roles.
      return_tx (profile_response_new user roles)))) s))" for na now
    by (intro acct.moves_commit acct.moves_intros moves_create_account moves_frames)
  then show ?thesis by (simp add: create_user_def acct.stays split: option.splits sum.splits)
qed

lemma moves_admin_update_user: "account_move C s (snd (snd (admin_update_user cache uid uu w s)))"
proof -
  have "acct.moves C (case uu_is_active uu of
        Some False \<Rightarrow> bind_tx (deactivate_tx uid) (\<lambda>d. return_tx (Some d))
      | Some True \<Rightarrow> bind_tx (reactivate_tx uid) (\<lambda>d. return_tx (Some d))
      | None \<Rightarrow> return_tx None)"
    by (auto split: option.splits bool.splits intro!: acct.moves_intros moves_access)
  then have "acct.moves C (admin_update_tx uid uu)"
    unfolding admin_update_tx_def by (intro acct.moves_intros moves_profile)
  then show ?thesis using acct.moves_commit [where s = s]
    by (force simp: admin_update_user_def acct.stays commit_tx_def split: prod.splits sum.splits)
qed

lemmas handler_moves = moves_register moves_login_issue moves_google_auth moves_verify_otp moves_reset_password
  moves_update_me moves_create_user moves_admin_update_user

lemma account_move_columns:
  assumes "map (\<lambda>u. (identity_of u, u_phone u, u_phone_verified u)) (users s') =
    map (\<lambda>u. (identity_of u, u_phone u, u_phone_verified u)) (users s)"
  shows "account_move C s s'"
proof -
  have ids: "map identity_of (users s') = map identity_of (users s)"
    using arg_cong [OF assms, of "map fst"] by (simp add: comp_def)
  have of_columns: "phones_confirmed C t \<longleftrightarrow>
      (\<forall>r \<in> set (map (\<lambda>u. (identity_of u, u_phone u, u_phone_verified u)) t).
         snd (snd r) \<longrightarrow> (\<exists>q. fst (snd r) = Some q \<and> (fst (fst r), q) \<in> C))" for t
    unfolding phones_confirmed_def by simp
  have "phones_confirmed C (users s') \<longleftrightarrow> phones_confirmed C (users s)"
    unfolding of_columns assms ..
  then show ?thesis unfolding account_move_def ids using google_kept_refl by blast
qed

lemma phones_confirmed_mono: "phones_confirmed C t \<Longrightarrow> C \<subseteq> D \<Longrightarrow> phones_confirmed D t"
  unfolding phones_confirmed_def by blast

lemma account_step_move:
  assumes "account_step store cache x y"
  shows "fst x \<subseteq> fst y \<and> account_move (fst y) (snd x) (snd y)"
  using assms
  by cases (simp_all add: handler_moves account_move_columns subset_insertI, rule moves_verify_otp, simp)

lemma account_reachable_invariant:
  assumes "account_reachable store cache x"
  shows "distinct_identities (map identity_of (users (snd x))) \<and> phones_confirmed (fst x) (users (snd x))"
  using assms
proof (induction rule: account_reachable.induct)
  case (nobody s)
  then show ?case by (simp add: distinct_identities_def phones_confirmed_def)
next
  case (later x y)
  then show ?case
    using account_step_move [OF later.hyps(2)] phones_confirmed_mono unfolding account_move_def by blast
qed

text \<open>
  C34. Accounts never merge. Whatever the handlers do, from an empty user table: no two users share an id,
  an email (letter case aside) or a Google identity, and one step never removes a user, nor changes or
  removes a Google identity once it is bound to its user.
\<close>

theorem accounts_stay_distinct:
  assumes "account_reachable store cache x" "account_step store cache x y"
  shows "distinct_identities (map identity_of (users (snd y))) \<and>
    google_kept (map identity_of (users (snd x))) (map identity_of (users (snd y)))"
  using account_reachable_invariant [OF assms(1)] account_step_move [OF assms(2)] unfolding account_move_def by blast



section \<open>Runs\<close>

definition empty_studio :: db where
  "empty_studio = empty_db\<lparr>uuid_supply := (\<lambda>n. n)\<rparr>"

definition ann_registers :: db where
  "ann_registers = snd (register Inr toy_lib week \<lparr>rg_email = ''Ann@x'', rg_name = ''Ann'', rg_password = ''pw''\<rparr>
     None 0 empty_studio)"

definition ann_uses_google :: db where
  "ann_uses_google = snd (snd (google_auth
     (\<lambda>code. Inr \<lparr>gi_sub = code, gi_email = ''ANN@x'', gi_name = None, gi_picture = None\<rparr>)
     mem_cache toy_lib week ''g7'' None 0 cold_cache ann_registers))"

lemma ann_registered: "account_reachable in_memory mem_cache ({}, ann_registers)"
proof -
  have "account_reachable in_memory mem_cache ({}, empty_studio)"
    by (rule account_reachable.nobody) (simp add: empty_studio_def empty_db_def)
  then show ?thesis unfolding ann_registers_def by (rule account_reachable.later) (rule account_step.registered)
qed

lemma accounts_stay_distinct_witness:
  "distinct_identities (map identity_of (users ann_uses_google)) \<and>
   google_kept [(0, ''ann@x'', None)] (map identity_of (users ann_uses_google)) \<and>
   map identity_of (users ann_uses_google) = [(0, ''ann@x'', Some ''g7'')]"
proof -
  have "account_step in_memory mem_cache ({}, ann_registers) ({}, ann_uses_google)"
    unfolding ann_uses_google_def by (rule account_step.google)
  note apart = accounts_stay_distinct [OF ann_registered this]
  have "map identity_of (users ann_registers) = [(0, ''ann@x'', None)]"
    "map identity_of (users ann_uses_google) = [(0, ''ann@x'', Some ''g7'')]" by code_simp+
  then show ?thesis using apart by simp
qed

definition ann_waits :: mem_store where
  "ann_waits = snd (send_otp unary_json (\<lambda>_ _. Inr ()) ''482913'' in_memory 0 ''0912'' fresh_store)"

definition ann_verifies :: db where
  "ann_verifies = snd (snd (verify_otp unary_json in_memory 0 \<lparr>ov_phone = ''0912'', ov_code = ''482913''\<rparr>
     ann_waits ann_registers))"



end
