(* ===== verification/Coaches.thy ===== *)
theory Coaches
  imports AccountAccess Notices Clock
begin

text \<open>
  Coaches (\<open>src/modules/coaches\<close>): profiles, weekly schedules, the clock, and the scope other modules
  ask for. A coach's name is the joined user's. Uniqueness of the user and of the slug, the exclusion of
  overlapping schedules and the single open clock record are the table's constraints, checked by each
  write.
\<close>

section \<open>Profiles\<close>

type_synonym named_coach = "coach \<times> string"

definition named :: "db \<Rightarrow> coach \<Rightarrow> named_coach option" where
  "named s c = map_option (\<lambda>u. (c, u_name u)) (fetch_by (\<lambda>u. u_id u = ch_user_id c) (users s))"

definition find_all_active_coaches :: "named_coach list sql" where
  "find_all_active_coaches = get_tx (\<lambda>s. List.map_filter (named s)
    (sort_key ch_display_order (sort_key ch_created_at (filter ch_is_active (coaches s)))))"

definition coach_by_id :: "uuid \<Rightarrow> db \<Rightarrow> named_coach option" where
  "coach_by_id i s = Option.bind (fetch_by (\<lambda>c. ch_id c = i) (coaches s)) (named s)"

definition active_coach_by_id :: "uuid \<Rightarrow> db \<Rightarrow> named_coach option" where
  "active_coach_by_id i s = Option.bind (fetch_by (\<lambda>c. ch_id c = i \<and> ch_is_active c) (coaches s)) (named s)"

definition coach_by_user_id :: "uuid \<Rightarrow> db \<Rightarrow> named_coach option" where
  "coach_by_user_id uid s = Option.bind (fetch_by (\<lambda>c. ch_user_id c = uid) (coaches s)) (named s)"

definition find_course_ids_by_coach :: "uuid \<Rightarrow> db \<Rightarrow> uuid list" where
  "find_course_ids_by_coach i s = map c_id (filter (\<lambda>c. c_coach_id c = Some i) (courses s))"

record create_coach_request =
  cc_user_id :: uuid
  cc_title :: string
  cc_bio :: "string option"
  cc_experience :: "string option"
  cc_specialties :: "string list"
  cc_certifications :: "string list"
  cc_is_active :: "bool option"
  cc_display_order :: "int option"
  cc_slug :: "string option"
  cc_photo_url :: "string option"

record update_coach_request =
  uc_title :: "string option"
  uc_bio :: "string option option"
  uc_experience :: "string option option"
  uc_specialties :: "string list option"
  uc_certifications :: "string list option"
  uc_is_active :: "bool option"
  uc_display_order :: "int option"
  uc_slug :: "string option option"
  uc_photo_url :: "string option option"

definition slug_taken :: "uuid \<Rightarrow> string option \<Rightarrow> db \<Rightarrow> bool" where
  "slug_taken i slug s = (slug \<noteq> None \<and> list_ex (\<lambda>c. ch_id c \<noteq> i \<and> ch_slug c = slug) (coaches s))"

definition insert_coach_tx :: "create_coach_request \<Rightarrow> bool \<Rightarrow> int \<Rightarrow> named_coach sql" where
  "insert_coach_tx req active order = bind_tx fresh_uuid (\<lambda>i s.
    let row = \<lparr>ch_id = i, ch_user_id = cc_user_id req, ch_title = cc_title req, ch_bio = cc_bio req,
      ch_experience = cc_experience req, ch_specialties = cc_specialties req,
      ch_certifications = cc_certifications req, ch_is_active = active, ch_display_order = order,
      ch_slug = cc_slug req, ch_photo_url = cc_photo_url req, ch_created_at = db_now s\<rparr>
    in if i \<in> ch_id ` set (coaches s) then Inl (UniqueViolation ''coaches_pkey'')
       else if cc_user_id req \<in> ch_user_id ` set (coaches s) then Inl (UniqueViolation ''coaches_user_id_key'')
       else if slug_taken i (cc_slug req) s then Inl (UniqueViolation ''coaches_slug_key'')
       else (case named s row of
          None \<Rightarrow> Inl RowNotFound
        | Some c \<Rightarrow> Inr (c, s\<lparr>coaches := coaches s @ [row]\<rparr>)))"

definition change_coach :: "update_coach_request \<Rightarrow> coach \<Rightarrow> coach" where
  "change_coach req c = c\<lparr>ch_title := set_to (uc_title req) (ch_title c), ch_bio := set_to (uc_bio req) (ch_bio c),
     ch_experience := set_to (uc_experience req) (ch_experience c),
     ch_specialties := set_to (uc_specialties req) (ch_specialties c),
     ch_certifications := set_to (uc_certifications req) (ch_certifications c),
     ch_is_active := set_to (uc_is_active req) (ch_is_active c),
     ch_display_order := set_to (uc_display_order req) (ch_display_order c),
     ch_slug := set_to (uc_slug req) (ch_slug c), ch_photo_url := set_to (uc_photo_url req) (ch_photo_url c)\<rparr>"

definition update_coach_row :: "uuid \<Rightarrow> update_coach_request \<Rightarrow> named_coach option sql" where
  "update_coach_row i req = (\<lambda>s.
    case fetch_by (\<lambda>c. ch_id c = i) (coaches s) of
      None \<Rightarrow> Inr (None, s)
    | Some c \<Rightarrow>
        if slug_taken i (ch_slug (change_coach req c)) s then Inl (UniqueViolation ''coaches_slug_key'')
        else Inr (named s (change_coach req c),
          s\<lparr>coaches := update_where (\<lambda>c. ch_id c = i) (change_coach req) (coaches s)\<rparr>))"

definition slug_exists :: "string \<Rightarrow> string" where
  "slug_exists slug = ''coach slug '' @ [CHR 0x27] @ slug @ [CHR 0x27] @ '' already exists''"

definition create_coach_error :: "create_coach_request \<Rightarrow> sqlx_error \<Rightarrow> app_error" where
  "create_coach_error req e =
    (if constraint_name e = Some ''coaches_user_id_key'' then Conflict ''user is already a coach''
     else if constraint_name e = Some ''coaches_slug_key''
       then Conflict (slug_exists (case cc_slug req of Some x \<Rightarrow> x | None \<Rightarrow> []))
     else Database e)"

definition create_coach_tx :: "create_coach_request \<Rightarrow> (named_coach \<times> access_dirty) app" where
  "create_coach_tx req =
    bind_tx (map_err_tx (create_coach_error req) (insert_coach_tx req
      (case cc_is_active req of Some b \<Rightarrow> b | None \<Rightarrow> True)
      (case cc_display_order req of Some n \<Rightarrow> n | None \<Rightarrow> 0))) (\<lambda>coach.
    bind_tx (db_try (assign_role (cc_user_id req) Role_Coach)) (\<lambda>dirty.
    return_tx (coach, dirty)))"

definition create_coach ::
  "'w access_cache \<Rightarrow> create_coach_request \<Rightarrow> 'w \<Rightarrow> db \<Rightarrow> (app_error + named_coach) \<times> 'w \<times> db" where
  "create_coach cache req w s =
    (case fetch_by (\<lambda>u. u_id u = cc_user_id req) (users s) of
       None \<Rightarrow> (Inl (NotFound ''user not found''), w, s)
     | Some _ \<Rightarrow>
         (case commit_tx (create_coach_tx req) s of
            (Inl e, s') \<Rightarrow> (Inl e, w, s')
          | (Inr (coach, dirty), s') \<Rightarrow> (Inr coach, flush cache dirty w, s')))"

definition update_coach :: "uuid \<Rightarrow> update_coach_request \<Rightarrow> named_coach handler" where
  "update_coach i req = commit_tx (
    bind_tx (map_err_tx (conflict_on_constraint ''coaches_slug_key''
      (slug_exists (case uc_slug req of Some (Some x) \<Rightarrow> x | _ \<Rightarrow> []))) (update_coach_row i req)) (\<lambda>r.
    of_option_tx (NotFound ''coach not found'') r))"

section \<open>Who coaches what\<close>

text \<open>\<open>resolve\<close>: the caller's own coach profile, whatever the caller's roles.\<close>

definition resolve_coach :: "auth_user \<Rightarrow> named_coach option app" where
  "resolve_coach auth = get_tx (coach_by_user_id (au_user_id auth))"

record coach_scope =
  cp_course_ids :: "uuid list"

definition resolve_scope :: "auth_user \<Rightarrow> coach_scope option app" where
  "resolve_scope auth =
    bind_tx (resolve_coach auth) (\<lambda>r. case r of
      None \<Rightarrow> return_tx None
    | Some (coach, _) \<Rightarrow> bind_tx (get_tx (find_course_ids_by_coach (ch_id coach))) (\<lambda>ids.
        return_tx (Some \<lparr>cp_course_ids = ids\<rparr>)))"

definition require_course_coach :: "auth_user \<Rightarrow> uuid option \<Rightarrow> string \<Rightarrow> unit app" where
  "require_course_coach auth course_coach_id forbidden_msg =
    (if is_admin auth then return_tx ()
     else bind_tx (resolve_coach auth) (\<lambda>r.
       ensure_tx (case (r, course_coach_id) of (Some (coach, _), Some i) \<Rightarrow> ch_id coach = i | _ \<Rightarrow> False)
         (Forbidden forbidden_msg)))"

definition require_own_coach_profile :: "auth_user \<Rightarrow> uuid \<Rightarrow> named_coach app" where
  "require_own_coach_profile auth i =
    bind_tx (get_tx (coach_by_id i)) (\<lambda>r.
    bind_tx (of_option_tx (NotFound ''coach not found'') r) (\<lambda>coach.
    bind_tx (of_result_tx (owns_or_admin auth (ch_user_id (fst coach)) ''not authorized'')) (\<lambda>_.
    return_tx coach)))"

section \<open>Weekly schedules\<close>

definition schedule_overlap :: "coach_schedule \<Rightarrow> coach_schedule \<Rightarrow> bool" where
  "schedule_overlap a b = (sc_coach_id a = sc_coach_id b \<and> sc_day_of_week a = sc_day_of_week b \<and>
     sc_start_time a < sc_end_time b \<and> sc_start_time b < sc_end_time a)"

definition find_schedules :: "uuid \<Rightarrow> db \<Rightarrow> coach_schedule list" where
  "find_schedules i s = sort_key sc_day_of_week (sort_key sc_start_time
     (filter (\<lambda>r. sc_coach_id r = i) (coach_schedules s)))"

type_synonym schedule_cell = "day_of_week \<times> time_of_day \<times> time_of_day \<times> bool"

definition insert_schedule :: "uuid \<Rightarrow> schedule_cell \<Rightarrow> unit sql" where
  "insert_schedule i cell = (case cell of (dow, st, en, available) \<Rightarrow> bind_tx fresh_uuid (\<lambda>k s.
    let row = \<lparr>sc_id = k, sc_coach_id = i, sc_day_of_week = dow, sc_start_time = st, sc_end_time = en,
      sc_is_available = available, sc_created_at = db_now s\<rparr>
    in if \<not> (0 \<le> dow \<and> dow \<le> 6) then Inl (CheckViolation ''coach_schedules_day_of_week_check'')
       else if \<not> st < en then Inl (CheckViolation ''coach_schedules_time_order'')
       else if k \<in> sc_id ` set (coach_schedules s) then Inl (UniqueViolation ''coach_schedules_pkey'')
       else if list_ex (schedule_overlap row) (coach_schedules s)
         then Inl (ExclusionViolation ''coach_schedules_no_overlap'')
       else Inr ((), s\<lparr>coach_schedules := coach_schedules s @ [row]\<rparr>)))"

definition replace_schedules :: "uuid \<Rightarrow> schedule_cell list \<Rightarrow> coach_schedule list sql" where
  "replace_schedules i cells =
    bind_tx (put_tx (\<lambda>s. s\<lparr>coach_schedules := delete_where (\<lambda>r. sc_coach_id r = i) (coach_schedules s)\<rparr>)) (\<lambda>_.
    bind_tx (for_tx (insert_schedule i) cells) (\<lambda>_.
    get_tx (find_schedules i)))"

record schedule_entry =
  se_day_of_week :: day_of_week
  se_start_time :: string
  se_end_time :: string
  se_is_available :: bool

definition parse_schedule_entry :: "chrono \<Rightarrow> schedule_entry \<Rightarrow> schedule_cell app" where
  "parse_schedule_entry ch e =
    bind_tx (of_option_tx (Validation (''invalid start_time: '' @ se_start_time e))
      (parse_time_of_day ch (se_start_time e))) (\<lambda>st.
    bind_tx (of_option_tx (Validation (''invalid end_time: '' @ se_end_time e))
      (parse_time_of_day ch (se_end_time e))) (\<lambda>en.
    bind_tx (of_result_tx (validate_time_window st en)) (\<lambda>_.
    return_tx (se_day_of_week e, st, en, se_is_available e))))"

definition schedule_clash :: string where
  "schedule_clash = utf8 [230, 149, 153, 231, 183, 180, 231, 143, 173, 232, 161, 168, 230, 153, 130, 230, 174, 181, 233, 135, 141, 231, 150, 138]"

definition update_schedules ::
  "chrono \<Rightarrow> auth_user \<Rightarrow> uuid \<Rightarrow> schedule_entry list \<Rightarrow> coach_schedule list handler" where
  "update_schedules ch auth i entries = commit_tx (
    bind_tx (require_own_coach_profile auth i) (\<lambda>_.
    bind_tx (for_tx (parse_schedule_entry ch) entries) (\<lambda>cells.
    map_err_tx (conflict_on_exclusion schedule_clash) (replace_schedules i cells))))"

definition detail_of :: "uuid \<Rightarrow> named_coach option \<Rightarrow> (named_coach \<times> coach_schedule list) app" where
  "detail_of i r =
    bind_tx (of_option_tx (NotFound ''coach not found'') r) (\<lambda>coach.
    bind_tx (get_tx (find_schedules i)) (\<lambda>schedules.
    return_tx (coach, schedules)))"

definition get_detail :: "uuid \<Rightarrow> (named_coach \<times> coach_schedule list) app" where
  "get_detail i = bind_tx (get_tx (coach_by_id i)) (detail_of i)"

definition get_active_detail :: "uuid \<Rightarrow> (named_coach \<times> coach_schedule list) app" where
  "get_active_detail i = bind_tx (get_tx (active_coach_by_id i)) (detail_of i)"

definition get_schedules :: "uuid \<Rightarrow> coach_schedule list app" where
  "get_schedules i = bind_tx (get_detail i) (\<lambda>r. return_tx (snd r))"

definition get_active_schedules :: "uuid \<Rightarrow> coach_schedule list app" where
  "get_active_schedules i = bind_tx (get_active_detail i) (\<lambda>r. return_tx (snd r))"

section \<open>The clock\<close>

definition open_record :: "uuid \<Rightarrow> clock_record \<Rightarrow> bool" where
  "open_record i r = (cr_coach_id r = i \<and> cr_clock_out r = None)"

definition clock_in_row :: "uuid \<Rightarrow> string option \<Rightarrow> clock_record sql" where
  "clock_in_row i remark = bind_tx fresh_uuid (\<lambda>k s.
    let row = \<lparr>cr_id = k, cr_coach_id = i, cr_clock_in = db_now s, cr_clock_out = None, cr_note = remark,
      cr_created_at = db_now s\<rparr>
    in if k \<in> cr_id ` set (clock_records s) then Inl (UniqueViolation ''clock_records_pkey'')
       else if list_ex (open_record i) (clock_records s)
         then Inl (UniqueViolation ''uq_clock_records_open'')
       else Inr (row, s\<lparr>clock_records := clock_records s @ [row]\<rparr>))"

definition clock_out_row :: "uuid \<Rightarrow> clock_record option sql" where
  "clock_out_row i = (\<lambda>s. let leave = (\<lambda>r. r\<lparr>cr_clock_out := Some (db_now s)\<rparr>) in
    Inr (map_option leave (fetch_by (open_record i) (clock_records s)),
      s\<lparr>clock_records := update_where (open_record i) leave (clock_records s)\<rparr>))"

definition clock_in :: "auth_user \<Rightarrow> uuid \<Rightarrow> string option \<Rightarrow> clock_record handler" where
  "clock_in auth i remark = commit_tx (
    bind_tx (require_own_coach_profile auth i) (\<lambda>_.
    map_err_tx (conflict_on_unique ''already clocked in'') (clock_in_row i remark)))"

definition clock_out :: "auth_user \<Rightarrow> uuid \<Rightarrow> clock_record handler" where
  "clock_out auth i = commit_tx (
    bind_tx (require_own_coach_profile auth i) (\<lambda>_.
    bind_tx (db_try (clock_out_row i)) (\<lambda>r.
    of_option_tx (NotFound ''no active clock-in record found'') r)))"

definition get_clock_records :: "auth_user \<Rightarrow> uuid \<Rightarrow> pagination_params \<Rightarrow> clock_record list app" where
  "get_clock_records auth i p =
    bind_tx (require_own_coach_profile auth i) (\<lambda>_.
    get_tx (\<lambda>s. page_rows p (Notices.newest_first cr_clock_in (filter (\<lambda>r. cr_coach_id r = i) (clock_records s)))))"

section \<open>What the tables always satisfy\<close>

definition slug_clash :: "coach \<Rightarrow> coach \<Rightarrow> bool" where
  "slug_clash a b = (ch_slug a \<noteq> None \<and> ch_slug a = ch_slug b)"

definition profiles_ok :: "coach list \<Rightarrow> bool" where
  "profiles_ok t \<longleftrightarrow> distinct (map ch_id t) \<and> distinct (map ch_user_id t) \<and>
    (\<forall>a \<in> set t. \<forall>b \<in> set t. slug_clash a b \<longrightarrow> ch_id a = ch_id b)"

definition schedules_ok :: "coach_schedule list \<Rightarrow> bool" where
  "schedules_ok t \<longleftrightarrow> sorted_wrt (\<lambda>a b. \<not> schedule_overlap a b) t"

definition open_records :: "uuid \<Rightarrow> db \<Rightarrow> nat" where
  "open_records i s = count_where (open_record i) (clock_records s)"

definition coaches_ok :: "db \<Rightarrow> bool" where
  "coaches_ok s \<longleftrightarrow> profiles_ok (coaches s) \<and> schedules_ok (coach_schedules s) \<and> (\<forall>i. open_records i s \<le> 1)"

lemma insert_coach_tx_Inr:
  assumes "insert_coach_tx req active order s = Inr (c, s')"
  obtains row where "coaches s' = coaches s @ [row]" "coach_schedules s' = coach_schedules s"
    "clock_records s' = clock_records s" "ch_id row \<notin> ch_id ` set (coaches s)"
    "ch_user_id row \<notin> ch_user_id ` set (coaches s)"
    "ch_slug row = None \<or> \<not> (\<exists>x \<in> set (coaches s). ch_slug x = ch_slug row)"
proof -
  let ?row = "\<lparr>ch_id = uuid_supply s (uuid_pos s), ch_user_id = cc_user_id req, ch_title = cc_title req,
    ch_bio = cc_bio req, ch_experience = cc_experience req, ch_specialties = cc_specialties req,
    ch_certifications = cc_certifications req, ch_is_active = active, ch_display_order = order,
    ch_slug = cc_slug req, ch_photo_url = cc_photo_url req, ch_created_at = db_now s\<rparr>"
  have "s' = s\<lparr>uuid_pos := uuid_pos s + 1, coaches := coaches s @ [?row]\<rparr>"
    "uuid_supply s (uuid_pos s) \<notin> ch_id ` set (coaches s)" "cc_user_id req \<notin> ch_user_id ` set (coaches s)"
    "cc_slug req = None \<or> \<not> (\<exists>x \<in> set (coaches s). ch_id x \<noteq> uuid_supply s (uuid_pos s) \<and> ch_slug x = cc_slug req)"
    using assms by (auto simp: insert_coach_tx_def bind_tx_def Let_def slug_taken_def list_ex_iff split: if_splits option.splits)
  moreover from this have "cc_slug req = None \<or> \<not> (\<exists>x \<in> set (coaches s). ch_slug x = cc_slug req)"
    by (metis imageI)
  ultimately show thesis by (intro that [of ?row]) auto
qed

lemma slug_clash_sym: "slug_clash a b \<Longrightarrow> slug_clash b a"
  by (metis slug_clash_def)

lemma profiles_ok_append:
  assumes ok: "profiles_ok t" and key: "ch_id row \<notin> ch_id ` set t" "ch_user_id row \<notin> ch_user_id ` set t"
    and free: "ch_slug row = None \<or> \<not> (\<exists>x \<in> set t. ch_slug x = ch_slug row)"
  shows "profiles_ok (t @ [row])"
proof -
  have "\<not> slug_clash row x" if "x \<in> set t" for x using that free unfolding slug_clash_def by metis
  then have "\<forall>a \<in> set (t @ [row]). \<forall>b \<in> set (t @ [row]). slug_clash a b \<longrightarrow> ch_id a = ch_id b"
    using ok slug_clash_sym unfolding profiles_ok_def by (metis in_set_conv_decomp_last rotate1.simps(2) set_ConsD set_rotate1)
  then show ?thesis using ok key unfolding profiles_ok_def by simp
qed

lemma update_coach_row_Inr:
  "update_coach_row i req s = Inr (r, s') \<Longrightarrow> s' = s \<or>
    s' = s\<lparr>coaches := update_where (\<lambda>c. ch_id c = i) (change_coach req) (coaches s)\<rparr> \<and>
    (\<exists>c. fetch_by (\<lambda>c. ch_id c = i) (coaches s) = Some c \<and> \<not> slug_taken i (ch_slug (change_coach req c)) s)"
  by (auto simp: update_coach_row_def split: option.splits if_splits)

lemma change_coach_keys [simp]:
  "ch_id (change_coach req c) = ch_id c" "ch_user_id (change_coach req c) = ch_user_id c"
  by (simp_all add: change_coach_def)

lemma profiles_ok_update:
  assumes ok: "profiles_ok t" and c: "fetch_by (\<lambda>c. ch_id c = i) t = Some c"
    and free: "ch_slug (change_coach req c) = None \<or>
      \<not> (\<exists>x \<in> set t. ch_id x \<noteq> i \<and> ch_slug x = ch_slug (change_coach req c))"
  shows "profiles_ok (update_where (\<lambda>c. ch_id c = i) (change_coach req) t)"
proof -
  let ?f = "\<lambda>c. if ch_id c = i then change_coach req c else c"
  have ids: "map ch_id (map ?f t) = map ch_id t" "map ch_user_id (map ?f t) = map ch_user_id t" by simp_all
  have only: "x = c" if "x \<in> set t" "ch_id x = i" for x
    using that ok distinct_key_fetch [of ch_id t x] c unfolding profiles_ok_def by simp
  have keep: "ch_id (?f x) = ch_id x" for x by simp
  have apart: "\<not> slug_clash (change_coach req c) y" if "y \<in> set t" "ch_id y \<noteq> i" for y
    using that free unfolding slug_clash_def by metis
  have "ch_id x = ch_id y" if x: "x \<in> set t" and y: "y \<in> set t" and clash: "slug_clash (?f x) (?f y)" for x y
  proof (cases "ch_id x = i"; cases "ch_id y = i")
    assume "ch_id x = i" "ch_id y \<noteq> i"
    then show ?thesis using clash apart [OF y] only [OF x] by simp
  next
    assume "ch_id x \<noteq> i" "ch_id y = i"
    then show ?thesis using slug_clash_sym [OF clash] apart [OF x] only [OF y] by simp
  next
    assume "ch_id x \<noteq> i" "ch_id y \<noteq> i"
    then show ?thesis using clash ok x y unfolding profiles_ok_def by auto
  qed simp
  then have "slug_clash (?f x) (?f y) \<longrightarrow> ch_id (?f x) = ch_id (?f y)" if "x \<in> set t" "y \<in> set t" for x y
    using that unfolding keep by blast
  then have "\<forall>a \<in> ?f ` set t. \<forall>b \<in> ?f ` set t. slug_clash a b \<longrightarrow> ch_id a = ch_id b" by blast
  then have "\<forall>a \<in> set (map ?f t). \<forall>b \<in> set (map ?f t). slug_clash a b \<longrightarrow> ch_id a = ch_id b"
    unfolding set_map .
  then show ?thesis using ok unfolding profiles_ok_def update_where_def ids by blast
qed

lemma schedule_overlap_sym: "schedule_overlap a b \<longleftrightarrow> schedule_overlap b a"
  by (auto simp: schedule_overlap_def)

lemma keeps_insert_schedule: "keeps (\<lambda>s. schedules_ok (coach_schedules s)) (insert_schedule i cell)"
proof (rule keepsI)
  fix s :: db and x s'
  assume ok: "schedules_ok (coach_schedules s)" and run: "insert_schedule i cell s = Inr (x, s')"
  obtain row where "coach_schedules s' = coach_schedules s @ [row]" "\<forall>y \<in> set (coach_schedules s). \<not> schedule_overlap row y"
    using run by (auto simp: insert_schedule_def bind_tx_def Let_def list_ex_iff split: prod.splits if_splits)
  then show "schedules_ok (coach_schedules s')" using ok schedule_overlap_sym
    by (auto simp: schedules_ok_def sorted_wrt_append)
qed

lemma keeps_replace_schedules: "keeps (\<lambda>s. schedules_ok (coach_schedules s)) (replace_schedules i cells)"
  unfolding replace_schedules_def
  by (intro keeps_intros keeps_insert_schedule) (simp add: schedules_ok_def delete_where_def sorted_wrt_filter)

lemma leaves_insert_schedule [leaves_intros]:
  "leaves coaches (insert_schedule i cell)" "leaves clock_records (insert_schedule i cell)"
  by (auto simp: leaves_def insert_schedule_def bind_tx_def Let_def split: prod.splits if_splits)

lemma leaves_replace_schedules [leaves_intros]:
  "leaves coaches (replace_schedules i cells)" "leaves clock_records (replace_schedules i cells)"
  unfolding replace_schedules_def by (intro leaves_intros; simp)+

lemma reads_coach [leaves_intros]:
  "leaves g (require_own_coach_profile auth i)" "leaves g (parse_schedule_entry ch e)"
  "leaves g (resolve_coach auth)"
  unfolding require_own_coach_profile_def parse_schedule_entry_def resolve_coach_def by (intro leaves_intros)+

lemma require_own_reads: "require_own_coach_profile auth i s = Inr (c, t) \<Longrightarrow> t = s"
  using leavesD [OF reads_coach(1) [of "\<lambda>s. s"]] by simp

lemma coaches_ok_cong:
  "coaches s' = coaches s \<Longrightarrow> coach_schedules s' = coach_schedules s \<Longrightarrow> clock_records s' = clock_records s \<Longrightarrow>
    coaches_ok s' = coaches_ok s \<and> open_records i s' = open_records i s"
  by (simp add: coaches_ok_def open_records_def)

section \<open>A coach's day\<close>

datatype clock_event = ClockedIn uuid | ClockedOut uuid

inductive coach_step :: "'w access_cache \<Rightarrow> db \<Rightarrow> clock_event list \<Rightarrow> db \<Rightarrow> bool" for cache where
  created: "create_coach cache req w s = (r, w', s') \<Longrightarrow> coach_step cache s [] s'"
| changed: "update_coach i req s = (r, s') \<Longrightarrow> coach_step cache s [] s'"
| planned: "update_schedules ch auth i entries s = (r, s') \<Longrightarrow> coach_step cache s [] s'"
| came: "clock_in auth i remark s = (Inr r, s') \<Longrightarrow> coach_step cache s [ClockedIn i] s'"
| stayed_out: "clock_in auth i remark s = (Inl e, s') \<Longrightarrow> coach_step cache s [] s'"
| left: "clock_out auth i s = (Inr r, s') \<Longrightarrow> coach_step cache s [ClockedOut i] s'"
| stayed_in: "clock_out auth i s = (Inl e, s') \<Longrightarrow> coach_step cache s [] s'"
| elsewhere: "coaches s' = coaches s \<Longrightarrow> coach_schedules s' = coach_schedules s \<Longrightarrow>
    clock_records s' = clock_records s \<Longrightarrow> coach_step cache s [] s'"

inductive coach_run :: "'w access_cache \<Rightarrow> db \<Rightarrow> clock_event list \<Rightarrow> db \<Rightarrow> bool" for cache where
  nothing: "coach_run cache s [] s"
| then_step: "coach_run cache s log t \<Longrightarrow> coach_step cache t ev s' \<Longrightarrow> coach_run cache s (log @ ev) s'"

lemma create_coach_keeps:
  assumes "create_coach cache req w s = (r, w', s')" "coaches_ok s"
  shows "coaches_ok s' \<and> open_records j s' = open_records j s"
proof (cases "create_coach_tx req s")
  case (Inl e)
  then show ?thesis using assms by (auto simp: create_coach_def split: option.splits)
next
  case (Inr y)
  obtain c d t u where i: "insert_coach_tx req (case cc_is_active req of Some b \<Rightarrow> b | None \<Rightarrow> True)
      (case cc_display_order req of Some n \<Rightarrow> n | None \<Rightarrow> 0) s = Inr (c, t)"
    and a: "assign_role (cc_user_id req) Role_Coach t = Inr (d, u)" and y: "y = ((c, d), u)"
    using Inr by (cases y) (auto simp: create_coach_tx_def bind_tx_Inr)
  have "s' = s \<or> s' = u" using assms(1) Inr y by (auto simp: create_coach_def split: option.splits)
  moreover have u: "coaches u = coaches t" "coach_schedules u = coach_schedules t" "clock_records u = clock_records t"
    using a by (auto simp: assign_role_def split: if_splits)
  obtain row where row: "coaches t = coaches s @ [row]" "coach_schedules t = coach_schedules s"
    "clock_records t = clock_records s" "profiles_ok (coaches s @ [row])"
    using insert_coach_tx_Inr [OF i] profiles_ok_append assms(2) unfolding coaches_ok_def by metis
  have "coaches_ok u \<and> open_records j u = open_records j s"
    using row u assms(2) by (simp add: coaches_ok_def open_records_def)
  ultimately show ?thesis using assms(2) by auto
qed

lemma update_coach_keeps:
  assumes "update_coach i req s = (r, s')" "coaches_ok s"
  shows "coaches_ok s' \<and> open_records j s' = open_records j s"
proof -
  have "s' = s \<or> (\<exists>x. update_coach_row i req s = Inr (x, s'))"
    using assms(1) by (auto simp: update_coach_def commit_tx_def bind_tx_Inr split: sum.splits)
  then consider "s' = s" | c where "s' = s\<lparr>coaches := update_where (\<lambda>c. ch_id c = i) (change_coach req) (coaches s)\<rparr>"
      "fetch_by (\<lambda>c. ch_id c = i) (coaches s) = Some c" "\<not> slug_taken i (ch_slug (change_coach req c)) s"
    using update_coach_row_Inr by blast
  then show ?thesis
  proof cases
    case 2
    have "profiles_ok (update_where (\<lambda>c. ch_id c = i) (change_coach req) (coaches s))"
      using 2(3) assms(2) by (intro profiles_ok_update [OF _ 2(2)]) (auto simp: slug_taken_def list_ex_iff coaches_ok_def)
    then show ?thesis using assms(2) by (simp add: 2(1) coaches_ok_def open_records_def)
  qed (simp add: assms(2))
qed

lemma update_schedules_keeps:
  assumes "update_schedules ch auth i entries s = (r, s')" "coaches_ok s"
  shows "coaches_ok s' \<and> open_records j s' = open_records j s"
proof -
  let ?m = "bind_tx (require_own_coach_profile auth i) (\<lambda>_.
    bind_tx (for_tx (parse_schedule_entry ch) entries) (\<lambda>cells.
    map_err_tx (conflict_on_exclusion schedule_clash) (replace_schedules i cells)))"
  have "leaves coaches ?m" "leaves clock_records ?m" by (intro leaves_intros)+
  moreover have "keeps (\<lambda>s. schedules_ok (coach_schedules s)) ?m"
    by (intro keeps_intros keeps_replace_schedules keeps_if_leaves leaves_intros)
  ultimately show ?thesis
    using assms by (auto simp: update_schedules_def commit_tx_def coaches_ok_def open_records_def
        dest: leavesD keepsD split: sum.splits)
qed

lemma clock_in_row_Inr:
  "clock_in_row i remark s = Inr (r, s') \<Longrightarrow> open_records i s = 0 \<and> coaches s' = coaches s \<and>
    coach_schedules s' = coach_schedules s \<and> open_records j s' = open_records j s + (if j = i then 1 else 0)"
  by (auto simp: clock_in_row_def bind_tx_def Let_def open_records_def open_record_def list_ex_iff
      count_where_def filter_empty_conv split: if_splits)

lemma clock_in_cases:
  assumes "clock_in auth i remark s = (r, s')"
  shows "s' = s \<and> (\<exists>e. r = Inl e) \<or> (\<exists>x. r = Inr x \<and> clock_in_row i remark s = Inr (x, s'))"
  using assms by (auto simp: clock_in_def commit_tx_def bind_tx_Inr dest: require_own_reads split: sum.splits)

lemma count_after_close:
  "count_where (open_record j) (update_where (open_record i) (\<lambda>r. r\<lparr>cr_clock_out := Some t\<rparr>) rows) =
    (if j = i then 0 else count_where (open_record j) rows)"
proof -
  have "open_record j (r\<lparr>cr_clock_out := Some t\<rparr>) = False" "open_record i r \<Longrightarrow> open_record j r = (j = i)" for r
    by (auto simp: open_record_def)
  then show ?thesis by (induction rows) auto
qed

lemma count_where_none: "count_where P t = 0 \<longleftrightarrow> fetch_by P t = None"
  by (induction t) auto

lemma clock_out_row_Inr:
  assumes "clock_out_row i s = Inr (r, s')"
  shows "coaches s' = coaches s \<and> coach_schedules s' = coach_schedules s \<and>
    open_records j s' = (if j = i then 0 else open_records j s) \<and> (r = None \<longleftrightarrow> open_records i s = 0)"
proof -
  have "s' = s\<lparr>clock_records := update_where (open_record i) (\<lambda>r. r\<lparr>cr_clock_out := Some (db_now s)\<rparr>) (clock_records s)\<rparr>"
    "r = None \<longleftrightarrow> fetch_by (open_record i) (clock_records s) = None"
    using assms by (auto simp: clock_out_row_def Let_def)
  then show ?thesis by (simp add: open_records_def count_after_close) (simp add: count_where_none)
qed

lemma clock_out_cases:
  assumes "clock_out auth i s = (r, s')"
  shows "s' = s \<and> (\<exists>e. r = Inl e) \<or> (\<exists>x. r = Inr x \<and> clock_out_row i s = Inr (Some x, s'))"
  using assms by (auto simp: clock_out_def commit_tx_def bind_tx_Inr dest: require_own_reads split: sum.splits)

lemma coach_step_effect:
  assumes "coach_step cache s ev s'" "coaches_ok s"
  shows "coaches_ok s' \<and>
    count_list ev (ClockedIn i) + open_records i s = count_list ev (ClockedOut i) + open_records i s'"
  using assms
proof cases
  case (came auth k remark r)
  then have row: "clock_in_row k remark s = Inr (r, s')" using clock_in_cases by fastforce
  note c = clock_in_row_Inr [OF row]
  have "open_records j s' \<le> 1" for j using c [of j] assms(2) by (auto simp: coaches_ok_def)
  then show ?thesis using c [of i] assms(2) came(1) by (auto simp: coaches_ok_def)
next
  case (left auth k r)
  then have row: "clock_out_row k s = Inr (Some r, s')" using clock_out_cases by fastforce
  note c = clock_out_row_Inr [OF row]
  have "open_records k s = 1" using c [of k] assms(2) unfolding coaches_ok_def
    by (metis One_nat_def le_Suc_eq le_zero_eq option.distinct(1))
  moreover have "open_records j s' \<le> 1" for j using c [of j] assms(2) by (auto simp: coaches_ok_def)
  ultimately show ?thesis using c [of i] assms(2) left(1) by (auto simp: coaches_ok_def)
next
  case created
  then show ?thesis using create_coach_keeps [OF created(2) assms(2)] by simp
next
  case changed
  then show ?thesis using update_coach_keeps [OF changed(2) assms(2)] by simp
next
  case planned
  then show ?thesis using update_schedules_keeps [OF planned(2) assms(2)] by simp
next
  case stayed_out
  then show ?thesis using clock_in_cases [OF stayed_out(2)] assms(2) by auto
next
  case stayed_in
  then show ?thesis using clock_out_cases [OF stayed_in(2)] assms(2) by auto
next
  case elsewhere
  then show ?thesis using coaches_ok_cong [OF elsewhere(2-4)] assms(2) by simp
qed

text \<open>
  C25. A coach is clocked in at most once at a time, and clock-ins and clock-outs alternate: over any run
  of the coach handlers from empty tables, the accepted clock-ins of a coach are its accepted
  clock-outs plus its open records, of which there is at most one. In every state so reached no user has two profiles, no two profiles
  share a slug, and no two cells of a coach's week overlap.
\<close>

theorem coaches_invariant:
  assumes "coach_run cache s log s'" "coaches s = []" "coach_schedules s = []" "clock_records s = []"
  shows "coaches_ok s' \<and> count_list log (ClockedIn i) = count_list log (ClockedOut i) + open_records i s'"
  using assms
proof (induction rule: coach_run.induct)
  case (nothing s)
  then show ?case by (simp add: coaches_ok_def profiles_ok_def schedules_ok_def open_records_def)
next
  case (then_step s log t ev s')
  then show ?case using coach_step_effect [OF then_step.hyps(2), of i] by simp
qed

definition coached_studio :: db where
  "coached_studio = empty_db\<lparr>users := [member 3 0], uuid_supply := (\<lambda>n. n)\<rparr>"

definition nobody_asked :: "nat access_cache" where "nobody_asked = down_cache"

definition head_coach :: create_coach_request where
  "head_coach = \<lparr>cc_user_id = 3, cc_title = ''Head coach'', cc_bio = None, cc_experience = None,
     cc_specialties = [], cc_certifications = [], cc_is_active = None, cc_display_order = None,
     cc_slug = Some ''li'', cc_photo_url = None\<rparr>"

definition boss :: auth_user where
  "boss = \<lparr>au_user_id = 1, au_email = [], au_roles = [''admin'']\<rparr>"

definition coached_1 :: db where "coached_1 = snd (snd (create_coach nobody_asked head_coach 0 coached_studio))"
definition coached_2 :: db where "coached_2 = snd (clock_in boss 0 None coached_1)"
definition coached_3 :: db where "coached_3 = snd (clock_out boss 0 coached_2)"

lemma coaches_invariant_witness:
  "count_list [ClockedIn 0, ClockedOut 0] (ClockedIn 0) = 1 + open_records 0 coached_3 \<and> coaches_ok coached_3 \<and>
   map ch_user_id (coaches coached_3) = [3]"
proof -
  have "coach_step nobody_asked coached_studio [] coached_1"
    by (rule coach_step.created [of nobody_asked head_coach 0 coached_studio "fst (create_coach nobody_asked head_coach 0 coached_studio)"
        "fst (snd (create_coach nobody_asked head_coach 0 coached_studio))"]) (simp add: coached_1_def)
  note run1 = coach_run.then_step [OF coach_run.nothing this]
  have "case fst (clock_in boss 0 None coached_1) of Inr _ \<Rightarrow> True | Inl _ \<Rightarrow> False" by code_simp
  then obtain r where "clock_in boss 0 None coached_1 = (Inr r, coached_2)"
    by (cases "clock_in boss 0 None coached_1") (auto simp: coached_2_def split: sum.splits)
  note run2 = coach_run.then_step [OF run1 coach_step.came [OF this]]
  have "case fst (clock_out boss 0 coached_2) of Inr _ \<Rightarrow> True | Inl _ \<Rightarrow> False" by code_simp
  then obtain q where "clock_out boss 0 coached_2 = (Inr q, coached_3)"
    by (cases "clock_out boss 0 coached_2") (auto simp: coached_3_def split: sum.splits)
  note run3 = coach_run.then_step [OF run2 coach_step.left [OF this]]
  have "coaches coached_studio = []" "coach_schedules coached_studio = []" "clock_records coached_studio = []"
    by (simp_all add: coached_studio_def empty_db_def)
  from coaches_invariant [OF run3 this, of 0]
  have "coaches_ok coached_3 \<and> open_records 0 coached_3 = 0" by simp
  moreover have "map ch_user_id (coaches coached_3) = [3]" by code_simp
  ultimately show ?thesis by simp
qed

end
