(* ===== verification/Calendar.thy ===== *)
theory Calendar
  imports Coaches Seats
begin

text \<open>
  The session calendar (\<open>src/modules/sessions\<close>): a course's weekly timetable, the sessions written
  from it when somebody looks at a range of days, and what a change of the timetable does to the
  sessions still to come. A session is never written for a day that is over, and one that a leave request or an
  attendance mark points to is never deleted.
\<close>

section \<open>A session's status\<close>

definition derive_session_status ::
  "tz \<Rightarrow> instant \<Rightarrow> date \<Rightarrow> time_of_day \<Rightarrow> time_of_day \<Rightarrow> session_status" where
  "derive_session_status z now d st en =
    (let started = has_started z now d st; ended = has_ended z now d en
     in if started = Some False then Session_Upcoming
        else if started = Some True \<and> ended = Some False then Session_Ongoing
        else if started = Some True \<and> ended = Some True then Session_Done
        else if d < today z now then Session_Done
        else if d > today z now then Session_Upcoming
        else if started = Some True then Session_Ongoing
        else Session_Upcoming)"

section \<open>From the timetable to sessions\<close>

text \<open>\<open>SLOT_OF_SESSION\<close>: the timetable slot that a session of a course, on a day, at a time comes from.\<close>

definition slot_of_session :: "uuid \<Rightarrow> date \<Rightarrow> time_of_day \<Rightarrow> course_schedule_slot \<Rightarrow> bool" where
  "slot_of_session cid d st slot = (ss_course_id slot = cid \<and> ss_day_of_week slot = extract_dow d \<and> ss_start_time slot = st)"

record materialized_range =
  mr_course_ids :: "uuid list"
  mr_from :: date
  mr_to :: date

record materialized_day =
  md_range :: materialized_range

record session_candidate =
  sd_course_id :: uuid
  sd_session_date :: date
  sd_start_time :: time_of_day
  sd_end_time :: time_of_day
  sd_venue :: "string option"

text \<open>The cross join of the slots with the days of the range.\<close>

definition candidates :: "uuid list \<Rightarrow> date \<Rightarrow> date \<Rightarrow> db \<Rightarrow> session_candidate list" where
  "candidates course_ids from until s =
    [\<lparr>sd_course_id = ss_course_id slot, sd_session_date = d, sd_start_time = ss_start_time slot,
      sd_end_time = ss_end_time slot, sd_venue = ss_venue slot\<rparr>.
      slot \<leftarrow> schedule_slots s, ss_course_id slot \<in> set course_ids,
      d \<leftarrow> [from..until], slot_of_session (ss_course_id slot) d (ss_start_time slot) slot]"

definition same_session :: "uuid \<Rightarrow> date \<Rightarrow> time_of_day \<Rightarrow> course_session \<Rightarrow> bool" where
  "same_session cid d st x = (cs_course_id x = cid \<and> cs_session_date x = d \<and> cs_start_time x = st)"

text \<open>One row of the insert, with its \<open>ON CONFLICT DO NOTHING\<close>.\<close>

definition insert_session :: "session_candidate \<Rightarrow> unit sql" where
  "insert_session c = bind_tx fresh_uuid (\<lambda>i s.
    if list_ex (same_session (sd_course_id c) (sd_session_date c) (sd_start_time c)) (sessions s) then Inr ((), s)
    else if i \<in> cs_id ` set (sessions s) then Inl (UniqueViolation ''course_sessions_pkey'')
    else Inr ((), s\<lparr>sessions := sessions s @ [\<lparr>cs_id = i, cs_course_id = sd_course_id c,
      cs_session_date = sd_session_date c, cs_start_time = sd_start_time c, cs_end_time = sd_end_time c,
      cs_venue = sd_venue c, cs_created_at = db_now s\<rparr>]\<rparr>))"

definition insert_sessions :: "uuid list \<Rightarrow> date \<Rightarrow> date \<Rightarrow> unit sql" where
  "insert_sessions course_ids from until =
    (if course_ids = [] then return_tx ()
     else bind_tx (get_tx (candidates course_ids from until)) (\<lambda>cs.
       if cs = [] then return_tx () else bind_tx (for_tx insert_session cs) (\<lambda>_. return_tx ())))"

definition materialize_range ::
  "date \<Rightarrow> uuid list \<Rightarrow> date \<Rightarrow> date \<Rightarrow> materialized_range sql" where
  "materialize_range now_day course_ids from until =
    (let witness = \<lparr>mr_course_ids = course_ids, mr_from = from, mr_to = until\<rparr>; begins = max from now_day
     in if begins > until then return_tx witness
        else bind_tx (insert_sessions course_ids begins until) (\<lambda>_. return_tx witness))"

definition materialize_today :: "uuid list \<Rightarrow> date \<Rightarrow> materialized_day sql" where
  "materialize_today course_ids now_day =
    bind_tx (materialize_range now_day course_ids now_day now_day) (\<lambda>r. return_tx \<lparr>md_range = r\<rparr>)"

definition backfill_for_seed :: "uuid list \<Rightarrow> date \<Rightarrow> date \<Rightarrow> unit sql" where
  "backfill_for_seed course_ids from until = insert_sessions course_ids from until"

section \<open>Changing the timetable\<close>

type_synonym slot_cell = "day_of_week \<times> time_of_day \<times> time_of_day \<times> string option"

definition insert_slot_row :: "uuid \<Rightarrow> slot_cell \<Rightarrow> unit sql" where
  "insert_slot_row cid cell = (case cell of (dow, st, en, venue) \<Rightarrow> bind_tx fresh_uuid (\<lambda>i s.
    let row = \<lparr>ss_id = i, ss_course_id = cid, ss_day_of_week = dow, ss_start_time = st, ss_end_time = en,
      ss_venue = venue, ss_created_at = db_now s\<rparr>
    in if \<not> (0 \<le> dow \<and> dow \<le> 6) then Inl (CheckViolation ''course_schedule_slots_day_of_week_check'')
       else if \<not> st < en then Inl (CheckViolation ''course_schedule_slots_time_order'')
       else if i \<in> ss_id ` set (schedule_slots s) then Inl (UniqueViolation ''course_schedule_slots_pkey'')
       else if list_ex (\<lambda>x. ss_course_id x = cid \<and> ss_day_of_week x = dow \<and> ss_start_time x = st) (schedule_slots s)
         then Inl (UniqueViolation ''course_schedule_slots_unique'')
       else Inr ((), s\<lparr>schedule_slots := schedule_slots s @ [row]\<rparr>)))"

definition replace_slots_tx :: "uuid \<Rightarrow> slot_cell list \<Rightarrow> unit sql" where
  "replace_slots_tx cid slots =
    bind_tx (put_tx (\<lambda>s. s\<lparr>schedule_slots := delete_where (\<lambda>x. ss_course_id x = cid) (schedule_slots s)\<rparr>)) (\<lambda>_.
    bind_tx (for_tx (insert_slot_row cid) slots) (\<lambda>_. return_tx ()))"

definition set_initial_schedule_tx :: "uuid \<Rightarrow> slot_cell list \<Rightarrow> unit sql" where
  "set_initial_schedule_tx cid slots = replace_slots_tx cid slots"

definition slot_for :: "db \<Rightarrow> course_session \<Rightarrow> course_schedule_slot option" where
  "slot_for s x = fetch_by (slot_of_session (cs_course_id x) (cs_session_date x) (cs_start_time x)) (schedule_slots s)"

definition to_come :: "uuid \<Rightarrow> date \<Rightarrow> course_session \<Rightarrow> bool" where
  "to_come cid now_day x = (cs_course_id x = cid \<and> cs_session_date x > now_day)"

text \<open>The first statement: a coming session takes its slot's end and venue.\<close>

definition follow_slot :: "db \<Rightarrow> course_session \<Rightarrow> course_session" where
  "follow_slot s x = (case slot_for s x of
     Some slot \<Rightarrow>
       if ss_end_time slot \<noteq> cs_end_time x \<or> ss_venue slot \<noteq> cs_venue x
       then x\<lparr>cs_end_time := ss_end_time slot, cs_venue := ss_venue slot\<rparr> else x
   | None \<Rightarrow> x)"

text \<open>The second: a coming session with no slot goes, unless a leave request or an attendance mark points to it.\<close>

definition pinned :: "db \<Rightarrow> uuid \<Rightarrow> bool" where
  "pinned s i \<longleftrightarrow>
    list_ex (\<lambda>l. lr_session_id l = i \<or> lr_makeup_session_id l = Some i) (leave_requests s) \<or>
    list_ex (\<lambda>a. a_session_id a = i) (attendance s)"

definition reconcile_future_sessions_tx :: "uuid \<Rightarrow> date \<Rightarrow> unit sql" where
  "reconcile_future_sessions_tx cid now_day =
    bind_tx (put_tx (\<lambda>s. s\<lparr>sessions := update_where (to_come cid now_day) (follow_slot s) (sessions s)\<rparr>)) (\<lambda>_.
    put_tx (\<lambda>s. s\<lparr>sessions := delete_where (\<lambda>x. to_come cid now_day x \<and> slot_for s x = None \<and>
      \<not> pinned s (cs_id x)) (sessions s)\<rparr>))"

definition replace_weekly_schedule_tx :: "uuid \<Rightarrow> slot_cell list \<Rightarrow> date \<Rightarrow> unit sql" where
  "replace_weekly_schedule_tx cid slots now_day =
    bind_tx (replace_slots_tx cid slots) (\<lambda>_. reconcile_future_sessions_tx cid now_day)"

section \<open>Reading the calendar\<close>

definition find_sessions_in :: "materialized_range \<Rightarrow> db \<Rightarrow> course_session list" where
  "find_sessions_in mat s = sort_key cs_session_date (sort_key cs_start_time
    (filter (\<lambda>x. cs_course_id x \<in> set (mr_course_ids mat) \<and> mr_from mat \<le> cs_session_date x \<and>
      cs_session_date x \<le> mr_to mat) (sessions s)))"

definition coach_name_of :: "db \<Rightarrow> course \<Rightarrow> string option" where
  "coach_name_of s c = Option.bind (c_coach_id c) (\<lambda>i.
    Option.bind (fetch_by (\<lambda>h. ch_id h = i) (coaches s)) (\<lambda>h.
    map_option u_name (fetch_by (\<lambda>u. u_id u = ch_user_id h) (users s))))"

record today_session =
  td_id :: uuid
  td_course_id :: uuid
  td_course_name :: string
  td_coach_name :: "string option"
  td_start_time :: time_of_day
  td_end_time :: time_of_day
  td_enrolled_count :: int
  td_venue :: "string option"

definition find_today_sessions_in :: "materialized_day \<Rightarrow> db \<Rightarrow> today_session list" where
  "find_today_sessions_in day s =
    (if mr_course_ids (md_range day) = [] then []
     else List.map_filter (\<lambda>x. map_option (\<lambda>c.
         \<lparr>td_id = cs_id x, td_course_id = cs_course_id x, td_course_name = c_name c,
          td_coach_name = coach_name_of s c, td_start_time = cs_start_time x, td_end_time = cs_end_time x,
          td_enrolled_count = active_count (cs_course_id x) s, td_venue = cs_venue x\<rparr>)
         (course_by_id (cs_course_id x) s))
       (sort_key cs_start_time (filter (\<lambda>x. cs_session_date x = mr_from (md_range day) \<and>
         cs_course_id x \<in> set (mr_course_ids (md_range day))) (sessions s))))"

record weekly_entry =
  we_course_id :: uuid
  we_course_name :: string
  we_coach_name :: "string option"
  we_day_of_week :: day_of_week
  we_start_time :: time_of_day
  we_end_time :: time_of_day
  we_venue :: "string option"

definition my_weekly_schedule :: "uuid \<Rightarrow> db \<Rightarrow> weekly_entry list" where
  "my_weekly_schedule uid s =
    sort_key we_day_of_week (sort_key we_start_time
      [\<lparr>we_course_id = c_id c, we_course_name = c_name c, we_coach_name = coach_name_of s c,
        we_day_of_week = ss_day_of_week slot, we_start_time = ss_start_time slot,
        we_end_time = ss_end_time slot, we_venue = ss_venue slot\<rparr>.
        e \<leftarrow> active_enrolments s, e_user_id e = uid,
        c \<leftarrow> courses s, c_id c = e_course_id e,
        slot \<leftarrow> schedule_slots s, ss_course_id slot = c_id c])"

definition max_range_days :: int where "max_range_days = 60"
definition default_range_days :: int where "default_range_days = 28"

definition parse_query_date :: "chrono \<Rightarrow> string \<Rightarrow> app_error + date" where
  "parse_query_date ch x = (case parse_date ch x of
     None \<Rightarrow> Inl (BadRequest (''invalid date format, expected YYYY-MM-DD: '' @ x))
   | Some d \<Rightarrow> Inr d)"

text \<open>Adding days to a date panics past chrono's last date.\<close>

definition last_date :: date where "last_date = day_number 262142 12 31"

definition add_days :: "date \<Rightarrow> int \<Rightarrow> app_error + date" where
  "add_days d n = (if d + n > last_date then Inl (Internal ''`NaiveDate + TimeDelta` overflowed'') else Inr (d + n))"

record course_session_response =
  csr_session :: course_session
  csr_status :: session_status

definition list_course_sessions ::
  "chrono \<Rightarrow> studio_now \<Rightarrow> uuid \<Rightarrow> string option \<Rightarrow> string option \<Rightarrow> course_session_response list app" where
  "list_course_sessions ch at cid q_from q_to =
    bind_tx (get_tx (course_by_id cid)) (\<lambda>c.
    bind_tx (of_option_tx (NotFound ''course not found'') c) (\<lambda>_.
    bind_tx (of_result_tx (case q_from of Some x \<Rightarrow> parse_query_date ch x | None \<Rightarrow> Inr (studio_today at))) (\<lambda>from.
    bind_tx (of_result_tx (case q_to of Some x \<Rightarrow> parse_query_date ch x | None \<Rightarrow> add_days from default_range_days)) (\<lambda>until.
    bind_tx (ensure_tx (\<not> until < from) (Validation ''to must not be before from'')) (\<lambda>_.
    bind_tx (ensure_tx (\<not> until - from > max_range_days) (Validation ''date range must not exceed 60 days'')) (\<lambda>_.
    bind_tx (db_try (materialize_range (studio_today at) [cid] from until)) (\<lambda>mat.
    bind_tx (get_tx (find_sessions_in mat)) (\<lambda>found.
    return_tx (map (\<lambda>x. \<lparr>csr_session = x, csr_status = derive_session_status (sn_tz at) (sn_now at)
      (cs_session_date x) (cs_start_time x) (cs_end_time x)\<rparr>) found)))))))))"

record today_session_response =
  tr_row :: today_session
  tr_status :: session_status

definition today_sessions :: "studio_now \<Rightarrow> auth_user \<Rightarrow> today_session_response list app" where
  "today_sessions at auth =
    bind_tx (if is_admin auth then get_tx (\<lambda>s. map c_id (courses s))
      else bind_tx (resolve_scope auth) (\<lambda>r.
        return_tx (case r of Some scope \<Rightarrow> cp_course_ids scope | None \<Rightarrow> []))) (\<lambda>course_ids.
    bind_tx (db_try (materialize_today course_ids (studio_today at))) (\<lambda>day.
    bind_tx (get_tx (find_today_sessions_in day)) (\<lambda>rows.
    return_tx (map (\<lambda>r. \<lparr>tr_row = r, tr_status = derive_session_status (sn_tz at) (sn_now at) (studio_today at)
      (td_start_time r) (td_end_time r)\<rparr>) rows))))"

section \<open>Time only moves forward\<close>

fun status_rank :: "session_status \<Rightarrow> nat" where
  "status_rank Session_Upcoming = 0"
| "status_rank Session_Ongoing = 1"
| "status_rank Session_Done = 2"

context zone
begin

lemma started_not_before: "to_utc z d st = Some i \<Longrightarrow> i \<le> now \<Longrightarrow> mono (today z) \<Longrightarrow> d \<le> today z now"
  using to_utc_today [of d st i] monoD [of "today z" i now] by simp

lemma status_advances:
  assumes "mono (today z)" "now \<le> later"
  shows "status_rank (derive_session_status z now d st en) \<le> status_rank (derive_session_status z later d st en)"
proof -
  have t: "today z now \<le> today z later" using assms by (rule monoD)
  show ?thesis
  proof (cases "to_utc z d st")
    case None
    then show ?thesis using t by (auto simp: derive_session_status_def has_started_def Let_def)
  next
    case (Some i)
    show ?thesis
    proof (cases "i \<le> now")
      case False
      then show ?thesis using Some by (simp add: derive_session_status_def has_started_def Let_def)
    next
      case True
      have "d \<le> today z now" using started_not_before Some True assms(1) by blast
      then show ?thesis using Some True t assms(2)
        by (cases "to_utc z d en") (auto simp: derive_session_status_def has_started_def has_ended_def Let_def)
    qed
  qed
qed

end

lemma today_fixed_mono: "mono (today (fixed_zone off))"
  by (simp add: mono_def today_def fixed_zone_def zdiv_mono1)

text \<open>
  A session's status only moves forward: upcoming, ongoing, done. In any time zone whose local date
  never goes back, a later look never shows an earlier status, also on a day whose local times the zone
  cannot resolve, where the status falls back to comparing dates.
\<close>

theorem session_status_advances:
  assumes "zone z" "mono (today z)" "now \<le> later"
  shows "status_rank (derive_session_status z now d st en) \<le> status_rank (derive_session_status z later d st en)"
  using zone.status_advances [OF assms] .

lemma session_status_advances_witness:
  "status_rank (derive_session_status taipei 0 0 (9 * micros_per_hour) (10 * micros_per_hour)) \<le>
     status_rank (derive_session_status taipei micros_per_day 0 (9 * micros_per_hour) (10 * micros_per_hour)) \<and>
   derive_session_status taipei 0 0 (9 * micros_per_hour) (10 * micros_per_hour) = Session_Upcoming \<and>
   derive_session_status taipei micros_per_day 0 (9 * micros_per_hour) (10 * micros_per_hour) = Session_Done"
proof -
  have "(0::int) \<le> micros_per_day" by simp
  then show ?thesis
    using session_status_advances [OF fixed.zone_axioms today_fixed_mono, of 0 micros_per_day "8 * micros_per_hour" 0
        "9 * micros_per_hour" "10 * micros_per_hour"]
    by (simp add: taipei_def [symmetric]) (simp add: derive_session_status_def has_started_def has_ended_def to_utc_def
        taipei_def fixed_zone_def Let_def)
qed

section \<open>The timetable's rows\<close>

definition slot_key :: "course_schedule_slot \<Rightarrow> uuid \<times> day_of_week \<times> time_of_day" where
  "slot_key x = (ss_course_id x, ss_day_of_week x, ss_start_time x)"

definition session_key :: "course_session \<Rightarrow> uuid \<times> date \<times> time_of_day" where
  "session_key x = (cs_course_id x, cs_session_date x, cs_start_time x)"

definition timetable_ok :: "db \<Rightarrow> bool" where
  "timetable_ok s \<longleftrightarrow> distinct (map slot_key (schedule_slots s)) \<and> distinct (map session_key (sessions s))"

definition cell_of :: "course_schedule_slot \<Rightarrow> slot_cell" where
  "cell_of x = (ss_day_of_week x, ss_start_time x, ss_end_time x, ss_venue x)"

definition calendar_rest :: "db \<Rightarrow> course_session list \<times> leave_request list \<times> attendance_record list" where
  "calendar_rest s = (sessions s, leave_requests s, attendance s)"

lemma same_session_key: "same_session cid d st x \<longleftrightarrow> session_key x = (cid, d, st)"
  by (simp add: same_session_def session_key_def)

lemma insert_slot_row_Inr:
  assumes "insert_slot_row cid cell s = Inr (u, s')"
  obtains row where "schedule_slots s' = schedule_slots s @ [row]" "cell_of row = cell" "ss_course_id row = cid"
    "slot_key row \<notin> slot_key ` set (schedule_slots s)" "calendar_rest s' = calendar_rest s"
proof (cases cell)
  case (fields dow st en v)
  let ?row = "\<lparr>ss_id = uuid_supply s (uuid_pos s), ss_course_id = cid, ss_day_of_week = dow, ss_start_time = st,
    ss_end_time = en, ss_venue = v, ss_created_at = db_now s\<rparr>"
  show thesis
    by (rule that [of ?row]) (use assms in \<open>auto simp: fields insert_slot_row_def bind_tx_def Let_def cell_of_def
      slot_key_def calendar_rest_def list_ex_iff split: if_splits\<close>)
qed

lemma insert_slot_rows_Inr:
  assumes "for_tx (insert_slot_row cid) cells s = Inr (u, s')"
  shows "\<exists>rows. schedule_slots s' = schedule_slots s @ rows \<and> map cell_of rows = cells \<and>
    (\<forall>r \<in> set rows. ss_course_id r = cid) \<and> calendar_rest s' = calendar_rest s \<and>
    (distinct (map slot_key (schedule_slots s)) \<longrightarrow> distinct (map slot_key (schedule_slots s')))"
  using assms
proof (induction cells arbitrary: s u)
  case (Cons c cs)
  obtain a t v where one: "insert_slot_row cid c s = Inr (a, t)" and more: "for_tx (insert_slot_row cid) cs t = Inr (v, s')"
    using Cons.prems by (auto simp: bind_tx_Inr)
  obtain row where row: "schedule_slots t = schedule_slots s @ [row]" "cell_of row = c" "ss_course_id row = cid"
    "slot_key row \<notin> slot_key ` set (schedule_slots s)" "calendar_rest t = calendar_rest s"
    using insert_slot_row_Inr [OF one] .
  obtain rows where "schedule_slots s' = schedule_slots t @ rows" "map cell_of rows = cs"
    "\<forall>r \<in> set rows. ss_course_id r = cid" "calendar_rest s' = calendar_rest t"
    "distinct (map slot_key (schedule_slots t)) \<longrightarrow> distinct (map slot_key (schedule_slots s'))"
    using Cons.IH [OF more] by blast
  then show ?case using row by (intro exI [of _ "row # rows"]) simp
qed simp

lemma replace_slots_tx_Inr:
  assumes "replace_slots_tx cid cells s = Inr (u, s')"
  obtains rows where "schedule_slots s' = delete_where (\<lambda>x. ss_course_id x = cid) (schedule_slots s) @ rows"
    "map cell_of rows = cells" "\<forall>r \<in> set rows. ss_course_id r = cid" "calendar_rest s' = calendar_rest s"
    "distinct (map slot_key (schedule_slots s)) \<longrightarrow> distinct (map slot_key (schedule_slots s'))"
proof -
  let ?t = "s\<lparr>schedule_slots := delete_where (\<lambda>x. ss_course_id x = cid) (schedule_slots s)\<rparr>"
  obtain v where "for_tx (insert_slot_row cid) cells ?t = Inr (v, s')"
    using assms by (auto simp: replace_slots_tx_def bind_tx_Inr)
  from insert_slot_rows_Inr [OF this] obtain rows where
    rows: "schedule_slots s' = schedule_slots ?t @ rows" "map cell_of rows = cells" "\<forall>r \<in> set rows. ss_course_id r = cid"
      "calendar_rest s' = calendar_rest ?t"
    and keys: "distinct (map slot_key (schedule_slots ?t)) \<longrightarrow> distinct (map slot_key (schedule_slots s'))" by blast
  have "distinct (map slot_key (schedule_slots s)) \<longrightarrow> distinct (map slot_key (schedule_slots ?t))"
    by (simp add: delete_where_def distinct_map_filter)
  then show thesis using rows keys by (intro that [of rows]) (simp_all add: calendar_rest_def)
qed

text \<open>After the change, a day's slots of the course are exactly the cells of its weekday.\<close>

lemma slots_of_day:
  assumes "schedule_slots s' = delete_where (\<lambda>x. ss_course_id x = cid) t @ rows" "map cell_of rows = cells"
    "\<forall>r \<in> set rows. ss_course_id r = cid"
  shows "(extract_dow d, st, en, v) \<in> set cells \<longleftrightarrow>
    (\<exists>x \<in> set (schedule_slots s'). slot_of_session cid d st x \<and> ss_end_time x = en \<and> ss_venue x = v)"
proof -
  have "(extract_dow d, st, en, v) \<in> set cells \<longleftrightarrow>
      (\<exists>x \<in> set rows. slot_of_session cid d st x \<and> ss_end_time x = en \<and> ss_venue x = v)"
    unfolding assms(2) [symmetric] set_map image_iff using assms(3)
    by (intro bex_cong refl) (auto simp: cell_of_def slot_of_session_def)
  then show ?thesis by (auto simp: assms(1) slot_of_session_def)
qed

section \<open>The sessions' rows\<close>

lemma candidates_iff:
  "c \<in> set (candidates ids d0 d1 s) \<longleftrightarrow> (\<exists>x \<in> set (schedule_slots s). ss_course_id x \<in> set ids \<and>
    sd_course_id c = ss_course_id x \<and> d0 \<le> sd_session_date c \<and> sd_session_date c \<le> d1 \<and>
    slot_of_session (ss_course_id x) (sd_session_date c) (sd_start_time c) x \<and>
    sd_end_time c = ss_end_time x \<and> sd_venue c = ss_venue x)"
proof
  assume "\<exists>x \<in> set (schedule_slots s). ss_course_id x \<in> set ids \<and>
    sd_course_id c = ss_course_id x \<and> d0 \<le> sd_session_date c \<and> sd_session_date c \<le> d1 \<and>
    slot_of_session (ss_course_id x) (sd_session_date c) (sd_start_time c) x \<and>
    sd_end_time c = ss_end_time x \<and> sd_venue c = ss_venue x"
  then obtain x where "x \<in> set (schedule_slots s)" "ss_course_id x \<in> set ids" "sd_session_date c \<in> set [d0..d1]"
    "slot_of_session (ss_course_id x) (sd_session_date c) (ss_start_time x) x"
    "c = \<lparr>sd_course_id = ss_course_id x, sd_session_date = sd_session_date c, sd_start_time = ss_start_time x,
      sd_end_time = ss_end_time x, sd_venue = ss_venue x\<rparr>"
    by (auto simp: slot_of_session_def)
  then show "c \<in> set (candidates ids d0 d1 s)" unfolding candidates_def by fastforce
qed (auto simp: candidates_def slot_of_session_def)

definition from_candidate :: "session_candidate \<Rightarrow> course_session \<Rightarrow> bool" where
  "from_candidate c x \<longleftrightarrow> session_key x = (sd_course_id c, sd_session_date c, sd_start_time c) \<and>
    cs_end_time x = sd_end_time c \<and> cs_venue x = sd_venue c"

definition calendar_frame :: "db \<Rightarrow> course_schedule_slot list \<times> leave_request list \<times> attendance_record list" where
  "calendar_frame s = (schedule_slots s, leave_requests s, attendance s)"

lemma insert_session_Inr:
  assumes "insert_session c s = Inr (u, s')"
  shows "calendar_frame s' = calendar_frame s \<and> (\<exists>new. sessions s' = sessions s @ new \<and>
    (\<forall>x \<in> set new. from_candidate c x) \<and>
    (\<exists>x \<in> set (sessions s'). session_key x = (sd_course_id c, sd_session_date c, sd_start_time c)) \<and>
    (distinct (map session_key (sessions s)) \<longrightarrow> distinct (map session_key (sessions s'))))"
proof (cases "\<exists>x \<in> set (sessions s). session_key x = (sd_course_id c, sd_session_date c, sd_start_time c)")
  case True
  then have "sessions s' = sessions s" "calendar_frame s' = calendar_frame s"
    using assms by (auto simp: insert_session_def bind_tx_def list_ex_iff same_session_key calendar_frame_def split: if_splits)
  then show ?thesis using True by (intro conjI exI [of _ "[]"]) auto
next
  case False
  let ?x = "\<lparr>cs_id = uuid_supply s (uuid_pos s), cs_course_id = sd_course_id c, cs_session_date = sd_session_date c,
    cs_start_time = sd_start_time c, cs_end_time = sd_end_time c, cs_venue = sd_venue c, cs_created_at = db_now s\<rparr>"
  have "sessions s' = sessions s @ [?x]" "calendar_frame s' = calendar_frame s"
    using False assms by (auto simp: insert_session_def bind_tx_def list_ex_iff same_session_key calendar_frame_def split: if_splits)
  moreover have "session_key ?x = (sd_course_id c, sd_session_date c, sd_start_time c)" "from_candidate c ?x"
    by (simp_all add: from_candidate_def session_key_def)
  ultimately show ?thesis using False by (intro conjI exI [of _ "[?x]"]) auto
qed

lemma insert_each_session_Inr:
  assumes "for_tx insert_session cs s = Inr (u, s')"
  shows "calendar_frame s' = calendar_frame s \<and> (\<exists>new. sessions s' = sessions s @ new \<and>
    (\<forall>x \<in> set new. \<exists>c \<in> set cs. from_candidate c x) \<and>
    (\<forall>c \<in> set cs. \<exists>x \<in> set (sessions s'). session_key x = (sd_course_id c, sd_session_date c, sd_start_time c)) \<and>
    (distinct (map session_key (sessions s)) \<longrightarrow> distinct (map session_key (sessions s'))))"
  using assms
proof (induction cs arbitrary: s u)
  case (Cons c cs)
  obtain a t v where one: "insert_session c s = Inr (a, t)" and more: "for_tx insert_session cs t = Inr (v, s')"
    using Cons.prems by (auto simp: bind_tx_Inr)
  obtain new1 where n1: "calendar_frame t = calendar_frame s" "sessions t = sessions s @ new1"
    "\<forall>x \<in> set new1. from_candidate c x"
    "\<exists>x \<in> set (sessions t). session_key x = (sd_course_id c, sd_session_date c, sd_start_time c)"
    "distinct (map session_key (sessions s)) \<longrightarrow> distinct (map session_key (sessions t))"
    using insert_session_Inr [OF one] by blast
  obtain new2 where n2: "calendar_frame s' = calendar_frame t" "sessions s' = sessions t @ new2"
    "\<forall>x \<in> set new2. \<exists>c \<in> set cs. from_candidate c x"
    "\<forall>c \<in> set cs. \<exists>x \<in> set (sessions s'). session_key x = (sd_course_id c, sd_session_date c, sd_start_time c)"
    "distinct (map session_key (sessions t)) \<longrightarrow> distinct (map session_key (sessions s'))"
    using Cons.IH [OF more] by blast
  have "\<exists>x \<in> set (sessions s'). session_key x = (sd_course_id c, sd_session_date c, sd_start_time c)"
    using n1(4) n2(2) by auto
  then show ?case using n1 n2 by (intro conjI exI [of _ "new1 @ new2"]) auto
qed simp

lemma insert_sessions_Inr:
  assumes "insert_sessions ids d0 d1 s = Inr (u, s')"
  obtains new where "calendar_frame s' = calendar_frame s" "sessions s' = sessions s @ new"
    "\<forall>x \<in> set new. \<exists>c \<in> set (candidates ids d0 d1 s). from_candidate c x"
    "\<forall>c \<in> set (candidates ids d0 d1 s). \<exists>x \<in> set (sessions s'). session_key x = (sd_course_id c, sd_session_date c, sd_start_time c)"
    "distinct (map session_key (sessions s)) \<longrightarrow> distinct (map session_key (sessions s'))"
proof (cases "ids = [] \<or> candidates ids d0 d1 s = []")
  case True
  have "ids = [] \<Longrightarrow> candidates ids d0 d1 s = []" by (simp add: candidates_def)
  then show thesis using True assms that [of "[]"] by (auto simp: insert_sessions_def bind_tx_Inr split: if_splits)
next
  case False
  then obtain v where "for_tx insert_session (candidates ids d0 d1 s) s = Inr (v, s')"
    using assms by (auto simp: insert_sessions_def bind_tx_Inr)
  from insert_each_session_Inr [OF this] show thesis using that by blast
qed

section \<open>The calendar follows the timetable\<close>

lemma slot_for_rest [simp]: "slot_for (s\<lparr>sessions := t\<rparr>) x = slot_for s x" "pinned (s\<lparr>sessions := t\<rparr>) i = pinned s i"
  "follow_slot (s\<lparr>sessions := t\<rparr>) = follow_slot s"
  by (simp_all add: slot_for_def pinned_def follow_slot_def fun_eq_iff)

lemma follow_slot_keys [simp]:
  "session_key (follow_slot s x) = session_key x" "cs_id (follow_slot s x) = cs_id x"
  by (auto simp: follow_slot_def session_key_def split: option.splits)

lemma slot_for_follow [simp]: "slot_for s (follow_slot s x) = slot_for s x"
  by (auto simp: slot_for_def follow_slot_def split: option.splits)

lemma to_come_follow [simp]: "to_come cid d (follow_slot s x) = to_come cid d x"
  by (auto simp: to_come_def follow_slot_def split: option.splits)

lemma reconcile_Inr:
  assumes "reconcile_future_sessions_tx cid day s = Inr (u, s')"
  shows "sessions s' = delete_where (\<lambda>x. to_come cid day x \<and> slot_for s x = None \<and> \<not> pinned s (cs_id x))
      (update_where (to_come cid day) (follow_slot s) (sessions s)) \<and>
    calendar_frame s' = calendar_frame s"
  using assms by (auto simp: reconcile_future_sessions_tx_def bind_tx_Inr calendar_frame_def)

definition planned_cell :: "slot_cell list \<Rightarrow> course_session \<Rightarrow> bool" where
  "planned_cell cells x \<longleftrightarrow>
    (extract_dow (cs_session_date x), cs_start_time x, cs_end_time x, cs_venue x) \<in> set cells"

definition planned_time :: "slot_cell list \<Rightarrow> date \<Rightarrow> time_of_day \<Rightarrow> bool" where
  "planned_time cells d st \<longleftrightarrow> (\<exists>en v. (extract_dow d, st, en, v) \<in> set cells)"

text \<open>One session of the course in the days to come, after the change.\<close>

lemma replanned_session:
  assumes slots: "schedule_slots t = delete_where (\<lambda>x. ss_course_id x = cid) slots0 @ rows" "map cell_of rows = cells"
      "\<forall>r \<in> set rows. ss_course_id r = cid"
    and rec: "sessions s1 = delete_where (\<lambda>x. to_come cid day x \<and> slot_for t x = None \<and> \<not> pinned t (cs_id x))
      (update_where (to_come cid day) (follow_slot t) (sessions t))"
    and x: "x \<in> set (sessions s1)" "cs_course_id x = cid" "day < cs_session_date x"
  shows "planned_cell cells x \<or> pinned t (cs_id x) \<and> \<not> planned_time cells (cs_session_date x) (cs_start_time x)"
proof -
  have come: "to_come cid day x" using x(2,3) by (simp add: to_come_def)
  then have kept: "slot_for t x \<noteq> None \<or> pinned t (cs_id x)"
    and "x \<in> set (update_where (to_come cid day) (follow_slot t) (sessions t))"
    using x(1) unfolding rec by auto
  then obtain x0 where x0: "x = (if to_come cid day x0 then follow_slot t x0 else x0)"
    unfolding update_where_def set_map by blast
  have xf: "x = follow_slot t x0" using x0 come by (cases "to_come cid day x0") simp_all
  note day_slots = slots_of_day [OF slots]
  show ?thesis
  proof (cases "slot_for t x")
    case (Some slot)
    then have "slot \<in> set (schedule_slots t)" "slot_of_session cid (cs_session_date x) (cs_start_time x) slot"
      using fetch_by_Some [of _ "schedule_slots t" slot] x(2) by (auto simp: slot_for_def)
    moreover have "slot_for t x0 = Some slot" using Some unfolding xf by simp
    then have "ss_end_time slot = cs_end_time x" "ss_venue slot = cs_venue x"
      unfolding xf by (auto simp: follow_slot_def)
    ultimately show ?thesis unfolding planned_cell_def using day_slots by blast
  next
    case None
    then have "\<not> planned_time cells (cs_session_date x) (cs_start_time x)"
      unfolding planned_time_def day_slots using x(2) by (auto simp: slot_for_def fetch_by_None)
    then show ?thesis using kept None by simp
  qed
qed

text \<open>
  C24. The calendar follows the timetable. After a course's weekly timetable is replaced and somebody looks
  at a range of days, every coming day of the range has exactly one session for each cell of its weekday, with that
  cell's end and venue. Any other session of the course on such a day is one that a leave request or an
  attendance mark points to. No such session is lost, and the other courses' sessions and those of the past are
  untouched.
\<close>

theorem calendar_follows_timetable:
  assumes ok: "timetable_ok s"
    and change: "replace_weekly_schedule_tx cid cells day s = Inr (u, s1)"
    and look: "materialize_range day [cid] d0 d1 s1 = Inr (mat, s2)"
  shows "timetable_ok s2 \<and>
    (\<forall>d st. day < d \<and> d0 \<le> d \<and> d \<le> d1 \<and> planned_time cells d st \<longrightarrow> (\<exists>x \<in> set (sessions s2). session_key x = (cid, d, st))) \<and>
    (\<forall>x \<in> set (sessions s2). cs_course_id x = cid \<and> day < cs_session_date x \<longrightarrow>
      planned_cell cells x \<or> pinned s (cs_id x) \<and> \<not> planned_time cells (cs_session_date x) (cs_start_time x)) \<and>
    (\<forall>x \<in> set (sessions s). pinned s (cs_id x) \<longrightarrow>
      (\<exists>y \<in> set (sessions s2). cs_id y = cs_id x \<and> session_key y = session_key x)) \<and>
    (\<forall>x \<in> set (sessions s). cs_course_id x \<noteq> cid \<or> cs_session_date x \<le> day \<longrightarrow> x \<in> set (sessions s2))"
proof -
  obtain t where r: "replace_slots_tx cid cells s = Inr ((), t)" "reconcile_future_sessions_tx cid day t = Inr (u, s1)"
    using change by (auto simp: replace_weekly_schedule_tx_def bind_tx_Inr)
  obtain rows where slots: "schedule_slots t = delete_where (\<lambda>x. ss_course_id x = cid) (schedule_slots s) @ rows"
      "map cell_of rows = cells" "\<forall>r \<in> set rows. ss_course_id r = cid"
    and rest: "calendar_rest t = calendar_rest s"
    and keys: "distinct (map slot_key (schedule_slots s)) \<longrightarrow> distinct (map slot_key (schedule_slots t))"
    using replace_slots_tx_Inr [OF r(1)] .
  have t: "sessions t = sessions s" "pinned t = pinned s"
    using rest by (auto simp: calendar_rest_def pinned_def fun_eq_iff)
  note rec = reconcile_Inr [OF r(2), THEN conjunct1] and frame1 = reconcile_Inr [OF r(2), THEN conjunct2]
  obtain new where n: "calendar_frame s2 = calendar_frame s1" "sessions s2 = sessions s1 @ new"
    "\<forall>x \<in> set new. \<exists>c \<in> set (candidates [cid] (max d0 day) d1 s1). from_candidate c x"
    "max d0 day \<le> d1 \<longrightarrow> (\<forall>c \<in> set (candidates [cid] (max d0 day) d1 s1). \<exists>x \<in> set (sessions s2).
      session_key x = (sd_course_id c, sd_session_date c, sd_start_time c))"
    "distinct (map session_key (sessions s1)) \<longrightarrow> distinct (map session_key (sessions s2))"
  proof (cases "max d0 day > d1")
    case True
    then have "s2 = s1" using look by (simp add: materialize_range_def Let_def)
    then show thesis using True by (intro that [of "[]"]) auto
  next
    case False
    then obtain v where "insert_sessions [cid] (max d0 day) d1 s1 = Inr (v, s2)"
      using look by (auto simp: materialize_range_def Let_def bind_tx_Inr)
    then show thesis by (rule insert_sessions_Inr) (rule that, simp_all)
  qed
  have slots1: "schedule_slots s1 = schedule_slots t" using frame1 by (simp add: calendar_frame_def)
  show ?thesis
  proof (intro conjI ballI allI impI)
    have "map session_key (update_where (to_come cid day) (follow_slot t) (sessions t)) = map session_key (sessions s)"
      by (simp add: map_update_where t(1))
    then have "distinct (map session_key (update_where (to_come cid day) (follow_slot t) (sessions t)))"
      using ok by (simp add: timetable_ok_def)
    then have "distinct (map session_key (sessions s1))" unfolding rec delete_where_def by (rule distinct_map_filter)
    moreover have "schedule_slots s2 = schedule_slots t" using n(1) slots1 by (simp add: calendar_frame_def)
    ultimately show "timetable_ok s2" using n(5) keys ok unfolding timetable_ok_def by simp
  next
    fix d st assume d: "day < d \<and> d0 \<le> d \<and> d \<le> d1 \<and> planned_time cells d st"
    then obtain x where x: "x \<in> set (schedule_slots s1)" "slot_of_session cid d st x"
      unfolding planned_time_def slots_of_day [OF slots] slots1 by blast
    let ?c = "\<lparr>sd_course_id = cid, sd_session_date = d, sd_start_time = st, sd_end_time = ss_end_time x, sd_venue = ss_venue x\<rparr>"
    have "?c \<in> set (candidates [cid] (max d0 day) d1 s1)"
      unfolding candidates_iff using x d by (intro bexI [of _ x]) (auto simp: slot_of_session_def)
    then show "\<exists>x \<in> set (sessions s2). session_key x = (cid, d, st)" using n(4) d by fastforce
  next
    fix x assume x: "x \<in> set (sessions s2)" "cs_course_id x = cid \<and> day < cs_session_date x"
    show "planned_cell cells x \<or> pinned s (cs_id x) \<and> \<not> planned_time cells (cs_session_date x) (cs_start_time x)"
    proof (cases "x \<in> set (sessions s1)")
      case True
      then show ?thesis using replanned_session [OF slots rec True] x(2) t(2) by simp
    next
      case False
      then obtain c where c: "c \<in> set (candidates [cid] (max d0 day) d1 s1)" "from_candidate c x" using x(1) n(2,3) by auto
      then have "planned_cell cells x"
        unfolding planned_cell_def slots_of_day [OF slots] candidates_iff slots1
        by (auto simp: from_candidate_def session_key_def slot_of_session_def)
      then show ?thesis ..
    qed
  next
    fix x assume x: "x \<in> set (sessions s)" "pinned s (cs_id x)"
    let ?y = "if to_come cid day x then follow_slot t x else x"
    have "?y \<in> set (sessions s1)" unfolding rec using x t by (auto simp: update_where_def)
    moreover have "cs_id ?y = cs_id x" "session_key ?y = session_key x" by simp_all
    ultimately show "\<exists>y \<in> set (sessions s2). cs_id y = cs_id x \<and> session_key y = session_key x" using n(2) by auto
  next
    fix x assume x: "x \<in> set (sessions s)" "cs_course_id x \<noteq> cid \<or> cs_session_date x \<le> day"
    then have "\<not> to_come cid day x" by (auto simp: to_come_def)
    then have "x \<in> set (sessions s1)" unfolding rec using x t(1) by (force simp: update_where_def)
    then show "x \<in> set (sessions s2)" using n(2) by simp
  qed
qed

definition replanned :: "unit \<times> db" where
  "replanned = projr (replace_weekly_schedule_tx 5 [(5, 10, 20, Some ''Hall A'')] 0 empty_db)"

definition looked_up :: "materialized_range \<times> db" where
  "looked_up = projr (materialize_range 0 [5] 0 7 (snd replanned))"

lemma run_parts: "\<not> isl r \<Longrightarrow> r = Inr (fst (projr r), snd (projr r))"
  by (cases r) auto

lemma calendar_follows_timetable_witness:
  "timetable_ok (snd looked_up) \<and> (\<exists>x \<in> set (sessions (snd looked_up)). session_key x = (5, 1, 10)) \<and>
   map cs_venue (sessions (snd looked_up)) = [Some ''Hall A'']"
proof -
  have "\<not> isl (replace_weekly_schedule_tx 5 [(5, 10, 20, Some ''Hall A'')] 0 empty_db)" by code_simp
  then have change: "replace_weekly_schedule_tx 5 [(5, 10, 20, Some ''Hall A'')] 0 empty_db = Inr (fst replanned, snd replanned)"
    unfolding replanned_def by (rule run_parts)
  have "\<not> isl (materialize_range 0 [5] 0 7 (snd replanned))" by code_simp
  then have look: "materialize_range 0 [5] 0 7 (snd replanned) = Inr (fst looked_up, snd looked_up)"
    unfolding looked_up_def by (rule run_parts)
  have "timetable_ok empty_db" by (simp add: timetable_ok_def empty_db_def)
  note follows = calendar_follows_timetable [OF this change look]
  have "planned_time [(5, 10, 20, Some ''Hall A'')] 1 10" by (simp add: planned_time_def extract_dow_def)
  moreover have "map cs_venue (sessions (snd looked_up)) = [Some ''Hall A'']" by code_simp
  ultimately show ?thesis using follows by auto
qed

end
