(* ===== verification/Roster.thy ===== *)
theory Roster
  imports Calendar Enrolments
begin

text \<open>
  Leave and attendance (\<open>src/modules/leave\<close>, \<open>src/modules/attendance\<close>): a member asks for leave from one
  session, the course's coach decides, an approval is projected onto the attendance table in the same
  transaction, and an approved leave may be made up in another session of the course that has a seat.
  Marking attendance never overwrites an approved leave: a check before the batch and a guard at each
  write. Writing a date as text is chrono's, the argument \<open>show_date\<close>.
\<close>

section \<open>Rules\<close>

definition decide_not_pending :: string where "decide_not_pending = utf8 [229, 131, 133, 229, 190, 133, 229, 175, 169, 230, 160, 184, 229, 129, 135, 229, 150, 174, 229, 143, 175, 229, 175, 169, 230, 160, 184]"
definition makeup_already_booked :: string where "makeup_already_booked = utf8 [230, 173, 164, 229, 129, 135, 229, 150, 174, 229, 183, 178, 233, 160, 144, 231, 180, 132, 233, 129, 142, 232, 163, 156, 232, 170, 178]"
definition leave_not_found :: string where "leave_not_found = utf8 [232, 171, 139, 229, 129, 135, 231, 148, 179, 232, 171, 139, 228, 184, 141, 229, 173, 152, 229, 156, 168]"
definition session_not_found :: string where "session_not_found = utf8 [229, 160, 180, 230, 172, 161, 228, 184, 141, 229, 173, 152, 229, 156, 168]"

record leave_decision_context =
  lc_status :: leave_status
  lc_enrolment_id :: uuid
  lc_session_id :: uuid
  lc_user_id :: uuid
  lc_course_id :: uuid
  lc_course_name :: string
  lc_coach_id :: "uuid option"
  lc_session_date :: date
  lc_start_time :: time_of_day
  lc_enrolment_active :: bool

record leave_for_makeup =
  lm_id :: uuid
  lm_session_id :: uuid
  lm_user_id :: uuid
  lm_course_id :: uuid
  lm_course_name :: string
  lm_status :: leave_status
  lm_makeup_session_id :: "uuid option"
  lm_session_date :: date
  lm_start_time :: time_of_day
  lm_reason :: "string option"
  lm_enrolment_active :: bool

definition parse_decision :: "string \<Rightarrow> app_error + leave_status" where
  "parse_decision x =
    (if x = ''approved'' then Inr Leave_Approved
     else if x = ''rejected'' then Inr Leave_Rejected
     else Inl (Validation (utf8 [115, 116, 97, 116, 117, 115, 32, 229, 131, 133, 230, 142, 165, 229, 143, 151, 32, 97, 112, 112, 114, 111, 118, 101, 100, 32, 230, 136, 150, 32, 114, 101, 106, 101, 99, 116, 101, 100])))"

definition check_decidable :: "leave_decision_context \<Rightarrow> leave_status \<Rightarrow> app_error + unit" where
  "check_decidable ctx decision =
    (if lc_status ctx \<noteq> Leave_Pending then Inl (Conflict decide_not_pending)
     else if decision = Leave_Approved \<and> \<not> lc_enrolment_active ctx
       then Inl (Conflict (utf8 [229, 160, 177, 229, 144, 141, 229, 183, 178, 229, 143, 150, 230, 182, 136, 239, 188, 140, 231, 132, 161, 230, 179, 149, 230, 160, 184, 229, 135, 134, 232, 171, 139, 229, 129, 135]))
     else Inr ())"

definition check_makeup_source :: "leave_for_makeup \<Rightarrow> app_error + unit" where
  "check_makeup_source leave =
    (if lm_status leave \<noteq> Leave_Approved then Inl (Conflict (utf8 [229, 131, 133, 229, 183, 178, 230, 160, 184, 229, 135, 134, 231, 154, 132, 229, 129, 135, 229, 150, 174, 229, 143, 175, 233, 160, 144, 231, 180, 132, 232, 163, 156, 232, 170, 178]))
     else if lm_makeup_session_id leave \<noteq> None then Inl (Conflict makeup_already_booked)
     else if \<not> lm_enrolment_active leave then Inl (Conflict (utf8 [229, 160, 177, 229, 144, 141, 229, 183, 178, 229, 143, 150, 230, 182, 136, 239, 188, 140, 231, 132, 161, 230, 179, 149, 233, 160, 144, 231, 180, 132, 232, 163, 156, 232, 170, 178]))
     else Inr ())"

definition check_makeup_target :: "leave_for_makeup \<Rightarrow> course_session \<Rightarrow> studio_now \<Rightarrow> app_error + unit" where
  "check_makeup_target leave target at =
    (if cs_course_id target \<noteq> lm_course_id leave then Inl (Validation (utf8 [232, 163, 156, 232, 170, 178, 229, 160, 180, 230, 172, 161, 233, 160, 136, 231, 130, 186, 229, 144, 140, 228, 184, 128, 232, 170, 178, 231, 168, 139]))
     else if cs_id target = lm_session_id leave then Inl (Validation (utf8 [232, 163, 156, 232, 170, 178, 229, 160, 180, 230, 172, 161, 228, 184, 141, 229, 143, 175, 231, 130, 186, 232, 171, 139, 229, 129, 135, 229, 160, 180, 230, 172, 161]))
     else require_not_started (sn_tz at) (sn_now at) (cs_session_date target) (cs_start_time target)
       ''session time'' (Validation (utf8 [232, 163, 156, 232, 170, 178, 229, 160, 180, 230, 172, 161, 229, 183, 178, 233, 150, 139, 229, 167, 139])))"

section \<open>Leave rows and their projection\<close>

text \<open>The read projection: the row with its course, its session and the session of its makeup.\<close>

record leave_view =
  lv_row :: leave_request
  lv_course_id :: uuid
  lv_course_name :: string
  lv_session_date :: date
  lv_start_time :: time_of_day
  lv_makeup_session_date :: "date option"
  lv_makeup_start_time :: "time_of_day option"

definition enrolment_of :: "leave_request \<Rightarrow> db \<Rightarrow> enrolment option" where
  "enrolment_of l s = fetch_by (\<lambda>e. e_id e = lr_enrolment_id l) (enrolments s)"

definition leave_view_of :: "db \<Rightarrow> leave_request \<Rightarrow> leave_view option" where
  "leave_view_of s l =
    Option.bind (enrolment_of l s) (\<lambda>e. Option.bind (course_by_id (e_course_id e) s) (\<lambda>c.
    map_option (\<lambda>x. let makeup = Option.bind (lr_makeup_session_id l) (\<lambda>i. session_by_id i s) in
      \<lparr>lv_row = l, lv_course_id = e_course_id e, lv_course_name = c_name c,
       lv_session_date = cs_session_date x, lv_start_time = cs_start_time x,
       lv_makeup_session_date = map_option cs_session_date makeup,
       lv_makeup_start_time = map_option cs_start_time makeup\<rparr>)
      (session_by_id (lr_session_id l) s)))"

record session_context =
  sq_session_id :: uuid
  sq_course :: uuid
  sq_course_name :: string
  sq_session_date :: date
  sq_session_start :: time_of_day

definition find_session_context :: "uuid \<Rightarrow> db \<Rightarrow> session_context option" where
  "find_session_context sid s = Option.bind (session_by_id sid s) (\<lambda>x. map_option (\<lambda>c.
    \<lparr>sq_session_id = cs_id x, sq_course = cs_course_id x, sq_course_name = c_name c,
     sq_session_date = cs_session_date x, sq_session_start = cs_start_time x\<rparr>)
    (course_by_id (cs_course_id x) s))"

definition find_active_enrolment :: "uuid \<Rightarrow> uuid \<Rightarrow> db \<Rightarrow> uuid option" where
  "find_active_enrolment uid cid s =
    map_option e_id (fetch_by (\<lambda>e. e_user_id e = uid \<and> e_course_id e = cid) (active_enrolments s))"

definition live_leave :: "leave_request \<Rightarrow> bool" where
  "live_leave l = (lr_status l = Leave_Pending \<or> lr_status l = Leave_Approved)"

definition insert_leave :: "uuid \<Rightarrow> uuid \<Rightarrow> string option \<Rightarrow> leave_view sql" where
  "insert_leave eid sid reason = bind_tx fresh_uuid (\<lambda>i s.
    let row = \<lparr>lr_id = i, lr_enrolment_id = eid, lr_session_id = sid, lr_reason = reason,
      lr_status = Leave_Pending, lr_makeup_session_id = None, lr_decided_by = None, lr_decided_at = None,
      lr_created_at = db_now s\<rparr>
    in if i \<in> lr_id ` set (leave_requests s) then Inl (UniqueViolation ''leave_requests_pkey'')
       else if list_ex (\<lambda>l. lr_enrolment_id l = eid \<and> lr_session_id l = sid \<and> live_leave l) (leave_requests s)
         then Inl (UniqueViolation ''uniq_leave_requests_active'')
       else (case leave_view_of s row of
          None \<Rightarrow> Inl RowNotFound
        | Some v \<Rightarrow> Inr (v, s\<lparr>leave_requests := leave_requests s @ [row]\<rparr>)))"

definition leave_owner :: "uuid \<Rightarrow> db \<Rightarrow> (leave_request \<times> uuid) option" where
  "leave_owner i s = Option.bind (fetch_by (\<lambda>l. lr_id l = i) (leave_requests s)) (\<lambda>l.
    map_option (\<lambda>e. (l, e_user_id e)) (enrolment_of l s))"

definition pending_leave :: "uuid \<Rightarrow> leave_request \<Rightarrow> bool" where
  "pending_leave i l = (lr_id l = i \<and> lr_status l = Leave_Pending)"

definition cancel_if_pending_tx :: "uuid \<Rightarrow> leave_request option sql" where
  "cancel_if_pending_tx i = (\<lambda>s. Inr (map_option cancel_leave (fetch_by (pending_leave i) (leave_requests s)),
    s\<lparr>leave_requests := update_where (pending_leave i) cancel_leave (leave_requests s)\<rparr>))"

definition decide_leave :: "leave_status \<Rightarrow> uuid \<Rightarrow> instant \<Rightarrow> leave_request \<Rightarrow> leave_request" where
  "decide_leave status by at l = l\<lparr>lr_status := status, lr_decided_by := Some by, lr_decided_at := Some at\<rparr>"

definition decide_row_tx :: "uuid \<Rightarrow> leave_status \<Rightarrow> uuid \<Rightarrow> leave_view option sql" where
  "decide_row_tx i status by = (\<lambda>s. let f = decide_leave status by (db_now s) in
    Inr (Option.bind (fetch_by (pending_leave i) (leave_requests s)) (\<lambda>l. leave_view_of s (f l)),
      s\<lparr>leave_requests := update_where (pending_leave i) f (leave_requests s)\<rparr>))"

definition find_enrolment_id_tx :: "uuid \<Rightarrow> uuid sql" where
  "find_enrolment_id_tx i = (\<lambda>s. case fetch_by (\<lambda>l. lr_id l = i) (leave_requests s) of
     None \<Rightarrow> Inl RowNotFound | Some l \<Rightarrow> Inr (lr_enrolment_id l, s))"

text \<open>The two decision reads keep a cancelled enrolment's request in sight.\<close>

definition find_decision_context :: "uuid \<Rightarrow> db \<Rightarrow> leave_decision_context option" where
  "find_decision_context i s =
    Option.bind (fetch_by (\<lambda>l. lr_id l = i) (leave_requests s)) (\<lambda>l.
    Option.bind (enrolment_of l s) (\<lambda>e. Option.bind (course_by_id (e_course_id e) s) (\<lambda>c.
    map_option (\<lambda>x. \<lparr>lc_status = lr_status l, lc_enrolment_id = lr_enrolment_id l,
      lc_session_id = lr_session_id l, lc_user_id = e_user_id e, lc_course_id = e_course_id e,
      lc_course_name = c_name c, lc_coach_id = c_coach_id c, lc_session_date = cs_session_date x,
      lc_start_time = cs_start_time x, lc_enrolment_active = leave_of_active s l\<rparr>)
      (session_by_id (lr_session_id l) s))))"

definition find_for_makeup_tx :: "uuid \<Rightarrow> leave_for_makeup option sql" where
  "find_for_makeup_tx i = get_tx (\<lambda>s.
    Option.bind (fetch_by (\<lambda>l. lr_id l = i) (leave_requests s)) (\<lambda>l.
    Option.bind (enrolment_of l s) (\<lambda>e. Option.bind (course_by_id (e_course_id e) s) (\<lambda>c.
    map_option (\<lambda>x. \<lparr>lm_id = lr_id l, lm_session_id = lr_session_id l, lm_user_id = e_user_id e,
      lm_course_id = e_course_id e, lm_course_name = c_name c, lm_status = lr_status l,
      lm_makeup_session_id = lr_makeup_session_id l, lm_session_date = cs_session_date x,
      lm_start_time = cs_start_time x, lm_reason = lr_reason l, lm_enrolment_active = leave_of_active s l\<rparr>)
      (session_by_id (lr_session_id l) s)))))"

definition open_makeup :: "uuid \<Rightarrow> leave_request \<Rightarrow> bool" where
  "open_makeup i l = (lr_id l = i \<and> lr_status l = Leave_Approved \<and> lr_makeup_session_id l = None)"

definition set_makeup :: "uuid \<Rightarrow> leave_request \<Rightarrow> leave_request" where
  "set_makeup sid l = l\<lparr>lr_makeup_session_id := Some sid\<rparr>"

definition set_makeup_session_tx :: "uuid \<Rightarrow> uuid \<Rightarrow> leave_view option sql" where
  "set_makeup_session_tx i sid = (\<lambda>s.
    Inr (Option.bind (fetch_by (open_makeup i) (leave_requests s)) (\<lambda>l. leave_view_of s (set_makeup sid l)),
      s\<lparr>leave_requests := update_where (open_makeup i) (set_makeup sid) (leave_requests s)\<rparr>))"

section \<open>Attendance records\<close>

definition approved_for :: "db \<Rightarrow> uuid \<Rightarrow> uuid \<Rightarrow> bool" where
  "approved_for s sid eid = list_ex (\<lambda>l. lr_enrolment_id l = eid \<and> lr_session_id l = sid \<and>
     lr_status l = Leave_Approved) (leave_requests s)"

definition marks :: "uuid \<Rightarrow> uuid \<Rightarrow> attendance_record \<Rightarrow> bool" where
  "marks sid eid a = (a_session_id a = sid \<and> a_enrolment_id a = eid)"

text \<open>The upsert with the guard of its \<open>ON CONFLICT\<close>; the number of rows it wrote.\<close>

definition upsert_tx :: "uuid \<Rightarrow> uuid \<Rightarrow> attendance_status \<Rightarrow> uuid \<Rightarrow> nat sql" where
  "upsert_tx sid eid status by = bind_tx fresh_uuid (\<lambda>i s.
    case fetch_by (marks sid eid) (attendance s) of
      None \<Rightarrow>
        if i \<in> a_id ` set (attendance s) then Inl (UniqueViolation ''attendance_records_pkey'')
        else Inr (1, s\<lparr>attendance := attendance s @ [\<lparr>a_id = i, a_session_id = sid, a_enrolment_id = eid,
          a_status = status, a_marked_by = Some by, a_marked_at = db_now s\<rparr>]\<rparr>)
    | Some a \<Rightarrow>
        if status = Att_Leave \<or> a_status a \<noteq> Att_Leave \<or> \<not> approved_for s sid eid
        then Inr (1, s\<lparr>attendance := update_where (marks sid eid)
          (\<lambda>x. x\<lparr>a_status := status, a_marked_by := Some by, a_marked_at := db_now s\<rparr>) (attendance s)\<rparr>)
        else Inr (0, s))"

definition project_approved_leave_tx :: "uuid \<Rightarrow> uuid \<Rightarrow> uuid \<Rightarrow> unit sql" where
  "project_approved_leave_tx sid eid by = bind_tx (upsert_tx sid eid Att_Leave by) (\<lambda>_. return_tx ())"

record attendance_entry =
  ae_enrolment_id :: uuid
  ae_status :: string

type_synonym marking_plan = "(uuid \<times> attendance_status) list"

definition approved_leave_overwrite :: string where
  "approved_leave_overwrite = ''cannot overwrite an approved leave with present/absent''"

fun parse_marks :: "attendance_entry list \<Rightarrow> app_error + marking_plan" where
  "parse_marks [] = Inr []"
| "parse_marks (r # rs) = (case attendance_status_from_str (ae_status r) of
     None \<Rightarrow> Inl (Validation (''invalid attendance status: '' @ ae_status r))
   | Some status \<Rightarrow>
       (case parse_marks rs of Inl e \<Rightarrow> Inl e | Inr rest \<Rightarrow> Inr ((ae_enrolment_id r, status) # rest)))"

definition marking_plan_of :: "marking_plan \<Rightarrow> uuid set \<Rightarrow> uuid set \<Rightarrow> app_error + marking_plan" where
  "marking_plan_of parsed valid approved =
    (if set (map fst parsed) \<noteq> valid
     then Inl (Validation (''all enrolments must belong to this session'' @ [CHR 0x27] @ ''s course and be active''))
     else if list_ex (\<lambda>(i, status). status \<noteq> Att_Leave \<and> i \<in> approved) parsed
       then Inl (Validation approved_leave_overwrite)
     else Inr parsed)"

definition find_active_enrolment_ids_in :: "uuid \<Rightarrow> uuid list \<Rightarrow> db \<Rightarrow> uuid list" where
  "find_active_enrolment_ids_in cid ids s =
    map e_id (filter (\<lambda>e. e_course_id e = cid \<and> e_id e \<in> set ids) (active_enrolments s))"

definition find_approved_leave_enrolment_ids_tx :: "uuid \<Rightarrow> uuid list \<Rightarrow> db \<Rightarrow> uuid list" where
  "find_approved_leave_enrolment_ids_tx sid ids s = map lr_enrolment_id (filter (\<lambda>l.
     lr_session_id l = sid \<and> lr_enrolment_id l \<in> set ids \<and> lr_status l = Leave_Approved) (leave_requests s))"

definition mark_one_tx :: "uuid \<Rightarrow> uuid \<Rightarrow> uuid \<times> attendance_status \<Rightarrow> unit app" where
  "mark_one_tx sid by entry =
    bind_tx (db_try (upsert_tx sid (fst entry) (snd entry) by)) (\<lambda>affected.
    ensure_tx (affected \<noteq> 0) (Validation approved_leave_overwrite))"

definition mark_tx :: "uuid \<Rightarrow> uuid \<Rightarrow> marking_plan \<Rightarrow> uuid \<Rightarrow> unit app" where
  "mark_tx sid cid parsed by =
    (let ids = map fst parsed in
    bind_tx (if parsed = [] then return_tx ({}, {})
      else bind_tx (get_tx (find_active_enrolment_ids_in cid ids)) (\<lambda>valid.
        bind_tx (get_tx (find_approved_leave_enrolment_ids_tx sid ids)) (\<lambda>approved.
        return_tx (set valid, set approved)))) (\<lambda>(valid, approved).
    bind_tx (of_result_tx (marking_plan_of parsed valid approved)) (\<lambda>entries.
    bind_tx (for_tx (mark_one_tx sid by) entries) (\<lambda>_. return_tx ()))))"

record roster_row =
  rs_enrolment_id :: uuid
  rs_user_id :: uuid
  rs_user_name :: string
  rs_attendance_status :: "attendance_status option"

definition find_roster :: "uuid \<Rightarrow> uuid \<Rightarrow> db \<Rightarrow> roster_row list" where
  "find_roster cid sid s =
    sort_by_name rs_user_name (sort_key rs_enrolment_id (List.map_filter (\<lambda>e. map_option (\<lambda>u.
        \<lparr>rs_enrolment_id = e_id e, rs_user_id = u_id u, rs_user_name = u_name u,
         rs_attendance_status = map_option a_status (fetch_by (marks sid (e_id e)) (attendance s))\<rparr>)
        (fetch_by (\<lambda>u. u_id u = e_user_id e) (users s)))
      (filter (\<lambda>e. e_course_id e = cid) (active_enrolments s))))"

definition find_session_course :: "uuid \<Rightarrow> db \<Rightarrow> (course_session \<times> course) option" where
  "find_session_course sid s = Option.bind (session_by_id sid s) (\<lambda>x.
     map_option (\<lambda>c. (x, c)) (course_by_id (cs_course_id x) s))"

definition session_course_for :: "auth_user \<Rightarrow> uuid \<Rightarrow> (course_session \<times> course) app" where
  "session_course_for auth sid =
    bind_tx (get_tx (find_session_course sid)) (\<lambda>r.
    bind_tx (of_option_tx (NotFound ''session not found'') r) (\<lambda>x.
    bind_tx (require_course_coach auth (c_coach_id (snd x)) ''not the coach for this course'') (\<lambda>_.
    return_tx x)))"

definition get_roster :: "auth_user \<Rightarrow> uuid \<Rightarrow> roster_row list app" where
  "get_roster auth sid = bind_tx (session_course_for auth sid) (\<lambda>x.
    get_tx (find_roster (cs_course_id (fst x)) sid))"

definition bulk_upsert_attendance ::
  "studio_now \<Rightarrow> auth_user \<Rightarrow> uuid \<Rightarrow> attendance_entry list \<Rightarrow> roster_row list handler" where
  "bulk_upsert_attendance at auth sid entries = commit_tx (
    bind_tx (session_course_for auth sid) (\<lambda>x.
    bind_tx (of_result_tx (require_started (sn_tz at) (sn_now at) (cs_session_date (fst x))
      (cs_start_time (fst x)) ''session time'' (Validation (utf8 [229, 160, 180, 230, 172, 161, 229, 176, 154, 230, 156, 170, 233, 150, 139, 229, 167, 139, 239, 188, 140, 231, 132, 161, 230, 179, 149, 233, 187, 158, 229, 144, 141])))) (\<lambda>_.
    bind_tx (of_result_tx (parse_marks entries)) (\<lambda>parsed.
    bind_tx (mark_tx sid (cs_course_id (fst x)) parsed (au_user_id auth)) (\<lambda>_.
    get_tx (find_roster (cs_course_id (fst x)) sid))))))"

record student_course =
  sb_course_id :: uuid
  sb_course_name :: string
  sb_enrolment_id :: uuid

record my_student =
  ms_user_id :: uuid
  ms_name :: string
  ms_phone :: "string option"
  ms_courses :: "student_course list"

definition courses_of_student :: "uuid list \<Rightarrow> db \<Rightarrow> user \<Rightarrow> student_course list" where
  "courses_of_student scope s u = sort_by_name sb_course_name
    [\<lparr>sb_course_id = c_id c, sb_course_name = c_name c, sb_enrolment_id = e_id e\<rparr>.
      e \<leftarrow> active_enrolments s, e_user_id e = u_id u,
      c \<leftarrow> courses s, c_id c = e_course_id e, c_id c \<in> set scope]"

definition find_my_students :: "coach_scope \<Rightarrow> db \<Rightarrow> my_student list" where
  "find_my_students scope s = filter (\<lambda>m. ms_courses m \<noteq> [])
    (map (\<lambda>u. \<lparr>ms_user_id = u_id u, ms_name = u_name u, ms_phone = u_phone u,
        ms_courses = courses_of_student (cp_course_ids scope) s u\<rparr>)
      (sort_by_name u_name (sort_key u_id (users s))))"

definition my_students :: "auth_user \<Rightarrow> my_student list app" where
  "my_students auth = bind_tx (resolve_scope auth) (\<lambda>r. case r of
     Some scope \<Rightarrow> get_tx (find_my_students scope) | None \<Rightarrow> return_tx [])"

section \<open>The leave handlers\<close>

text \<open>The three makeup columns of a response are all there or all absent.\<close>

definition makeup_info ::
  "uuid option \<Rightarrow> date option \<Rightarrow> time_of_day option \<Rightarrow> (uuid \<times> date \<times> time_of_day) option" where
  "makeup_info sid d st = (case (sid, d, st) of (Some i, Some d, Some t) \<Rightarrow> Some (i, d, t) | _ \<Rightarrow> None)"

definition leave_response :: "leave_view \<Rightarrow> leave_view" where
  "leave_response v = (let makeup = makeup_info (lr_makeup_session_id (lv_row v)) (lv_makeup_session_date v)
      (lv_makeup_start_time v)
    in v\<lparr>lv_row := (lv_row v)\<lparr>lr_makeup_session_id := map_option fst makeup\<rparr>,
      lv_makeup_session_date := map_option (\<lambda>m. fst (snd m)) makeup,
      lv_makeup_start_time := map_option (\<lambda>m. snd (snd m)) makeup\<rparr>)"

definition create_leave_request :: "studio_now \<Rightarrow> auth_user \<Rightarrow> uuid \<Rightarrow> string option \<Rightarrow> leave_view handler" where
  "create_leave_request at auth sid reason = commit_tx (
    bind_tx (get_tx (find_session_context sid)) (\<lambda>r.
    bind_tx (of_option_tx (NotFound session_not_found) r) (\<lambda>x.
    bind_tx (get_tx (find_active_enrolment (au_user_id auth) (sq_course x))) (\<lambda>e.
    bind_tx (of_option_tx (NotFound (utf8 [230, 156, 170, 229, 160, 177, 229, 144, 141, 230, 173, 164, 232, 170, 178, 231, 168, 139])) e) (\<lambda>eid.
    bind_tx (of_result_tx (require_not_started (sn_tz at) (sn_now at) (sq_session_date x) (sq_session_start x)
      ''session time'' (Validation (utf8 [229, 160, 180, 230, 172, 161, 229, 183, 178, 233, 150, 139, 229, 167, 139, 239, 188, 140, 231, 132, 161, 230, 179, 149, 232, 171, 139, 229, 129, 135])))) (\<lambda>_.
    bind_tx (map_err_tx (conflict_on_unique (utf8 [230, 173, 164, 229, 160, 180, 230, 172, 161, 229, 183, 178, 230, 156, 137, 232, 171, 139, 229, 129, 135, 231, 180, 128, 233, 140, 132])) (insert_leave eid sid reason)) (\<lambda>v.
    return_tx (leave_response v))))))))"

definition list_my_leave_requests :: "uuid \<Rightarrow> leave_view list app" where
  "list_my_leave_requests uid = get_tx (\<lambda>s.
    map leave_response (List.map_filter (leave_view_of s) (Notices.newest_first lr_created_at (filter
      (\<lambda>l. case enrolment_of l s of Some e \<Rightarrow> e_user_id e = uid | None \<Rightarrow> False) (leave_requests s)))))"

definition cancel_leave_request :: "auth_user \<Rightarrow> uuid \<Rightarrow> unit handler" where
  "cancel_leave_request auth i = commit_tx (
    bind_tx (get_tx (leave_owner i)) (\<lambda>r.
    bind_tx (of_option_tx (NotFound leave_not_found) r) (\<lambda>owner.
    bind_tx (of_result_tx (owner_only auth (snd owner) (utf8 [229, 131, 133, 230, 156, 172, 228, 186, 186, 229, 143, 175, 229, 143, 150, 230, 182, 136, 232, 171, 139, 229, 129, 135, 231, 148, 179, 232, 171, 139]))) (\<lambda>_.
    bind_tx (db_try (cancel_if_pending_tx i)) (\<lambda>u.
    bind_tx (of_option_tx (Conflict (utf8 [229, 131, 133, 229, 190, 133, 229, 175, 169, 230, 160, 184, 229, 129, 135, 229, 150, 174, 229, 143, 175, 229, 143, 150, 230, 182, 136])) u) (\<lambda>_. return_tx ()))))))"

definition decide_tx :: "uuid \<Rightarrow> leave_status \<Rightarrow> uuid \<Rightarrow> leave_view option sql" where
  "decide_tx i new_status by =
    bind_tx (decide_row_tx i new_status by) (\<lambda>r. case r of
      None \<Rightarrow> return_tx None
    | Some updated \<Rightarrow>
        bind_tx (if new_status = Leave_Approved
          then bind_tx (find_enrolment_id_tx i) (\<lambda>eid.
            project_approved_leave_tx (lr_session_id (lv_row updated)) eid by)
          else return_tx ()) (\<lambda>_. return_tx (Some updated)))"

definition decide_checked_tx ::
  "auth_user \<Rightarrow> uuid \<Rightarrow> string \<Rightarrow> (leave_view \<times> leave_decision_context \<times> leave_status) app" where
  "decide_checked_tx auth i new_status_str =
    bind_tx (of_result_tx (parse_decision new_status_str)) (\<lambda>new_status.
    bind_tx (get_tx (find_decision_context i)) (\<lambda>r.
    bind_tx (of_option_tx (NotFound leave_not_found) r) (\<lambda>ctx.
    bind_tx (require_course_coach auth (lc_coach_id ctx) (utf8 [233, 157, 158, 230, 156, 172, 232, 170, 178, 230, 149, 153, 231, 183, 180])) (\<lambda>_.
    bind_tx (of_result_tx (check_decidable ctx new_status)) (\<lambda>_.
    bind_tx (db_try (decide_tx i new_status (au_user_id auth))) (\<lambda>u.
    bind_tx (of_option_tx (Conflict decide_not_pending) u) (\<lambda>updated.
    return_tx (leave_response updated, ctx, new_status))))))))"

definition decide_leave_request ::
  "(date \<Rightarrow> string) \<Rightarrow> auth_user \<Rightarrow> uuid \<Rightarrow> string \<Rightarrow> (leave_view \<times> leave_decision_context \<times> leave_status) handler" where
  "decide_leave_request show_date auth i new_status_str =
    then_deliver (commit_tx (decide_checked_tx auth i new_status_str)) (\<lambda>(updated, ctx, new_status).
      leave_request_decided show_date (lc_user_id ctx) (new_status = Leave_Approved) (lc_course_name ctx)
        (lc_session_date ctx))"

definition book_makeup :: "studio_now \<Rightarrow> auth_user \<Rightarrow> uuid \<Rightarrow> uuid \<Rightarrow> leave_view handler" where
  "book_makeup at auth i sid = commit_tx (
    bind_tx (db_try (find_for_makeup_tx i)) (\<lambda>r.
    bind_tx (of_option_tx (NotFound leave_not_found) r) (\<lambda>leave.
    bind_tx (of_result_tx (owner_only auth (lm_user_id leave) (utf8 [229, 131, 133, 230, 156, 172, 228, 186, 186, 229, 143, 175, 233, 160, 144, 231, 180, 132, 232, 163, 156, 232, 170, 178]))) (\<lambda>_.
    bind_tx (of_result_tx (check_makeup_source leave)) (\<lambda>_.
    bind_tx (db_try (lock_session_tx sid)) (\<lambda>l.
    bind_tx (of_option_tx (NotFound session_not_found) l) (\<lambda>lock.
    bind_tx (of_result_tx (check_makeup_target leave (sl_session lock) at)) (\<lambda>_.
    bind_tx (require_room_tx lock) (\<lambda>_.
    bind_tx (db_try (set_makeup_session_tx i sid)) (\<lambda>u.
    bind_tx (of_option_tx (Conflict makeup_already_booked) u) (\<lambda>v.
    return_tx (leave_response v))))))))))))"

definition leave_matches :: "leave_status option \<Rightarrow> uuid option \<Rightarrow> uuid list option \<Rightarrow> leave_view \<Rightarrow> bool" where
  "leave_matches status cid scope v \<longleftrightarrow> (status = None \<or> status = Some (lr_status (lv_row v))) \<and>
    (cid = None \<or> cid = Some (lv_course_id v)) \<and>
    (case scope of None \<Rightarrow> True | Some ids \<Rightarrow> lv_course_id v \<in> set ids)"

definition list_leave_requests ::
  "auth_user \<Rightarrow> string option \<Rightarrow> uuid option \<Rightarrow> pagination_params \<Rightarrow> (leave_view list \<times> page_meta) app" where
  "list_leave_requests auth status cid p =
    bind_tx (case status of
        None \<Rightarrow> return_tx None
      | Some x \<Rightarrow> (case leave_status_from_str x of
          None \<Rightarrow> fail_tx (Validation (utf8 [115, 116, 97, 116, 117, 115, 32, 229, 143, 131, 230, 149, 184, 228, 184, 141, 230, 173, 163, 231, 162, 186, 239, 188, 154] @ x))
        | Some v \<Rightarrow> return_tx (Some v))) (\<lambda>wanted.
    bind_tx (if is_admin auth then return_tx (Some None)
      else bind_tx (resolve_scope auth) (\<lambda>r. return_tx (map_option (\<lambda>scope. Some (cp_course_ids scope)) r))) (\<lambda>r.
    case r of
      None \<Rightarrow> return_tx ([], meta p 0)
    | Some scope \<Rightarrow> get_tx (\<lambda>s.
        let rows = filter (leave_matches wanted cid scope)
          (List.map_filter (leave_view_of s) (Notices.newest_first lr_created_at (leave_requests s)))
        in (map leave_response (page_rows p rows), meta p (int (length rows))))))"

section \<open>What the two tables always satisfy\<close>

definition leave_key :: "leave_request \<Rightarrow> uuid \<times> uuid" where
  "leave_key l = (lr_enrolment_id l, lr_session_id l)"

definition mark_key :: "attendance_record \<Rightarrow> uuid \<times> uuid" where
  "mark_key a = (a_session_id a, a_enrolment_id a)"

definition makeup_ok :: "leave_request \<Rightarrow> bool" where
  "makeup_ok l \<longleftrightarrow> (lr_makeup_session_id l \<noteq> None \<longrightarrow>
    lr_status l = Leave_Approved \<and> lr_makeup_session_id l \<noteq> Some (lr_session_id l))"

definition leaves_ok :: "leave_request list \<Rightarrow> bool" where
  "leaves_ok t \<longleftrightarrow> distinct (map lr_id t) \<and> distinct (map leave_key (filter live_leave t)) \<and> list_all makeup_ok t"

definition marked_leave :: "db \<Rightarrow> uuid \<Rightarrow> uuid \<Rightarrow> bool" where
  "marked_leave s sid eid \<longleftrightarrow> (\<exists>a \<in> set (attendance s). marks sid eid a \<and> a_status a = Att_Leave)"

definition roster_ok :: "db \<Rightarrow> bool" where
  "roster_ok s \<longleftrightarrow> leaves_ok (leave_requests s) \<and> distinct (map mark_key (attendance s)) \<and>
    (\<forall>sid eid. approved_for s sid eid \<longrightarrow> marked_leave s sid eid)"

lemma live_keys_update:
  assumes "\<And>l. l \<in> set t \<Longrightarrow> P l \<Longrightarrow> leave_key (f l) = leave_key l \<and> (live_leave (f l) \<longrightarrow> live_leave l)"
    and "distinct (map leave_key (filter live_leave t))"
  shows "distinct (map leave_key (filter live_leave (update_where P f t))) \<and>
    set (map leave_key (filter live_leave (update_where P f t))) \<subseteq> set (map leave_key (filter live_leave t))"
  using assms
proof (induction t)
  case (Cons l t)
  let ?l = "if P l then f l else l"
  have l: "leave_key ?l = leave_key l" "live_leave ?l \<longrightarrow> live_leave l" using Cons.prems(1) [of l] by auto
  have "distinct (map leave_key (filter live_leave (update_where P f t))) \<and>
      set (map leave_key (filter live_leave (update_where P f t))) \<subseteq> set (map leave_key (filter live_leave t))"
    using Cons.prems by (intro Cons.IH) (auto split: if_splits)
  then show ?case using l Cons.prems(2) by (auto split: if_splits)
qed simp

lemma leaves_ok_update:
  assumes ok: "leaves_ok t"
    and f: "\<And>l. l \<in> set t \<Longrightarrow> P l \<Longrightarrow> lr_id (f l) = lr_id l \<and> leave_key (f l) = leave_key l \<and>
      (live_leave (f l) \<longrightarrow> live_leave l) \<and> makeup_ok (f l)"
  shows "leaves_ok (update_where P f t)"
proof -
  have "map lr_id (update_where P f t) = map lr_id t" using f by (auto simp: update_where_def)
  moreover have "distinct (map leave_key (filter live_leave (update_where P f t)))"
    using live_keys_update [of t P f] ok f unfolding leaves_ok_def by blast
  moreover have "list_all makeup_ok (update_where P f t)"
    using ok f by (auto simp: leaves_ok_def update_where_def list_all_iff)
  ultimately show ?thesis using ok by (simp add: leaves_ok_def)
qed

lemma approved_after_update:
  assumes "approved_for (s\<lparr>leave_requests := update_where P f (leave_requests s)\<rparr>) sid eid"
    and "\<And>l. l \<in> set (leave_requests s) \<Longrightarrow> P l \<Longrightarrow> leave_key (f l) = leave_key l"
  shows "approved_for s sid eid \<or>
    (\<exists>l \<in> set (leave_requests s). P l \<and> leave_key l = (eid, sid) \<and> lr_status (f l) = Leave_Approved)"
  using assms by (fastforce simp: approved_for_def list_ex_iff update_where_def leave_key_def split: if_splits)

lemma pending_makeup_none:
  "leaves_ok t \<Longrightarrow> l \<in> set t \<Longrightarrow> lr_status l = Leave_Pending \<Longrightarrow> lr_makeup_session_id l = None"
  by (auto simp: leaves_ok_def list_all_iff makeup_ok_def)

section \<open>Each write keeps them\<close>

text \<open>The upsert: an approved leave's mark stays, a leave written is there.\<close>

lemma upsert_tx_effect:
  assumes run: "upsert_tx sid eid status by s = Inr (n, s')" and keys: "distinct (map mark_key (attendance s))"
  shows "leave_requests s' = leave_requests s \<and> distinct (map mark_key (attendance s')) \<and>
    (status = Att_Leave \<longrightarrow> marked_leave s' sid eid) \<and>
    (approved_for s k e \<longrightarrow> marked_leave s k e \<longrightarrow> marked_leave s' k e)"
proof (cases "fetch_by (marks sid eid) (attendance s)")
  case None
  let ?row = "\<lparr>a_id = uuid_supply s (uuid_pos s), a_session_id = sid, a_enrolment_id = eid, a_status = status,
    a_marked_by = Some by, a_marked_at = db_now s\<rparr>"
  have s': "attendance s' = attendance s @ [?row]" "leave_requests s' = leave_requests s"
    using run None by (auto simp: upsert_tx_def bind_tx_def split: if_splits)
  have "mark_key ?row \<notin> mark_key ` set (attendance s)"
    using None by (auto simp: fetch_by_None marks_def mark_key_def)
  then show ?thesis using s' keys by (auto simp: marked_leave_def marks_def mark_key_def)
next
  case (Some a)
  let ?f = "\<lambda>x. x\<lparr>a_status := status, a_marked_by := Some by, a_marked_at := db_now s\<rparr>"
  have a: "a \<in> set (attendance s)" "marks sid eid a" using fetch_by_Some [OF Some] by auto
  show ?thesis
  proof (cases "status = Att_Leave \<or> a_status a \<noteq> Att_Leave \<or> \<not> approved_for s sid eid")
    case True
    then have s': "attendance s' = update_where (marks sid eid) ?f (attendance s)" "leave_requests s' = leave_requests s"
      using run Some by (auto simp: upsert_tx_def bind_tx_def approved_for_def)
    have "map mark_key (attendance s') = map mark_key (attendance s)"
      unfolding s' by (auto simp: update_where_def mark_key_def)
    moreover have "status = Att_Leave \<longrightarrow> marked_leave s' sid eid"
    proof
      assume "status = Att_Leave"
      moreover have "?f a \<in> set (attendance s')" "marks sid eid (?f a)"
        unfolding s' using a by (auto simp: set_update_where marks_def)
      ultimately show "marked_leave s' sid eid" unfolding marked_leave_def by force
    qed
    moreover have "marked_leave s' k e" if ap: "approved_for s k e" and ml: "marked_leave s k e"
    proof -
      obtain b where b: "b \<in> set (attendance s)" "marks k e b" "a_status b = Att_Leave"
        using ml by (auto simp: marked_leave_def)
      show ?thesis
      proof (cases "marks sid eid b")
        case hit: True
        then have "mark_key b = mark_key a" "k = sid" "e = eid" using a(2) b(2) by (auto simp: marks_def mark_key_def)
        then have "b = a" using keys a(1) b(1) by (simp add: distinct_map inj_on_def)
        then have "status = Att_Leave" using True b(3) ap \<open>k = sid\<close> \<open>e = eid\<close> by auto
        then show ?thesis using calculation(2) \<open>k = sid\<close> \<open>e = eid\<close> by simp
      next
        case False
        then show ?thesis using b by (force simp: marked_leave_def s' set_update_where)
      qed
    qed
    ultimately show ?thesis using keys s'(2) by simp
  next
    case False
    then have "s' = s\<lparr>uuid_pos := uuid_pos s + 1\<rparr>"
      using run Some by (auto simp: upsert_tx_def bind_tx_def approved_for_def)
    then show ?thesis using keys False by (auto simp: marked_leave_def)
  qed
qed

lemma approved_for_leaves: "leave_requests s' = leave_requests s \<Longrightarrow> approved_for s' = approved_for s"
  by (simp add: approved_for_def fun_eq_iff)

lemma keeps_upsert [keeps_intros]: "keeps roster_ok (upsert_tx sid eid status by)"
  using upsert_tx_effect approved_for_leaves unfolding keeps_def roster_ok_def by metis

lemma keeps_mark_tx: "keeps roster_ok (mark_tx sid cid parsed by)"
  unfolding mark_tx_def mark_one_tx_def Let_def
  by (intro keeps_intros) (auto split: prod.splits intro!: keeps_intros)

lemma leave_view_row: "leave_view_of s l = Some v \<Longrightarrow> lv_row v = l"
  by (auto simp: leave_view_of_def Let_def bind_eq_Some_conv)

lemma decide_leave_keys [simp]:
  "lr_id (decide_leave status by i l) = lr_id l" "leave_key (decide_leave status by i l) = leave_key l"
  "lr_status (decide_leave status by i l) = status" "lr_session_id (decide_leave status by i l) = lr_session_id l"
  "lr_enrolment_id (decide_leave status by i l) = lr_enrolment_id l"
  "lr_makeup_session_id (decide_leave status by i l) = lr_makeup_session_id l"
  by (simp_all add: decide_leave_def leave_key_def)

lemma decide_tx_keeps:
  assumes ok: "roster_ok s" and run: "decide_tx i status by s = Inr (Some v, s')"
  shows "roster_ok s'"
proof -
  let ?f = "decide_leave status by (db_now s)"
  let ?t = "s\<lparr>leave_requests := update_where (pending_leave i) ?f (leave_requests s)\<rparr>"
  have leaves: "leaves_ok (leave_requests s)" and keys: "distinct (map mark_key (attendance s))"
    and marked: "approved_for s k e \<Longrightarrow> marked_leave s k e" for k e
    using ok by (auto simp: roster_ok_def)
  obtain l where l: "fetch_by (pending_leave i) (leave_requests s) = Some l" "leave_view_of s (?f l) = Some v"
    and rest: "(if status = Leave_Approved then bind_tx (find_enrolment_id_tx i) (\<lambda>eid.
        project_approved_leave_tx (lr_session_id (lv_row v)) eid by) else return_tx ()) ?t = Inr ((), s')"
    using run by (auto simp: decide_tx_def decide_row_tx_def bind_tx_Inr Let_def bind_eq_Some_conv split: option.splits)
  have row: "l \<in> set (leave_requests s)" "lr_id l = i" "lr_status l = Leave_Pending"
    using fetch_by_Some [OF l(1)] by (auto simp: pending_leave_def)
  have only: "x = l" if "x \<in> set (leave_requests s)" "lr_id x = i" for x
    using that row leaves by (auto simp: leaves_ok_def distinct_map inj_on_def)
  have ok_t: "leaves_ok (leave_requests ?t)"
  proof (simp, rule leaves_ok_update [OF leaves])
    fix x assume "x \<in> set (leave_requests s)" "pending_leave i x"
    then have "lr_status x = Leave_Pending" "lr_makeup_session_id x = None"
      using pending_makeup_none [OF leaves] by (auto simp: pending_leave_def)
    then show "lr_id (?f x) = lr_id x \<and> leave_key (?f x) = leave_key x \<and> (live_leave (?f x) \<longrightarrow> live_leave x) \<and>
        makeup_ok (?f x)"
      by (simp add: live_leave_def makeup_ok_def)
  qed
  have new: "approved_for s k e \<or> status = Leave_Approved \<and> leave_key l = (e, k)" if "approved_for ?t k e" for k e
    using approved_after_update [OF that] only by (auto simp: pending_leave_def)
  show ?thesis
  proof (cases "status = Leave_Approved")
    case False
    then have "s' = ?t" using rest by simp
    then show ?thesis using ok_t keys new marked False by (auto simp: roster_ok_def marked_leave_def)
  next
    case True
    obtain eid t where e: "find_enrolment_id_tx i ?t = Inr (eid, t)"
      and p: "project_approved_leave_tx (lr_session_id (lv_row v)) eid by t = Inr ((), s')"
      using rest True by (auto simp: bind_tx_Inr)
    have "t = ?t" "\<exists>x. fetch_by (\<lambda>l. lr_id l = i) (leave_requests ?t) = Some x \<and> eid = lr_enrolment_id x"
      using e by (auto simp: find_enrolment_id_tx_def split: option.splits)
    then obtain x where "t = ?t" "x \<in> set (leave_requests ?t)" "lr_id x = i" "eid = lr_enrolment_id x"
      using fetch_by_Some by (metis (mono_tags, lifting))
    then have t: "t = ?t" and eid: "eid = lr_enrolment_id l"
      using only by (auto simp: update_where_def split: if_splits)
    obtain n where "upsert_tx (lr_session_id l) eid Att_Leave by ?t = Inr (n, s')"
      using p leave_view_row [OF l(2)] by (auto simp: project_approved_leave_tx_def bind_tx_Inr t)
    note up = upsert_tx_effect [OF this]
    have keys_t: "distinct (map mark_key (attendance ?t))" using keys by simp
    have "marked_leave s' k e" if "approved_for s' k e" for k e
    proof -
      have a: "approved_for ?t k e" using that approved_for_leaves up [OF keys_t] by metis
      then consider "approved_for s k e" | "leave_key l = (e, k)" using new by blast
      then show ?thesis
      proof cases
        case 1
        then have "marked_leave ?t k e" using marked by (simp add: marked_leave_def)
        then show ?thesis using up [OF keys_t] a by blast
      next
        case 2
        then show ?thesis using up [OF keys_t] by (simp add: leave_key_def eid)
      qed
    qed
    then show ?thesis using up [OF keys_t] ok_t by (simp add: roster_ok_def)
  qed
qed

lemma insert_leave_keeps: "keeps roster_ok (insert_leave eid sid reason)"
proof (rule keepsI)
  fix s :: db and v s'
  assume ok: "roster_ok s" and run: "insert_leave eid sid reason s = Inr (v, s')"
  let ?row = "\<lparr>lr_id = uuid_supply s (uuid_pos s), lr_enrolment_id = eid, lr_session_id = sid, lr_reason = reason,
    lr_status = Leave_Pending, lr_makeup_session_id = None, lr_decided_by = None, lr_decided_at = None,
    lr_created_at = db_now s\<rparr>"
  have s': "leave_requests s' = leave_requests s @ [?row]" "attendance s' = attendance s"
    and free: "lr_id ?row \<notin> lr_id ` set (leave_requests s)"
      "\<forall>l \<in> set (leave_requests s). live_leave l \<longrightarrow> leave_key l \<noteq> leave_key ?row"
    using run by (auto simp: insert_leave_def bind_tx_def Let_def list_ex_iff leave_key_def split: if_splits option.splits)
  have "makeup_ok ?row" by (simp add: makeup_ok_def)
  then have "leaves_ok (leave_requests s')"
    using ok free unfolding s' roster_ok_def leaves_ok_def by auto
  moreover have "approved_for s' k e = approved_for s k e" for k e by (simp add: approved_for_def s')
  ultimately show "roster_ok s'" using ok by (auto simp: roster_ok_def s' marked_leave_def)
qed

lemma update_leaves_keeps:
  assumes ok: "roster_ok s" and s': "s' = s\<lparr>leave_requests := update_where P f (leave_requests s)\<rparr>"
    and f: "\<And>l. l \<in> set (leave_requests s) \<Longrightarrow> P l \<Longrightarrow> lr_id (f l) = lr_id l \<and> leave_key (f l) = leave_key l \<and>
      (live_leave (f l) \<longrightarrow> live_leave l) \<and> makeup_ok (f l) \<and> (lr_status (f l) = Leave_Approved \<longrightarrow> lr_status l = Leave_Approved)"
  shows "roster_ok s'"
proof -
  have "leaves_ok (leave_requests s')" using ok f unfolding s' roster_ok_def by (auto intro: leaves_ok_update)
  moreover have "approved_for s k e" if "approved_for s' k e" for k e
  proof -
    have "leave_key (f l) = leave_key l" if "l \<in> set (leave_requests s)" "P l" for l using f [OF that] by simp
    from approved_after_update [OF that [unfolded s'] this]
    consider "approved_for s k e"
      | l where "l \<in> set (leave_requests s)" "P l" "leave_key l = (e, k)" "lr_status (f l) = Leave_Approved" by blast
    then show ?thesis
    proof cases
      case (2 l)
      then have "lr_status l = Leave_Approved" using f by blast
      then show ?thesis using 2 by (auto simp: approved_for_def list_ex_iff leave_key_def)
    qed
  qed
  ultimately show ?thesis using ok by (auto simp: roster_ok_def s' marked_leave_def)
qed

lemma cancel_leaves_keeps:
  assumes "roster_ok s" "\<And>l. P l \<Longrightarrow> lr_status l = Leave_Pending"
  shows "roster_ok (s\<lparr>leave_requests := update_where P cancel_leave (leave_requests s)\<rparr>)"
proof (rule update_leaves_keeps [OF assms(1) refl])
  fix l assume "l \<in> set (leave_requests s)" "P l"
  then have "lr_status l = Leave_Pending" "lr_makeup_session_id l = None"
    using assms pending_makeup_none unfolding roster_ok_def by blast+
  then show "lr_id (cancel_leave l) = lr_id l \<and> leave_key (cancel_leave l) = leave_key l \<and>
      (live_leave (cancel_leave l) \<longrightarrow> live_leave l) \<and> makeup_ok (cancel_leave l) \<and>
      (lr_status (cancel_leave l) = Leave_Approved \<longrightarrow> lr_status l = Leave_Approved)"
    by (simp add: cancel_leave_def leave_key_def live_leave_def makeup_ok_def)
qed

lemma cancel_if_pending_keeps [keeps_intros]: "keeps roster_ok (cancel_if_pending_tx i)"
  by (auto simp: keeps_def cancel_if_pending_tx_def pending_leave_def intro: cancel_leaves_keeps)

lemma cancel_pending_keeps: "keeps roster_ok (cancel_pending_for_enrolments_tx ids)"
  by (auto simp: keeps_def cancel_pending_Inr pending_of_def intro: cancel_leaves_keeps)

section \<open>Booking a makeup\<close>

lemma commit_tx_run: "commit_tx m s = (Inr r, s') \<Longrightarrow> m s = Inr (r, s')"
  by (auto simp: commit_tx_def split: sum.splits)

lemma read_reads:
  "find_for_makeup_tx i s = Inr (r, s') \<Longrightarrow> s' = s" "lock_session_tx sid s = Inr (l, s') \<Longrightarrow> s' = s"
  "require_room_tx lock s = Inr (u, s') \<Longrightarrow> s' = s"
  by (auto simp: find_for_makeup_tx_def lock_session_tx_def bind_tx_Inr require_room_tx_Inr)

lemma book_makeup_run:
  assumes "book_makeup at auth i sid s = (Inr r, s')"
  obtains leave lock v where "find_for_makeup_tx i s = Inr (Some leave, s)"
    "check_makeup_source leave = Inr ()" "lock_session_tx sid s = Inr (Some lock, s)"
    "check_makeup_target leave (sl_session lock) at = Inr ()" "require_room_tx lock s = Inr ((), s)"
    "set_makeup_session_tx i sid s = Inr (Some v, s')" "r = leave_response v"
proof -
  note run = commit_tx_run [OF assms [unfolded book_makeup_def]]
  from run show thesis
    apply (elim bind_txE)
    apply (simp only: db_try_Inr of_option_tx_Inr of_result_tx_Inr return_tx_run sum.inject prod.inject)
    apply (elim conjE)
    apply hypsubst
    apply (rule that)
    apply (auto dest: read_reads)
    done
qed

lemma set_makeup_run:
  assumes "set_makeup_session_tx i sid s = Inr (Some v, s')"
  obtains l where "fetch_by (open_makeup i) (leave_requests s) = Some l"
    "s' = s\<lparr>leave_requests := update_where (open_makeup i) (set_makeup sid) (leave_requests s)\<rparr>"
  using assms by (auto simp: set_makeup_session_tx_def bind_eq_Some_conv)

lemma find_for_makeup_row:
  assumes "find_for_makeup_tx i s = Inr (Some leave, s)"
  obtains l where "fetch_by (\<lambda>l. lr_id l = i) (leave_requests s) = Some l" "lm_session_id leave = lr_session_id l"
    "lm_enrolment_active leave = leave_of_active s l" "lm_status leave = lr_status l"
    "lm_makeup_session_id leave = lr_makeup_session_id l"
  using assms by (auto simp: find_for_makeup_tx_def bind_eq_Some_conv)

text \<open>What an accepted makeup wrote: the one request of that id, approved and still without a makeup.\<close>

lemma book_makeup_row:
  assumes run: "book_makeup at auth i sid s = (Inr r, s')" and ids: "distinct (map lr_id (leave_requests s))"
  obtains l x c where "l \<in> set (leave_requests s)" "open_makeup i l" "leave_of_active s l" "lr_session_id l \<noteq> sid"
    "\<forall>k \<in> set (leave_requests s). open_makeup i k \<longrightarrow> k = l"
    "session_by_id sid s = Some x" "course_by_id (cs_course_id x) s = Some c" "has_room (session_seats_of x c s)"
    "s' = s\<lparr>leave_requests := update_where (open_makeup i) (set_makeup sid) (leave_requests s)\<rparr>"
proof -
  obtain leave lock v where f: "find_for_makeup_tx i s = Inr (Some leave, s)"
    and source: "check_makeup_source leave = Inr ()" and lock: "lock_session_tx sid s = Inr (Some lock, s)"
    and target: "check_makeup_target leave (sl_session lock) at = Inr ()" and room: "require_room_tx lock s = Inr ((), s)"
    and set: "set_makeup_session_tx i sid s = Inr (Some v, s')"
    using book_makeup_run [OF run] by metis
  obtain l where l: "fetch_by (open_makeup i) (leave_requests s) = Some l"
    and s': "s' = s\<lparr>leave_requests := update_where (open_makeup i) (set_makeup sid) (leave_requests s)\<rparr>"
    using set_makeup_run [OF set] by metis
  obtain k where k: "fetch_by (\<lambda>l. lr_id l = i) (leave_requests s) = Some k" "lm_session_id leave = lr_session_id k"
    "lm_enrolment_active leave = leave_of_active s k"
    using find_for_makeup_row [OF f] by metis
  have row: "l \<in> set (leave_requests s)" "open_makeup i l" using fetch_by_Some [OF l] by auto
  have only: "y = l" if "y \<in> set (leave_requests s)" "lr_id y = i" for y
    using that row ids by (auto simp: open_makeup_def distinct_map inj_on_def)
  have "k = l" using fetch_by_Some [OF k(1)] only by auto
  then have active: "leave_of_active s l" using source k by (simp add: check_makeup_source_def split: if_splits)
  have x: "session_by_id sid s = Some (sl_session lock)"
    using lock by (auto simp: lock_session_tx_def bind_tx_Inr)
  then have "cs_id (sl_session lock) = sid" using fetch_by_Some by (fastforce simp: session_by_id_def)
  then have "lr_session_id l \<noteq> sid" using target k \<open>k = l\<close> by (auto simp: check_makeup_target_def split: if_splits)
  moreover obtain c where "course_by_id (cs_course_id (sl_session lock)) s = Some c"
    "has_room (session_seats_of (sl_session lock) c s)" using room by (auto simp: require_room_tx_Inr)
  moreover have "\<forall>y \<in> set (leave_requests s). open_makeup i y \<longrightarrow> y = l"
    using only by (simp add: open_makeup_def)
  ultimately show thesis using row active x s' by (intro that)
qed

lemma book_makeup_keeps:
  assumes "book_makeup at auth i sid s = (Inr r, s')" "roster_ok s"
  shows "roster_ok s'"
proof -
  have ids: "distinct (map lr_id (leave_requests s))" using assms(2) by (simp add: roster_ok_def leaves_ok_def)
  obtain l x c where "l \<in> set (leave_requests s)" "open_makeup i l" "leave_of_active s l"
    and l: "lr_session_id l \<noteq> sid" "\<forall>k \<in> set (leave_requests s). open_makeup i k \<longrightarrow> k = l"
    and "session_by_id sid s = Some x" "course_by_id (cs_course_id x) s = Some c" "has_room (session_seats_of x c s)"
    and s': "s' = s\<lparr>leave_requests := update_where (open_makeup i) (set_makeup sid) (leave_requests s)\<rparr>"
    by (rule book_makeup_row [OF assms(1) ids])
  show ?thesis
  proof (rule update_leaves_keeps [OF assms(2) s'])
    fix k assume "k \<in> set (leave_requests s)" "open_makeup i k"
    then have "lr_status k = Leave_Approved" "lr_session_id k \<noteq> sid" using l by (auto simp: open_makeup_def)
    then show "lr_id (set_makeup sid k) = lr_id k \<and> leave_key (set_makeup sid k) = leave_key k \<and>
        (live_leave (set_makeup sid k) \<longrightarrow> live_leave k) \<and> makeup_ok (set_makeup sid k) \<and>
        (lr_status (set_makeup sid k) = Leave_Approved \<longrightarrow> lr_status k = Leave_Approved)"
      by (simp add: set_makeup_def leave_key_def live_leave_def makeup_ok_def)
  qed
qed

lemma count_after_one_update:
  assumes "distinct (map lr_id t)" "l \<in> set t" "Q l" "\<forall>k \<in> set t. Q k \<longrightarrow> k = l"
  shows "count_where P (update_where Q f t) + of_bool (P l) = count_where P t + of_bool (P (f l))"
  using assms
proof (induction t)
  case (Cons k t)
  have none: "update_where Q f t = t" if "k = l"
  proof -
    have "\<not> Q y" if "y \<in> set t" for y
    proof
      assume "Q y"
      then have "y = k" using Cons.prems(4) \<open>k = l\<close> that by simp
      then have "lr_id k \<in> set (map lr_id t)" using that by auto
      then show False using Cons.prems(1) by simp
    qed
    then show ?thesis unfolding update_where_def by (simp add: map_idI)
  qed
  have head: "update_where Q f (k # t) = (if Q k then f k else k) # update_where Q f t"
    by (simp add: update_where_def)
  show ?case
  proof (cases "k = l")
    case True
    then show ?thesis unfolding head none [OF True] using Cons.prems(3) by simp
  next
    case False
    have "\<not> Q k"
    proof
      assume "Q k"
      then have "k = l" using Cons.prems(4) by (meson list.set_intros(1))
      then show False using False by contradiction
    qed
    moreover have "count_where P (update_where Q f t) + of_bool (P l) = count_where P t + of_bool (P (f l))"
    proof (rule Cons.IH)
      show "distinct (map lr_id t)" "Q l" using Cons.prems(1,3) by simp_all
      show "l \<in> set t" using Cons.prems(2) False by (metis set_ConsD)
      show "\<forall>k \<in> set t. Q k \<longrightarrow> k = l" using Cons.prems(4) by (meson list.set_intros(2))
    qed
    ultimately show ?thesis unfolding head by simp
  qed
qed simp

section \<open>Any interleaving of leave and attendance\<close>

inductive roster_step :: "(date \<Rightarrow> string) \<Rightarrow> db \<Rightarrow> db \<Rightarrow> bool" for show_date where
  asked: "create_leave_request at auth sid reason s = (r, s') \<Longrightarrow> roster_step show_date s s'"
| cancelled: "cancel_leave_request auth i s = (r, s') \<Longrightarrow> roster_step show_date s s'"
| decided: "decide_leave_request show_date auth i new_status s = (r, s') \<Longrightarrow> roster_step show_date s s'"
| made_up: "book_makeup at auth i sid s = (r, s') \<Longrightarrow> roster_step show_date s s'"
| marked: "bulk_upsert_attendance at auth sid entries s = (r, s') \<Longrightarrow> roster_step show_date s s'"
| one_mark: "upsert_tx sid eid status by s = Inr (n, s') \<Longrightarrow> roster_step show_date s s'"
| withdrawn: "cancel_pending_for_enrolments_tx ids s = Inr (u, s') \<Longrightarrow> roster_step show_date s s'"
| elsewhere: "leave_requests s' = leave_requests s \<Longrightarrow> attendance s' = attendance s \<Longrightarrow> roster_step show_date s s'"

inductive roster_reachable :: "(date \<Rightarrow> string) \<Rightarrow> db \<Rightarrow> bool" for show_date where
  empty: "leave_requests s = [] \<Longrightarrow> attendance s = [] \<Longrightarrow> roster_reachable show_date s"
| step: "roster_reachable show_date s \<Longrightarrow> roster_step show_date s s' \<Longrightarrow> roster_reachable show_date s'"

lemma roster_ok_cong:
  "leave_requests s' = leave_requests s \<Longrightarrow> attendance s' = attendance s \<Longrightarrow> roster_ok s' = roster_ok s"
  by (simp add: roster_ok_def approved_for_def marked_leave_def)

lemma keeps_commit: "commit_tx m s = (r, s') \<Longrightarrow> P s \<Longrightarrow> keeps P m \<Longrightarrow> P s'"
  by (auto simp: commit_tx_def keeps_def split: sum.splits)

lemma create_leave_keeps:
  "create_leave_request at auth sid reason s = (r, s') \<Longrightarrow> roster_ok s \<Longrightarrow> roster_ok s'"
  unfolding create_leave_request_def
  by (erule keeps_commit [where P = roster_ok], assumption, intro keeps_intros insert_leave_keeps)

lemma cancel_leave_keeps: "cancel_leave_request auth i s = (r, s') \<Longrightarrow> roster_ok s \<Longrightarrow> roster_ok s'"
  unfolding cancel_leave_request_def
  by (erule keeps_commit [where P = roster_ok], assumption, intro keeps_intros)

lemma leaves_course_coach [leaves_intros]: "leaves g (require_course_coach auth cid msg)"
  unfolding require_course_coach_def by (intro leaves_intros)

lemma course_coach_reads: "require_course_coach auth cid msg s = Inr (u, s') \<Longrightarrow> s' = s"
  using leavesD [OF leaves_course_coach [of "\<lambda>s. s"]] by simp

lemma keeps_course_coach [keeps_intros]: "keeps P (require_course_coach auth cid msg)"
  using course_coach_reads unfolding keeps_def by blast

lemma mark_keeps: "bulk_upsert_attendance at auth sid entries s = (r, s') \<Longrightarrow> roster_ok s \<Longrightarrow> roster_ok s'"
  unfolding bulk_upsert_attendance_def session_course_for_def
  by (erule keeps_commit [where P = roster_ok], assumption, intro keeps_intros keeps_mark_tx)

lemma decide_keeps:
  assumes "decide_leave_request show_date auth i new_status s = (r, s')" "roster_ok s"
  shows "roster_ok s'"
proof (cases "decide_checked_tx auth i new_status s")
  case (Inl e)
  then show ?thesis using assms by (simp add: decide_leave_request_def then_deliver_def)
next
  case (Inr y)
  obtain v t where y: "y = (v, t)" by (cases y)
  have d: "\<exists>st v. decide_tx i st (au_user_id auth) s = Inr (Some v, t)"
    using Inr unfolding y decide_checked_tx_def
    by (elim bind_txE) (auto dest: course_coach_reads)
  then have "roster_ok t" using decide_tx_keeps assms(2) by blast
  moreover have "leave_requests s' = leave_requests t" "attendance s' = attendance t"
    using assms(1) Inr by (auto simp: decide_leave_request_def then_deliver_def y split: prod.splits)
  ultimately show ?thesis using roster_ok_cong by blast
qed

lemma roster_step_keeps: "roster_step show_date s s' \<Longrightarrow> roster_ok s \<Longrightarrow> roster_ok s'"
proof (induction rule: roster_step.induct)
  case (made_up at auth i sid s r s')
  show ?case
  proof (cases r)
    case (Inl e)
    then have "s' = s" using made_up(1) by (auto simp: book_makeup_def commit_tx_def split: sum.splits)
    then show ?thesis using made_up(2) by simp
  next
    case (Inr v)
    then show ?thesis using book_makeup_keeps made_up by blast
  qed
next
  case (elsewhere s' s)
  then show ?case using roster_ok_cong by blast
next
  case asked
  then show ?case by (rule create_leave_keeps)
next
  case cancelled
  then show ?case by (rule cancel_leave_keeps)
next
  case decided
  then show ?case by (rule decide_keeps)
next
  case marked
  then show ?case by (rule mark_keeps)
next
  case one_mark
  then show ?case by (metis keepsD keeps_upsert)
next
  case withdrawn
  then show ?case by (metis keepsD cancel_pending_keeps)
qed

lemma roster_reachable_ok: "roster_reachable show_date s \<Longrightarrow> roster_ok s"
proof (induction rule: roster_reachable.induct)
  case (empty s)
  then show ?case by (simp add: roster_ok_def leaves_ok_def approved_for_def)
next
  case (step s s')
  then show ?case using roster_step_keeps by blast
qed

text \<open>A member with a seat in a course of two sessions asks for leave, is excused and books the other one.\<close>

definition ballet :: course where
  "ballet = \<lparr>c_id = 10, c_name = ''Ballet'', c_slug = ''ballet'', c_level = CL_Beginner, c_description = None,
     c_duration_minutes = 60, c_price_cents = 100, c_max_students = 2, c_min_age = None, c_max_age = None,
     c_features = [], c_is_active = True, c_coach_id = None, c_category = None, c_schedule_text = None,
     c_is_highlighted = False, c_created_at = 0\<rparr>"

definition class_on :: "uuid \<Rightarrow> date \<Rightarrow> course_session" where
  "class_on i d = \<lparr>cs_id = i, cs_course_id = 10, cs_session_date = d, cs_start_time = 9 * micros_per_hour,
     cs_end_time = 10 * micros_per_hour, cs_venue = None, cs_created_at = 0\<rparr>"

definition taught_studio :: db where
  "taught_studio = empty_db\<lparr>users := [member 3 0], courses := [ballet], sessions := [class_on 20 2, class_on 21 3],
     enrolments := [\<lparr>e_id = 30, e_user_id = 3, e_course_id = 10, e_order_id = None, e_status = Enr_Active,
       e_enrolled_at = 0, e_created_at = 0\<rparr>],
     uuid_supply := (\<lambda>n. n)\<rparr>"

definition first_day :: studio_now where "first_day = \<lparr>sn_tz = taipei, sn_now = 0\<rparr>"
definition plain_member :: auth_user where "plain_member = \<lparr>au_user_id = 3, au_email = [], au_roles = []\<rparr>"

definition leave_1 :: db where "leave_1 = snd (create_leave_request first_day plain_member 20 None taught_studio)"
definition leave_2 :: db where "leave_2 = snd (decide_leave_request (\<lambda>_. []) boss 0 ''approved'' leave_1)"
definition leave_3 :: db where "leave_3 = snd (projr (upsert_tx 20 30 Att_Present 1 leave_2))"
definition leave_4 :: db where "leave_4 = snd (book_makeup first_day plain_member 0 21 leave_3)"

lemma leave_run: "roster_reachable (\<lambda>_. []) leave_4"
proof -
  have "roster_reachable (\<lambda>_. []) taught_studio"
    by (rule roster_reachable.empty) (simp_all add: taught_studio_def empty_db_def)
  moreover have "roster_step (\<lambda>_. []) taught_studio leave_1"
    unfolding leave_1_def by (rule roster_step.asked [OF surjective_pairing])
  moreover have "roster_step (\<lambda>_. []) leave_1 leave_2"
    unfolding leave_2_def by (rule roster_step.decided [OF surjective_pairing])
  moreover have "\<not> isl (upsert_tx 20 30 Att_Present 1 leave_2)" by code_simp
  then have "roster_step (\<lambda>_. []) leave_2 leave_3"
    unfolding leave_3_def by (rule roster_step.one_mark [OF run_parts])
  moreover have "roster_step (\<lambda>_. []) leave_3 leave_4"
    unfolding leave_4_def by (rule roster_step.made_up [OF surjective_pairing])
  ultimately show ?thesis by (meson roster_reachable.step)
qed

text \<open>
  C21. An approved leave is never overwritten: however requests, decisions, cancellations, makeups,
  roll calls, single marks and withdrawals interleave, every approved request keeps exactly one
  attendance row for its session and enrolment, and that row says leave.
\<close>

theorem approved_leave_wins:
  assumes "roster_reachable show_date s" "approved_for s sid eid"
  shows "\<exists>a. filter (marks sid eid) (attendance s) = [a] \<and> a_status a = Att_Leave"
proof -
  have ok: "distinct (map mark_key (attendance s))" "marked_leave s sid eid"
    using roster_reachable_ok [OF assms(1)] assms(2) by (auto simp: roster_ok_def)
  then obtain a where a: "a \<in> set (attendance s)" "marks sid eid a" "a_status a = Att_Leave"
    by (auto simp: marked_leave_def)
  have "distinct (map mark_key (filter (marks sid eid) (attendance s)))" using ok(1) by (rule distinct_map_filter)
  moreover have "mark_key x = (sid, eid)" if "x \<in> set (filter (marks sid eid) (attendance s))" for x
    using that by (auto simp: marks_def mark_key_def)
  moreover have "a \<in> set (filter (marks sid eid) (attendance s))" using a by simp
  ultimately have "filter (marks sid eid) (attendance s) = [a]"
    by (cases "filter (marks sid eid) (attendance s)" rule: remdups_adj.cases) auto
  then show ?thesis using a by blast
qed

lemma approved_leave_wins_witness:
  "\<exists>a. filter (marks 20 30) (attendance leave_4) = [a] \<and> a_status a = Att_Leave"
proof -
  have "approved_for leave_4 20 30" by code_simp
  then show ?thesis by (rule approved_leave_wins [OF leave_run])
qed

text \<open>
  C22. The leave table stays well typed under the same interleavings: ids are unique, an enrolment has
  at most one live request for a session, and a makeup is set on approved requests only and never
  to the session the leave is for.
\<close>

theorem leave_rows_well_formed:
  assumes "roster_reachable show_date s"
  shows "distinct (map lr_id (leave_requests s)) \<and>
    distinct (map leave_key (filter live_leave (leave_requests s))) \<and>
    list_all makeup_ok (leave_requests s)"
  using roster_reachable_ok [OF assms] by (simp add: roster_ok_def leaves_ok_def)

lemma leave_rows_well_formed_witness:
  "distinct (map lr_id (leave_requests leave_4)) \<and>
   map lr_makeup_session_id (leave_requests leave_4) = [Some 21]"
proof -
  have "map lr_makeup_session_id (leave_requests leave_4) = [Some 21]" by code_simp
  then show ?thesis using leave_rows_well_formed [OF leave_run] by simp
qed

text \<open>
  C23. A makeup takes a free seat and gives none away: when a booking is accepted the target session has
  room at that moment, and afterwards exactly one more makeup sits in that session, while the
  seats, the active enrolments, the approved leaves of every session and the makeups of every other
  session are what they were.
\<close>

theorem makeup_takes_free_seat:
  assumes "book_makeup at auth i sid s = (Inr r, s')" "distinct (map lr_id (leave_requests s))"
  shows "\<exists>x c. session_by_id sid s = Some x \<and> course_by_id (cs_course_id x) s = Some c \<and>
    0 < remaining (session_seats_of x c s) \<and>
    session_seats_of y d s' = (session_seats_of y d s)
      \<lparr>sx_makeup_count := sx_makeup_count (session_seats_of y d s) + (if cs_id y = sid then 1 else 0)\<rparr>"
proof -
  obtain l x c where l: "l \<in> set (leave_requests s)" "open_makeup i l" "leave_of_active s l" "lr_session_id l \<noteq> sid"
    "\<forall>k \<in> set (leave_requests s). open_makeup i k \<longrightarrow> k = l"
    and found: "session_by_id sid s = Some x" "course_by_id (cs_course_id x) s = Some c" "has_room (session_seats_of x c s)"
    and s': "s' = s\<lparr>leave_requests := update_where (open_makeup i) (set_makeup sid) (leave_requests s)\<rparr>"
    by (rule book_makeup_row [OF assms])
  note one = count_after_one_update [OF assms(2) l(1,2,5)]
  have active: "leave_of_active s' = leave_of_active s" "active_count (c_id d) s' = active_count (c_id d) s"
    by (simp_all add: s' leave_of_active_def fun_eq_iff active_enrolments_def active_count_def)
  have after: "leave_of_active s (set_makeup sid l)" "lr_session_id (set_makeup sid l) = lr_session_id l"
    "lr_status (set_makeup sid l) = lr_status l" "lr_makeup_session_id (set_makeup sid l) = Some sid"
    using l(3) by (simp_all add: set_makeup_def leave_of_active_def)
  have before: "lr_makeup_session_id l = None" using l(2) by (simp add: open_makeup_def)
  have rows: "leave_requests s' = update_where (open_makeup i) (set_makeup sid) (leave_requests s)" by (simp add: s')
  have "session_seats_of y d s' = (session_seats_of y d s)
      \<lparr>sx_makeup_count := sx_makeup_count (session_seats_of y d s) + (if cs_id y = sid then 1 else 0)\<rparr>"
    using one [of "\<lambda>l. leave_of_active s l \<and> lr_session_id l = cs_id y \<and> lr_status l = Leave_Approved" "set_makeup sid"]
      one [of "\<lambda>l. leave_of_active s l \<and> lr_makeup_session_id l = Some (cs_id y)" "set_makeup sid"]
    by (auto simp: session_seats_of_def active rows after before l(3))
  then show ?thesis using found by (simp add: has_room_def)
qed

lemma makeup_takes_free_seat_witness:
  "map (\<lambda>y. sx_makeup_count (session_seats_of y ballet leave_4)) [class_on 20 2, class_on 21 3] = [0, 1] \<and>
   (\<exists>x. session_by_id 21 leave_3 = Some x)"
proof -
  have "\<not> isl (fst (book_makeup first_day plain_member 0 21 leave_3))" by code_simp
  then obtain r where run: "book_makeup first_day plain_member 0 21 leave_3 = (Inr r, leave_4)"
    by (cases "book_makeup first_day plain_member 0 21 leave_3"; cases "fst (book_makeup first_day plain_member 0 21 leave_3)")
      (auto simp: leave_4_def)
  have "distinct (map lr_id (leave_requests leave_3))" by code_simp
  note taken = makeup_takes_free_seat [OF run this]
  have "sx_makeup_count (session_seats_of (class_on i d) ballet leave_3) = 0" if "i = 20 \<or> i = 21" for i d
    using that by (elim disjE) (simp_all, code_simp+)
  then show ?thesis using taken [of "class_on 20 2" ballet] taken [of "class_on 21 3" ballet] by (auto simp: class_on_def)
qed

end
