(* ===== verification/Rewards.thy ===== *)
theory Rewards
  imports Points Notices Access
begin

text \<open>
  Rewards (\<open>src/modules/rewards\<close>): the catalogue an administrator keeps and its redemption for
  points. A redemption spends through the points module, so the ledger row, the balance, the stock
  and the redemption row are one transaction; the theory shows that they stay in step.
\<close>

section \<open>Repository\<close>

record reward_create =
  rc_name :: string
  rc_description :: "string option"
  rc_points_cost :: int
  rc_stock :: "int option"
  rc_display_order :: int

record reward_update =
  ru_name :: "string option"
  ru_description :: "string option option"
  ru_points_cost :: "int option"
  ru_stock :: "int option option"
  ru_is_active :: "bool option"
  ru_display_order :: "int option"

definition for_display :: "reward list \<Rightarrow> reward list" where
  "for_display rows = sort_key rw_display_order (sort_key rw_created_at rows)"

definition find_active_rewards :: "reward list sql" where
  "find_active_rewards = get_tx (\<lambda>s. for_display (filter rw_is_active (rewards s)))"

definition find_all_rewards :: "reward list sql" where
  "find_all_rewards = get_tx (\<lambda>s. for_display (rewards s))"

definition lock_reward_tx :: "uuid \<Rightarrow> reward option sql" where
  "lock_reward_tx i = get_tx (\<lambda>s. fetch_by (\<lambda>r. rw_id r = i) (rewards s))"

text \<open>The table's checks on a row that is written.\<close>

definition reward_violation :: "reward \<Rightarrow> sqlx_error option" where
  "reward_violation r =
    (if \<not> 0 < rw_points_cost r then Some (CheckViolation ''rewards_points_cost_check'')
     else if (case rw_stock r of Some n \<Rightarrow> n < 0 | None \<Rightarrow> False) then Some (CheckViolation ''rewards_stock_nonneg'')
     else None)"

definition write_reward :: "uuid \<Rightarrow> (reward \<Rightarrow> reward) \<Rightarrow> reward option sql" where
  "write_reward i f = (\<lambda>s.
    case fetch_by (\<lambda>r. rw_id r = i) (rewards s) of
      None \<Rightarrow> Inr (None, s)
    | Some r \<Rightarrow> (case reward_violation (f r) of
        Some e \<Rightarrow> Inl e
      | None \<Rightarrow> Inr (Some (f r), s\<lparr>rewards := update_where (\<lambda>r. rw_id r = i) f (rewards s)\<rparr>)))"

definition take_one :: "reward \<Rightarrow> reward" where
  "take_one r = r\<lparr>rw_stock := map_option (\<lambda>n. n - 1) (rw_stock r)\<rparr>"

definition decrement_reward_tx :: "uuid \<Rightarrow> unit sql" where
  "decrement_reward_tx i = bind_tx (write_reward i take_one) (\<lambda>_. return_tx ())"

definition insert_redemption_tx :: "uuid \<Rightarrow> uuid \<Rightarrow> int \<Rightarrow> reward_redemption sql" where
  "insert_redemption_tx reward_id uid points_spent = bind_tx fresh_uuid (\<lambda>i s.
    let row = \<lparr>rr_id = i, rr_reward_id = reward_id, rr_user_id = uid, rr_points_spent = points_spent,
      rr_created_at = db_now s\<rparr>
    in if i \<in> rr_id ` set (redemptions s) then Inl (UniqueViolation ''reward_redemptions_pkey'')
       else if \<not> 0 < points_spent then Inl (CheckViolation ''reward_redemptions_points_spent_check'')
       else Inr (row, s\<lparr>redemptions := redemptions s @ [row]\<rparr>))"

definition redemption_named :: "db \<Rightarrow> reward_redemption \<Rightarrow> (reward_redemption \<times> string) option" where
  "redemption_named s rr =
    map_option (\<lambda>r. (rr, rw_name r)) (fetch_by (\<lambda>r. rw_id r = rr_reward_id rr) (rewards s))"

definition find_redemptions_by_user ::
  "uuid \<Rightarrow> pagination_params \<Rightarrow> (reward_redemption \<times> string) list sql" where
  "find_redemptions_by_user uid p = get_tx (\<lambda>s. page_rows p (List.map_filter (redemption_named s)
    (Notices.newest_first rr_created_at (filter (\<lambda>r. rr_user_id r = uid) (redemptions s)))))"

definition count_redemptions_by_user :: "uuid \<Rightarrow> int sql" where
  "count_redemptions_by_user uid =
    get_tx (\<lambda>s. int (count_where (\<lambda>r. rr_user_id r = uid) (redemptions s)))"

definition create_reward_row :: "reward_create \<Rightarrow> reward sql" where
  "create_reward_row req = bind_tx fresh_uuid (\<lambda>i s.
    let row = \<lparr>rw_id = i, rw_name = rc_name req, rw_description = rc_description req,
      rw_points_cost = rc_points_cost req, rw_stock = rc_stock req, rw_is_active = True,
      rw_display_order = rc_display_order req, rw_created_at = db_now s\<rparr>
    in case reward_violation row of
         Some e \<Rightarrow> Inl e
       | None \<Rightarrow> if i \<in> rw_id ` set (rewards s) then Inl (UniqueViolation ''rewards_pkey'')
           else Inr (row, s\<lparr>rewards := rewards s @ [row]\<rparr>))"

definition change_reward :: "reward_update \<Rightarrow> reward \<Rightarrow> reward" where
  "change_reward req r = r\<lparr>
     rw_name := set_to (ru_name req) (rw_name r),
     rw_description := set_to (ru_description req) (rw_description r),
     rw_points_cost := set_to (ru_points_cost req) (rw_points_cost r),
     rw_stock := set_to (ru_stock req) (rw_stock r),
     rw_is_active := set_to (ru_is_active req) (rw_is_active r),
     rw_display_order := set_to (ru_display_order req) (rw_display_order r)\<rparr>"

definition update_reward_row :: "uuid \<Rightarrow> reward_update \<Rightarrow> reward option sql" where
  "update_reward_row i req = write_reward i (change_reward req)"

section \<open>Service\<close>

definition list_rewards :: "auth_user \<Rightarrow> bool option \<Rightarrow> reward list app" where
  "list_rewards auth param =
    (let all = (param = Some True) in
     bind_tx (if all then of_result_tx (require_role auth Role_Admin) else return_tx ()) (\<lambda>_.
     db_try (if all then find_all_rewards else find_active_rewards)))"

definition reward_not_found :: string where
  "reward_not_found = utf8 [231, 141, 142, 229, 139, 181, 228, 184, 141, 229, 173, 152, 229, 156, 168]"

definition redeemed_out :: string where
  "redeemed_out = utf8 [229, 183, 178, 229, 133, 140, 230, 143, 155, 229, 174, 140, 231, 149, 162]"

record redeem_response =
  rd_redemption_id :: uuid
  rd_points_spent :: int
  rd_balance_after :: int

definition redeem_reward_tx :: "uuid \<Rightarrow> uuid \<Rightarrow> instant \<Rightarrow> redeem_response app" where
  "redeem_reward_tx uid reward_id now =
    bind_tx (db_try (lock_reward_tx reward_id)) (\<lambda>r.
    bind_tx (of_option_tx (NotFound reward_not_found) r) (\<lambda>reward.
    bind_tx (ensure_tx (rw_is_active reward) (NotFound reward_not_found)) (\<lambda>_.
    bind_tx (ensure_tx (case rw_stock reward of Some n \<Rightarrow> \<not> n \<le> 0 | None \<Rightarrow> True) (Conflict redeemed_out)) (\<lambda>_.
    bind_tx (try_spend_tx uid (rw_points_cost reward) now) (\<lambda>balance_after.
    bind_tx (if rw_stock reward \<noteq> None then db_try (decrement_reward_tx (rw_id reward)) else return_tx ()) (\<lambda>_.
    bind_tx (db_try (insert_redemption_tx (rw_id reward) uid (rw_points_cost reward))) (\<lambda>redemption.
    return_tx \<lparr>rd_redemption_id = rr_id redemption, rd_points_spent = rr_points_spent redemption,
      rd_balance_after = balance_after\<rparr>)))))))"

definition redeem_reward :: "uuid \<Rightarrow> uuid \<Rightarrow> instant \<Rightarrow> redeem_response handler" where
  "redeem_reward uid reward_id now = commit_tx (redeem_reward_tx uid reward_id now)"

definition my_redemptions ::
  "uuid \<Rightarrow> pagination_params \<Rightarrow> ((reward_redemption \<times> string) list \<times> page_meta) app" where
  "my_redemptions uid p =
    bind_tx (db_try (find_redemptions_by_user uid p)) (\<lambda>rows.
    bind_tx (db_try (count_redemptions_by_user uid)) (\<lambda>n. return_tx (rows, meta p n)))"

record create_reward_request =
  crw_name :: string
  crw_description :: "string option"
  crw_points_cost :: int
  crw_stock :: "int option"
  crw_display_order :: "int option"

definition create_reward :: "create_reward_request \<Rightarrow> reward handler" where
  "create_reward req = commit_tx (db_try (create_reward_row \<lparr>rc_name = crw_name req,
     rc_description = crw_description req, rc_points_cost = crw_points_cost req, rc_stock = crw_stock req,
     rc_display_order = (case crw_display_order req of Some n \<Rightarrow> n | None \<Rightarrow> 0)\<rparr>))"

definition update_reward :: "uuid \<Rightarrow> reward_update \<Rightarrow> reward handler" where
  "update_reward i req = commit_tx (
    bind_tx (db_try (update_reward_row i req)) (\<lambda>r. of_option_tx (NotFound reward_not_found) r))"

section \<open>One redemption\<close>

text \<open>
  What an accepted redemption did: the reward was on offer and in stock, the member could pay, and the
  four tables moved together.
\<close>

lemma redeem_reward_tx_Inr:
  assumes "redeem_reward_tx uid i now s = Inr (resp, s')"
  obtains r b\<^sub>0 b t u rr where "fetch_by (\<lambda>r. rw_id r = i) (rewards s) = Some r" "rw_is_active r"
    "rw_stock r = None \<or> (\<exists>n. rw_stock r = Some n \<and> 0 < n)"
    "try_spend_tx uid (rw_points_cost r) now s = Inr (b, t)"
    "if rw_stock r = None then u = t else decrement_reward_tx i t = Inr ((), u)"
    "insert_redemption_tx i uid (rw_points_cost r) u = Inr (rr, s')"
    "resp = \<lparr>rd_redemption_id = rr_id rr, rd_points_spent = rr_points_spent rr, rd_balance_after = b\<rparr>"
proof -
  obtain r where r: "fetch_by (\<lambda>r. rw_id r = i) (rewards s) = Some r"
    using assms by (auto simp: redeem_reward_tx_def lock_reward_tx_def bind_tx_Inr)
  then have "rw_id r = i" using fetch_by_Some by fastforce
  with r assms show ?thesis
    by (auto simp: redeem_reward_tx_def lock_reward_tx_def bind_tx_Inr split: if_splits option.splits
        intro!: that [OF r])
qed


lemma write_reward_Inr:
  assumes "write_reward i f s = Inr (r, s')"
  shows "s' = s \<and> r = None \<and> fetch_by (\<lambda>r. rw_id r = i) (rewards s) = None \<or>
    (\<exists>x. fetch_by (\<lambda>r. rw_id r = i) (rewards s) = Some x \<and> r = Some (f x) \<and> reward_violation (f x) = None \<and>
      s' = s\<lparr>rewards := update_where (\<lambda>r. rw_id r = i) f (rewards s)\<rparr>)"
  using assms by (auto simp: write_reward_def split: option.splits)

lemma insert_redemption_tx_Inr:
  assumes "insert_redemption_tx i uid n s = Inr (rr, s')"
  shows "0 < n \<and> rr_reward_id rr = i \<and> rr_user_id rr = uid \<and> rr_points_spent rr = n \<and> rr_created_at rr = db_now s \<and>
    rr_id rr \<notin> rr_id ` set (redemptions s) \<and>
    s' = s\<lparr>uuid_pos := uuid_pos s + 1, redemptions := redemptions s @ [rr]\<rparr>"
  using assms by (auto simp: insert_redemption_tx_def bind_tx_def Let_def split: if_splits)

lemma user_balance_cong: "users s' = users s \<Longrightarrow> user_balance s' = user_balance s"
  by (simp add: user_balance_def user_by_id_def fun_eq_iff)

definition redeemed_by :: "uuid \<Rightarrow> db \<Rightarrow> int" where
  "redeemed_by uid s = sum_where (\<lambda>r. rr_user_id r = uid) rr_points_spent (redemptions s)"

definition spent_by :: "uuid \<Rightarrow> db \<Rightarrow> int" where
  "spent_by uid s = - sum_where (\<lambda>r. l_user_id r = uid \<and> l_reason r = PR_Redeem) l_delta (point_ledger s)"

definition reward_ok :: "reward \<Rightarrow> bool" where
  "reward_ok r \<longleftrightarrow> reward_violation r = None \<and> in_i32 (rw_points_cost r)"

definition rewards_ok :: "db \<Rightarrow> bool" where
  "rewards_ok s \<longleftrightarrow> distinct (map rw_id (rewards s)) \<and> list_all reward_ok (rewards s) \<and> (\<forall>uid. spent_by uid s = redeemed_by uid s)"

lemma try_spend_tx_ledger:
  assumes "try_spend_tx uid cost now s = Inr (b, s')"
  obtains i where "point_ledger s' = point_ledger s @ [\<lparr>l_id = i, l_user_id = uid, l_delta = wrap64 (- cost),
      l_reason = PR_Redeem, l_order_id = None, l_created_at = now\<rparr>]"
    "rewards s' = rewards s" "redemptions s' = redemptions s" "db_now s' = db_now s"
proof -
  obtain l where "bl_user_id l = uid" "apply_delta_tx l (redeem cost) now s = Inr (b, s')"
    using assms unfolding try_spend_tx_def by (auto simp: bind_tx_Inr)
  then show ?thesis by (elim apply_delta_tx_Inr) (auto simp: redeem_def intro: that)
qed

lemma take_one_simps [simp]:
  "rw_id (take_one r) = rw_id r" "rw_stock (take_one r) = map_option (\<lambda>n. n - 1) (rw_stock r)"
  "rw_points_cost (take_one r) = rw_points_cost r"
  by (simp_all add: take_one_def)

lemma fetch_by_taken:
  "fetch_by (\<lambda>r. rw_id r = k) (update_where (\<lambda>r. rw_id r = i) take_one t) =
    (if k = i then map_option take_one (fetch_by (\<lambda>r. rw_id r = k) t) else fetch_by (\<lambda>r. rw_id r = k) t)"
  by (induction t) auto

lemma redeem_settles_spec:
  assumes "redeem_reward uid i now s = (r, s')" "list_all reward_ok (rewards s)"
  shows "case r of
      Inl _ \<Rightarrow> s' = s
    | Inr resp \<Rightarrow> \<exists>w b. fetch_by (\<lambda>w. rw_id w = i) (rewards s) = Some w \<and> rw_is_active w \<and>
        user_balance s uid = Some b \<and> rw_points_cost w \<le> b \<and> rd_balance_after resp = b - rw_points_cost w \<and>
        user_balance s' = (user_balance s)(uid \<mapsto> b - rw_points_cost w) \<and>
        map_option rw_stock (fetch_by (\<lambda>w. rw_id w = i) (rewards s')) =
          Some (map_option (\<lambda>n. n - 1) (rw_stock w)) \<and>
        spent_by u s' = spent_by u s + (if u = uid then rw_points_cost w else 0) \<and>
        redeemed_by u s' = redeemed_by u s + (if u = uid then rw_points_cost w else 0) \<and>
        (k \<noteq> i \<longrightarrow> fetch_by (\<lambda>w. rw_id w = k) (rewards s') = fetch_by (\<lambda>w. rw_id w = k) (rewards s))"
proof (cases "redeem_reward_tx uid i now s")
  case (Inl e)
  then show ?thesis using assms(1) by (auto simp: redeem_reward_def)
next
  case (Inr y)
  obtain resp t\<^sub>0 where "y = (resp, t\<^sub>0)" by (cases y)
  with Inr assms(1) have run: "redeem_reward_tx uid i now s = Inr (resp, s')" and r: "r = Inr resp"
    by (auto simp: redeem_reward_def)
  obtain w b\<^sub>0 b t u rr where w: "fetch_by (\<lambda>r. rw_id r = i) (rewards s) = Some w" "rw_is_active w"
    and stock: "rw_stock w = None \<or> (\<exists>n. rw_stock w = Some n \<and> 0 < n)"
    and spend: "try_spend_tx uid (rw_points_cost w) now s = Inr (b, t)"
    and dec: "if rw_stock w = None then u = t else decrement_reward_tx i t = Inr ((), u)"
    and ins: "insert_redemption_tx i uid (rw_points_cost w) u = Inr (rr, s')"
    and resp: "resp = \<lparr>rd_redemption_id = rr_id rr, rd_points_spent = rr_points_spent rr, rd_balance_after = b\<rparr>"
    by (rule redeem_reward_tx_Inr [OF run])
  have ok: "in_i32 (rw_points_cost w)"
    using assms(2) fetch_by_Some [OF w(1)] by (auto simp: list_all_iff reward_ok_def)
  have cost: "wrap64 (- rw_points_cost w) = - rw_points_cost w"
    using ok by (intro wrap64_id) (simp add: in_i64_def in_i32_def)
  obtain b\<^sub>1 where b: "user_balance s uid = Some b\<^sub>1" "rw_points_cost w \<le> b\<^sub>1" "b = b\<^sub>1 - rw_points_cost w"
    "user_balance t = (user_balance s)(uid \<mapsto> b)"
    using try_spend_tx_Inr [OF spend] cost by (metis diff_conv_add_uminus)
  obtain k\<^sub>0 where t: "point_ledger t = point_ledger s @ [\<lparr>l_id = k\<^sub>0, l_user_id = uid,
      l_delta = - rw_points_cost w, l_reason = PR_Redeem, l_order_id = None, l_created_at = now\<rparr>]"
    "rewards t = rewards s" "redemptions t = redemptions s"
    using try_spend_tx_ledger [OF spend] cost by metis
  have u: "point_ledger u = point_ledger t" "redemptions u = redemptions t" "users u = users t"
    "rewards u = (if rw_stock w = None then rewards t else update_where (\<lambda>r. rw_id r = i) take_one (rewards t))"
    using dec w(1) t(2) by (auto simp: decrement_reward_tx_def bind_tx_Inr dest!: write_reward_Inr split: if_splits)
  note rr = insert_redemption_tx_Inr [OF ins]
  have paid: "rr_user_id rr = uid" "rr_points_spent rr = rw_points_cost w" using rr by auto
  have s': "point_ledger s' = point_ledger u" "redemptions s' = redemptions s @ [rr]" "users s' = users t"
    "rewards s' = rewards u" using rr u(2,3) t(3) by auto
  have "user_balance s' = (user_balance s)(uid \<mapsto> b\<^sub>1 - rw_points_cost w)"
    using user_balance_cong [OF s'(3)] b by simp
  moreover have "map_option rw_stock (fetch_by (\<lambda>w. rw_id w = i) (rewards s')) =
      Some (map_option (\<lambda>n. n - 1) (rw_stock w))"
    using w(1) by (auto simp: s'(4) u(4) t(2) fetch_by_taken)
  moreover have "fetch_by (\<lambda>w. rw_id w = k) (rewards s') = fetch_by (\<lambda>w. rw_id w = k) (rewards s)" if "k \<noteq> i"
    using that by (simp add: s'(4) u(4) t(2) fetch_by_taken)
  moreover have "spent_by v s' = spent_by v s + (if v = uid then rw_points_cost w else 0)" for v
    by (simp add: spent_by_def s'(1) u(1) t(1))
  moreover have "redeemed_by v s' = redeemed_by v s + (if v = uid then rw_points_cost w else 0)" for v
    using paid by (simp add: redeemed_by_def s'(2))
  ultimately show ?thesis unfolding r using w b by (simp add: resp)
qed

section \<open>Any run of the module\<close>

text \<open>
  The steps: the three writing handlers, a change of the ledger for any other reason, and anything that
  leaves the three tables alone. The numbers of a request are 32-bit.
\<close>

inductive rewards_step :: "db \<Rightarrow> db \<Rightarrow> bool" where
  redeemed: "redeem_reward uid i now s = (r, s') \<Longrightarrow> rewards_step s s'"
| created: "create_reward req s = (r, s') \<Longrightarrow> in_i32 (crw_points_cost req) \<Longrightarrow> rewards_step s s'"
| changed: "update_reward i req s = (r, s') \<Longrightarrow>
    (case ru_points_cost req of None \<Rightarrow> True | Some n \<Rightarrow> in_i32 n) \<Longrightarrow> rewards_step s s'"
| posted: "apply_delta_tx lock ld now s = Inr (b, s') \<Longrightarrow> ld_reason ld \<noteq> PR_Redeem \<Longrightarrow> rewards_step s s'"
| elsewhere: "rewards s' = rewards s \<Longrightarrow> redemptions s' = redemptions s \<Longrightarrow> point_ledger s' = point_ledger s \<Longrightarrow>
    rewards_step s s'"

inductive rewards_reachable :: "db \<Rightarrow> bool" where
  empty: "rewards s = [] \<Longrightarrow> redemptions s = [] \<Longrightarrow> point_ledger s = [] \<Longrightarrow> rewards_reachable s"
| step: "rewards_reachable s \<Longrightarrow> rewards_step s s' \<Longrightarrow> rewards_reachable s'"

lemma write_keeps_catalogue:
  assumes "write_reward i f s = Inr (r, s')" "list_all reward_ok (rewards s)" "distinct (map rw_id (rewards s))"
    and f: "\<And>x. reward_ok x \<Longrightarrow> in_i32 (rw_points_cost (f x))" "\<And>x. rw_id (f x) = rw_id x"
  shows "list_all reward_ok (rewards s') \<and> distinct (map rw_id (rewards s')) \<and>
    redemptions s' = redemptions s \<and> point_ledger s' = point_ledger s"
  using write_reward_Inr [OF assms(1)]
proof (elim disjE exE conjE)
  fix x assume x: "fetch_by (\<lambda>r. rw_id r = i) (rewards s) = Some x" "reward_violation (f x) = None"
    and s': "s' = s\<lparr>rewards := update_where (\<lambda>r. rw_id r = i) f (rewards s)\<rparr>"
  have row: "x \<in> set (rewards s)" "rw_id x = i" using fetch_by_Some [OF x(1)] by auto
  have "reward_ok (f y)" if "y \<in> set (rewards s)" "rw_id y = i" for y
  proof -
    have "y = x" using that row assms(3) by (auto simp: distinct_map inj_on_def)
    then show ?thesis using x(2) f(1) [of x] assms(2) row by (simp add: reward_ok_def list_all_iff)
  qed
  then have "list_all reward_ok (update_where (\<lambda>r. rw_id r = i) f (rewards s))"
    using assms(2) unfolding list_all_iff set_update_where by blast
  then show ?thesis using assms(3) by (simp add: s' map_update_where f(2))
qed (use assms in simp)

lemma redeem_keeps:
  assumes "redeem_reward uid i now s = (r, s')" "rewards_ok s"
  shows "rewards_ok s'"
proof (cases r)
  case (Inl e)
  then have "s' = s" using assms(1) by (auto simp: redeem_reward_def commit_tx_def split: sum.splits)
  then show ?thesis using assms(2) by simp
next
  case (Inr resp)
  have ok: "list_all reward_ok (rewards s)" using assms(2) by (simp add: rewards_ok_def)
  have run: "redeem_reward_tx uid i now s = Inr (resp, s')"
    using assms(1) Inr by (auto simp: redeem_reward_def commit_tx_def split: sum.splits)
  obtain w b t u rr where "fetch_by (\<lambda>r. rw_id r = i) (rewards s) = Some w" "rw_is_active w"
    and "rw_stock w = None \<or> (\<exists>n. rw_stock w = Some n \<and> 0 < n)"
    and spend: "try_spend_tx uid (rw_points_cost w) now s = Inr (b, t)"
    and dec: "if rw_stock w = None then u = t else decrement_reward_tx i t = Inr ((), u)"
    and ins: "insert_redemption_tx i uid (rw_points_cost w) u = Inr (rr, s')"
    and "resp = \<lparr>rd_redemption_id = rr_id rr, rd_points_spent = rr_points_spent rr, rd_balance_after = b\<rparr>"
    by (rule redeem_reward_tx_Inr [OF run])
  have t: "rewards t = rewards s" using try_spend_tx_ledger [OF spend] by metis
  have "rewards s' = rewards u" using insert_redemption_tx_Inr [OF ins] by simp
  moreover have "list_all reward_ok (rewards u) \<and> distinct (map rw_id (rewards u))"
  proof (cases "rw_stock w = None")
    case True
    then show ?thesis using dec t assms(2) by (simp add: rewards_ok_def)
  next
    case False
    then obtain x where "write_reward i take_one t = Inr (x, u)"
      using dec by (auto simp: decrement_reward_tx_def bind_tx_Inr)
    then show ?thesis
      using assms(2) t by (auto dest!: write_keeps_catalogue simp: rewards_ok_def reward_ok_def)
  qed
  moreover have "spent_by v s' = redeemed_by v s'" for v
  proof -
    have "spent_by v s' - spent_by v s = redeemed_by v s' - redeemed_by v s"
      using redeem_settles_spec [OF assms(1) ok, of v i] Inr by auto
    moreover have "spent_by v s = redeemed_by v s" using assms(2) by (simp add: rewards_ok_def)
    ultimately show ?thesis by simp
  qed
  ultimately show ?thesis by (simp add: rewards_ok_def)
qed

lemma create_keeps:
  assumes "create_reward req s = (r, s')" "in_i32 (crw_points_cost req)" "rewards_ok s"
  shows "rewards_ok s'"
proof -
  let ?m = "create_reward_row \<lparr>rc_name = crw_name req, rc_description = crw_description req,
     rc_points_cost = crw_points_cost req, rc_stock = crw_stock req,
     rc_display_order = (case crw_display_order req of Some n \<Rightarrow> n | None \<Rightarrow> 0)\<rparr>"
  consider "s' = s" | w where "?m s = Inr (w, s')"
    using assms(1) by (auto simp: create_reward_def commit_tx_def split: sum.splits)
  then show ?thesis
  proof cases
    case (2 w)
    have new: "reward_violation w = None" "rw_points_cost w = crw_points_cost req" "rw_id w \<notin> rw_id ` set (rewards s)"
      and s': "s' = s\<lparr>uuid_pos := uuid_pos s + 1, rewards := rewards s @ [w]\<rparr>"
      using 2 by (auto simp: create_reward_row_def bind_tx_def Let_def split: option.splits if_splits)
    show ?thesis using assms(2,3) new
      by (simp add: s' rewards_ok_def reward_ok_def spent_by_def redeemed_by_def)
  qed (simp add: assms(3))
qed

lemma update_reward_keeps:
  assumes "update_reward i req s = (r, s')" "case ru_points_cost req of None \<Rightarrow> True | Some n \<Rightarrow> in_i32 n" "rewards_ok s"
  shows "rewards_ok s'"
proof -
  consider "s' = s" | w where "write_reward i (change_reward req) s = Inr (w, s')"
    using assms(1) by (auto simp: update_reward_def update_reward_row_def commit_tx_def bind_tx_Inr split: sum.splits)
  then show ?thesis
  proof cases
    case (2 w)
    have "list_all reward_ok (rewards s') \<and> distinct (map rw_id (rewards s')) \<and>
        redemptions s' = redemptions s \<and> point_ledger s' = point_ledger s"
      using assms(2,3) by (intro write_keeps_catalogue [OF 2])
        (auto simp: rewards_ok_def reward_ok_def change_reward_def set_to_def split: option.splits)
    then show ?thesis using assms(3) by (simp add: rewards_ok_def spent_by_def redeemed_by_def)
  qed (simp add: assms(3))
qed

lemma rewards_step_keeps: "rewards_step s s' \<Longrightarrow> rewards_ok s \<Longrightarrow> rewards_ok s'"
proof (induction rule: rewards_step.induct)
  case (posted lock ld now s b s')
  then show ?case
    by (elim apply_delta_tx_Inr) (simp add: rewards_ok_def spent_by_def redeemed_by_def)
qed (use redeem_keeps create_keeps update_reward_keeps in
    \<open>simp_all add: rewards_ok_def spent_by_def redeemed_by_def\<close>)

text \<open>
  C26. Every redemption is paid for and every point spent on rewards bought one: in any state reached by
  redemptions, catalogue changes and other point movements, what a member's ledger shows as redeemed
  is exactly what that member's redemptions cost, and no stock is below zero.
\<close>

theorem redemptions_paid:
  assumes "rewards_reachable s"
  shows "spent_by uid s = redeemed_by uid s \<and> list_all reward_ok (rewards s)"
proof -
  have "rewards_ok s"
    using assms
  proof (induction rule: rewards_reachable.induct)
    case (empty s)
    then show ?case by (simp add: rewards_ok_def spent_by_def redeemed_by_def)
  next
    case (step s s')
    then show ?case using rewards_step_keeps by blast
  qed
  then show ?thesis by (simp add: rewards_ok_def)
qed

definition reward_shop :: db where
  "reward_shop = empty_db\<lparr>users := [member 3 50]\<rparr>"

definition towel :: create_reward_request where
  "towel = \<lparr>crw_name = ''Towel'', crw_description = None, crw_points_cost = 30, crw_stock = Some 1,
     crw_display_order = None\<rparr>"

definition stocked :: db where "stocked = snd (create_reward towel reward_shop)"
definition sold_out :: db where "sold_out = snd (redeem_reward 3 1000 7 stocked)"

text \<open>
  A redemption is a sale for points: it needs an active reward, in stock, that the member can pay; it
  takes exactly one of a limited stock and exactly the cost from that member's balance, and writes
  one ledger row and one redemption row for the same amount. A refused one changes nothing.
\<close>

theorem redeem_settles:
  assumes "redeem_reward uid i now s = (r, s')" "list_all reward_ok (rewards s)"
  shows "case r of
      Inl _ \<Rightarrow> s' = s
    | Inr resp \<Rightarrow> \<exists>w b. fetch_by (\<lambda>w. rw_id w = i) (rewards s) = Some w \<and> rw_is_active w \<and>
        user_balance s uid = Some b \<and> rw_points_cost w \<le> b \<and> rd_balance_after resp = b - rw_points_cost w \<and>
        user_balance s' = (user_balance s)(uid \<mapsto> b - rw_points_cost w) \<and>
        map_option rw_stock (fetch_by (\<lambda>w. rw_id w = i) (rewards s')) =
          Some (map_option (\<lambda>n. n - 1) (rw_stock w)) \<and>
        spent_by u s' = spent_by u s + (if u = uid then rw_points_cost w else 0) \<and>
        redeemed_by u s' = redeemed_by u s + (if u = uid then rw_points_cost w else 0) \<and>
        (k \<noteq> i \<longrightarrow> fetch_by (\<lambda>w. rw_id w = k) (rewards s') = fetch_by (\<lambda>w. rw_id w = k) (rewards s))"
  using assms by (rule redeem_settles_spec)

lemma redeem_settles_witness:
  "user_balance sold_out 3 = Some 20 \<and> map rw_stock (rewards sold_out) = [Some 0]"
proof -
  have "\<not> isl (fst (redeem_reward 3 1000 7 stocked))" by code_simp
  then obtain r where run: "redeem_reward 3 1000 7 stocked = (Inr r, sold_out)"
    by (cases "redeem_reward 3 1000 7 stocked"; cases "fst (redeem_reward 3 1000 7 stocked)")
      (auto simp: sold_out_def)
  have rows: "list_all reward_ok (rewards stocked)"
    "map_option rw_points_cost (fetch_by (\<lambda>w. rw_id w = 1000) (rewards stocked)) = Some 30"
    "user_balance stocked 3 = Some 50" "map rw_stock (rewards sold_out) = [Some 0]"
    by code_simp+
  then show ?thesis using redeem_settles [OF run rows(1)] by auto
qed

lemma redemptions_paid_witness:
  "redeemed_by 3 sold_out = 30 \<and> spent_by 3 sold_out = 30"
proof -
  have "rewards_reachable reward_shop"
    by (rule rewards_reachable.empty) (simp_all add: reward_shop_def empty_db_def)
  moreover have "rewards_step reward_shop stocked"
    unfolding stocked_def by (rule rewards_step.created [OF surjective_pairing]) (simp add: towel_def in_i32_def)
  moreover have "rewards_step stocked sold_out"
    unfolding sold_out_def by (rule rewards_step.redeemed [OF surjective_pairing])
  ultimately have "rewards_reachable sold_out" by (meson rewards_reachable.step)
  note paid = redemptions_paid [OF this, of 3]
  have "redeemed_by 3 sold_out = 30" by code_simp
  then show ?thesis using paid by simp
qed

end
