(* ===== verification/Messages.thy ===== *)
theory Messages
  imports AccountAccess Points Notices
begin

text \<open>
  Messages (\<open>src/modules/messages\<close>): the pairing of a coach and a member, the conversation two users
  share, its messages and read marks. That two users share at most one conversation is the unordered
  unique index; the theory shows what the handlers make of it.
\<close>

section \<open>Pairing\<close>

definition role_violation :: string where
  "role_violation = utf8 [229, 131, 133, 230, 148, 175, 230, 143, 180, 230, 149, 153, 231, 183, 180, 232, 136, 135, 230, 156, 131, 229, 147, 161, 233, 150, 147, 231, 154, 132, 229, 176, 141, 232, 169, 177]"

definition holds_role :: "string list \<Rightarrow> role \<Rightarrow> bool" where
  "holds_role roles r = list_ex (\<lambda>x. x = role_as_str r) roles"

definition resolve_pair :: "uuid \<Rightarrow> string list \<Rightarrow> uuid \<Rightarrow> string list \<Rightarrow> app_error + (uuid \<times> uuid)" where
  "resolve_pair caller_id caller_roles target_id target_roles =
    (if target_id = caller_id then Inl (Validation role_violation)
     else if holds_role caller_roles Role_Coach \<and> holds_role target_roles Role_Member then Inr (target_id, caller_id)
     else if holds_role caller_roles Role_Member \<and> holds_role target_roles Role_Coach then Inr (caller_id, target_id)
     else Inl (Validation role_violation))"

section \<open>Repository\<close>

definition pair_of :: "uuid \<Rightarrow> uuid \<Rightarrow> conversation \<Rightarrow> bool" where
  "pair_of a b c \<longleftrightarrow> cv_member_id c = a \<and> cv_coach_id c = b \<or> cv_member_id c = b \<and> cv_coach_id c = a"

definition find_by_user_pair :: "uuid \<Rightarrow> uuid \<Rightarrow> conversation option sql" where
  "find_by_user_pair a b = get_tx (\<lambda>s. fetch_by (pair_of a b) (conversations s))"

text \<open>The table's checks: two different users, and the unique index over the unordered pair.\<close>

definition insert_conversation :: "uuid \<Rightarrow> uuid \<Rightarrow> conversation sql" where
  "insert_conversation member_id coach_id = bind_tx fresh_uuid (\<lambda>i s.
    let row = \<lparr>cv_id = i, cv_member_id = member_id, cv_coach_id = coach_id, cv_created_at = db_now s,
      cv_last_message_at = None\<rparr>
    in if member_id = coach_id then Inl (CheckViolation ''conversations_member_coach_distinct'')
       else if i \<in> cv_id ` set (conversations s) then Inl (UniqueViolation ''conversations_pkey'')
       else if list_ex (pair_of member_id coach_id) (conversations s)
         then Inl (UniqueViolation ''conversations_unique_user_pair'')
       else Inr (row, s\<lparr>conversations := conversations s @ [row]\<rparr>))"

text \<open>Text is UTF-8, so a character is a byte that does not continue one.\<close>

definition continues_char :: "char \<Rightarrow> bool" where
  "continues_char c = (of_char c div (64 :: int) = 2)"

definition char_length :: "string \<Rightarrow> nat" where
  "char_length s = count_where (\<lambda>c. \<not> continues_char c) s"

fun left_chars :: "nat \<Rightarrow> string \<Rightarrow> string" where
  "left_chars n [] = []"
| "left_chars n (c # cs) =
    (if continues_char c then c # left_chars n cs
     else case n of 0 \<Rightarrow> [] | Suc m \<Rightarrow> c # left_chars m cs)"

record conversation_summary =
  sy_id :: uuid
  sy_peer_id :: uuid
  sy_peer_name :: string
  sy_last_message_body :: "string option"
  sy_last_message_at :: "instant option"
  sy_unread_count :: int

definition in_conversation :: "uuid \<Rightarrow> conversation \<Rightarrow> bool" where
  "in_conversation uid c \<longleftrightarrow> cv_member_id c = uid \<or> cv_coach_id c = uid"

definition unread_for :: "uuid \<Rightarrow> message \<Rightarrow> bool" where
  "unread_for uid m \<longleftrightarrow> mg_sender_id m \<noteq> uid \<and> mg_read_at m = None"

definition summary_of :: "db \<Rightarrow> uuid \<Rightarrow> conversation \<Rightarrow> conversation_summary option" where
  "summary_of s uid c =
    Option.bind (user_by_id (cv_member_id c) s) (\<lambda>um. map_option (\<lambda>uc.
    \<lparr>sy_id = cv_id c,
     sy_peer_id = (if cv_member_id c = uid then cv_coach_id c else cv_member_id c),
     sy_peer_name = (if cv_member_id c = uid then u_name uc else u_name um),
     sy_last_message_body =
       (case Notices.newest_first mg_created_at (filter (\<lambda>m. mg_conversation_id m = cv_id c) (messages s)) of
          [] \<Rightarrow> None | m # _ \<Rightarrow> Some (left_chars 100 (mg_body m))),
     sy_last_message_at = cv_last_message_at c,
     sy_unread_count = int (count_where (\<lambda>m. mg_conversation_id m = cv_id c \<and> unread_for uid m) (messages s))\<rparr>)
    (user_by_id (cv_coach_id c) s))"

text \<open>The latest conversation first, those without a message last.\<close>

definition by_last_message :: "conversation list \<Rightarrow> conversation list" where
  "by_last_message rows =
    (let r = Notices.newest_first cv_created_at rows
     in Notices.newest_first (\<lambda>c. case cv_last_message_at c of Some t \<Rightarrow> t | None \<Rightarrow> 0)
          (filter (\<lambda>c. cv_last_message_at c \<noteq> None) r) @
        filter (\<lambda>c. cv_last_message_at c = None) r)"

definition find_my_conversations :: "uuid \<Rightarrow> conversation_summary list sql" where
  "find_my_conversations uid = get_tx (\<lambda>s. List.map_filter (summary_of s uid)
    (by_last_message (filter (in_conversation uid) (conversations s))))"

definition count_unread :: "uuid \<Rightarrow> db \<Rightarrow> int" where
  "count_unread uid s = int (count_where (\<lambda>m. unread_for uid m \<and>
    list_ex (\<lambda>c. cv_id c = mg_conversation_id m \<and> in_conversation uid c) (conversations s)) (messages s))"

definition count_unread_for_user :: "uuid \<Rightarrow> int sql" where
  "count_unread_for_user uid = get_tx (count_unread uid)"

definition find_participants :: "uuid \<Rightarrow> (uuid \<times> uuid) option sql" where
  "find_participants cid = get_tx (\<lambda>s. map_option (\<lambda>c. (cv_member_id c, cv_coach_id c))
    (fetch_by (\<lambda>c. cv_id c = cid) (conversations s)))"

definition count_messages :: "uuid \<Rightarrow> int sql" where
  "count_messages cid = get_tx (\<lambda>s. int (count_where (\<lambda>m. mg_conversation_id m = cid) (messages s)))"

definition find_messages :: "uuid \<Rightarrow> pagination_params \<Rightarrow> message list sql" where
  "find_messages cid p = get_tx (\<lambda>s. page_rows p
    (Notices.newest_first mg_created_at (filter (\<lambda>m. mg_conversation_id m = cid) (messages s))))"

definition insert_message_tx :: "uuid \<Rightarrow> uuid \<Rightarrow> string \<Rightarrow> message sql" where
  "insert_message_tx cid sender body = bind_tx fresh_uuid (\<lambda>i s.
    let row = \<lparr>mg_id = i, mg_conversation_id = cid, mg_sender_id = sender, mg_body = body,
      mg_created_at = db_now s, mg_read_at = None\<rparr>
    in if \<not> (1 \<le> char_length body \<and> char_length body \<le> 2000) then Inl (CheckViolation ''messages_body_check'')
       else if i \<in> mg_id ` set (messages s) then Inl (UniqueViolation ''messages_pkey'')
       else Inr (row, s\<lparr>messages := messages s @ [row]\<rparr>))"

definition touch_last_message_at_tx :: "uuid \<Rightarrow> unit sql" where
  "touch_last_message_at_tx cid = put_tx (\<lambda>s. s\<lparr>conversations :=
    update_where (\<lambda>c. cv_id c = cid) (\<lambda>c. c\<lparr>cv_last_message_at := Some (db_now s)\<rparr>) (conversations s)\<rparr>)"

definition to_mark :: "uuid \<Rightarrow> uuid \<Rightarrow> message \<Rightarrow> bool" where
  "to_mark cid uid m \<longleftrightarrow> mg_conversation_id m = cid \<and> unread_for uid m"

definition mark_read_rows :: "uuid \<Rightarrow> uuid \<Rightarrow> int sql" where
  "mark_read_rows cid uid = (\<lambda>s. Inr (int (count_where (to_mark cid uid) (messages s)),
    s\<lparr>messages := update_where (to_mark cid uid) (\<lambda>m. m\<lparr>mg_read_at := Some (db_now s)\<rparr>) (messages s)\<rparr>))"

section \<open>Service\<close>

definition resolve_member_coach :: "auth_user \<Rightarrow> uuid \<Rightarrow> (uuid \<times> uuid) app" where
  "resolve_member_coach auth target_id =
    bind_tx (ensure_tx (target_id \<noteq> au_user_id auth) (Validation role_violation)) (\<lambda>_.
    bind_tx (db_try (find_role_names_by_user target_id)) (\<lambda>target_roles.
    of_result_tx (resolve_pair (au_user_id auth) (au_roles auth) target_id target_roles)))"

text \<open>The insert, or the row a competing request inserted first.\<close>

definition insert_or_existing :: "uuid \<Rightarrow> uuid \<Rightarrow> conversation app" where
  "insert_or_existing member_id coach_id = (\<lambda>s.
    case insert_conversation member_id coach_id s of
      Inr r \<Rightarrow> Inr r
    | Inl (UniqueViolation _) \<Rightarrow>
        bind_tx (db_try (find_by_user_pair member_id coach_id)) (\<lambda>r. of_option_tx
          (Internal (''conversation ('' @ show_nat member_id @ '', '' @ show_nat coach_id @
             '') vanished after unique violation'')) r) s
    | Inl e \<Rightarrow> Inl (Database e))"

definition create_conversation_tx :: "auth_user \<Rightarrow> uuid \<Rightarrow> conversation app" where
  "create_conversation_tx auth target_id =
    bind_tx (resolve_member_coach auth target_id) (\<lambda>(member_id, coach_id).
    bind_tx (db_try (find_by_user_pair member_id coach_id)) (\<lambda>r. case r of
      Some existing \<Rightarrow> return_tx existing
    | None \<Rightarrow> insert_or_existing member_id coach_id))"

definition create_conversation :: "auth_user \<Rightarrow> uuid \<Rightarrow> conversation handler" where
  "create_conversation auth target_id = commit_tx (create_conversation_tx auth target_id)"

definition list_my_conversations :: "uuid \<Rightarrow> conversation_summary list app" where
  "list_my_conversations uid = db_try (find_my_conversations uid)"

definition authorize_participant :: "auth_user \<Rightarrow> uuid \<Rightarrow> (uuid \<times> uuid) app" where
  "authorize_participant auth cid =
    bind_tx (db_try (find_participants cid)) (\<lambda>r.
    bind_tx (of_option_tx (NotFound (utf8 [229, 176, 141, 232, 169, 177, 228, 184, 141, 229, 173, 152, 229, 156, 168])) r) (\<lambda>p.
    bind_tx (ensure_tx (fst p = au_user_id auth \<or> snd p = au_user_id auth) (Forbidden (utf8 [233, 157, 158, 230, 173, 164, 229, 176, 141, 232, 169, 177, 229, 143, 131, 232, 136, 135, 232, 128, 133]))) (\<lambda>_.
    return_tx p)))"

definition list_messages :: "auth_user \<Rightarrow> uuid \<Rightarrow> pagination_params \<Rightarrow> (message list \<times> page_meta) app" where
  "list_messages auth cid p =
    bind_tx (authorize_participant auth cid) (\<lambda>_.
    bind_tx (db_try (count_messages cid)) (\<lambda>n.
    bind_tx (db_try (find_messages cid p)) (\<lambda>rows. return_tx (rows, meta p n))))"

definition send_message :: "auth_user \<Rightarrow> uuid \<Rightarrow> string \<Rightarrow> message handler" where
  "send_message auth cid body = commit_tx (
    bind_tx (authorize_participant auth cid) (\<lambda>_.
    bind_tx (db_try (insert_message_tx cid (au_user_id auth) body)) (\<lambda>m.
    bind_tx (db_try (touch_last_message_at_tx cid)) (\<lambda>_. return_tx m))))"

definition mark_read :: "auth_user \<Rightarrow> uuid \<Rightarrow> int handler" where
  "mark_read auth cid = commit_tx (
    bind_tx (authorize_participant auth cid) (\<lambda>_. db_try (mark_read_rows cid (au_user_id auth))))"


section \<open>What the tables always satisfy\<close>

definition one_per_pair :: "conversation list \<Rightarrow> bool" where
  "one_per_pair t \<longleftrightarrow>
    (\<forall>c \<in> set t. \<forall>d \<in> set t. pair_of (cv_member_id d) (cv_coach_id d) c \<longrightarrow> c = d)"

definition talk_ok :: "db \<Rightarrow> bool" where
  "talk_ok s \<longleftrightarrow> distinct (map cv_id (conversations s)) \<and> one_per_pair (conversations s) \<and>
    (\<forall>c \<in> set (conversations s). cv_member_id c \<noteq> cv_coach_id c) \<and>
    (\<forall>m \<in> set (messages s). \<exists>c \<in> set (conversations s). cv_id c = mg_conversation_id m \<and>
      in_conversation (mg_sender_id m) c)"

lemma pair_of_sym: "pair_of (cv_member_id d) (cv_coach_id d) c \<longleftrightarrow> pair_of (cv_member_id c) (cv_coach_id c) d"
  by (auto simp: pair_of_def)

lemma insert_conversation_Inr:
  assumes "insert_conversation a b s = Inr (c, s')"
  shows "cv_member_id c = a \<and> cv_coach_id c = b \<and> a \<noteq> b \<and> cv_id c \<notin> cv_id ` set (conversations s) \<and>
    (\<forall>d \<in> set (conversations s). \<not> pair_of a b d) \<and>
    s' = s\<lparr>uuid_pos := uuid_pos s + 1, conversations := conversations s @ [c]\<rparr>"
  using assms by (auto simp: insert_conversation_def bind_tx_def Let_def list_ex_iff split: if_splits)

lemma insert_keeps_talk:
  assumes "insert_conversation a b s = Inr (c, s')" "talk_ok s"
  shows "talk_ok s'"
proof -
  note i = insert_conversation_Inr [OF assms(1)]
  have "one_per_pair (conversations s @ [c])"
    using assms(2) i pair_of_sym unfolding talk_ok_def one_per_pair_def by auto
  then show ?thesis using assms(2) i by (auto simp: talk_ok_def)
qed

lemma create_conversation_cases:
  assumes "create_conversation auth target s = (r, s')"
  obtains (same) "s' = s" | (opened) a b c where "insert_conversation a b s = Inr (c, s')" "r = Inr c"
proof (cases "create_conversation_tx auth target s")
  case (Inl e)
  then show ?thesis using assms same by (simp add: create_conversation_def)
next
  case (Inr y)
  then obtain c where r: "create_conversation_tx auth target s = Inr (c, s')" "r = Inr c"
    using assms by (cases y) (auto simp: create_conversation_def)
  then obtain a b t where t: "resolve_member_coach auth target s = Inr ((a, b), t)"
    and rest: "(case fetch_by (pair_of a b) (conversations t) of Some e \<Rightarrow> return_tx e
      | None \<Rightarrow> insert_or_existing a b) t = Inr (c, s')"
    by (auto simp: create_conversation_tx_def find_by_user_pair_def bind_tx_Inr)
  have "t = s" using t by (auto simp: resolve_member_coach_def find_role_names_by_user_def bind_tx_Inr)
  show ?thesis
  proof (cases "fetch_by (pair_of a b) (conversations s)")
    case (Some e)
    then show ?thesis using rest \<open>t = s\<close> same by simp
  next
    case None
    then have ins: "insert_or_existing a b s = Inr (c, s')" using rest \<open>t = s\<close> by simp
    then show ?thesis
      using r(2) same opened by (auto simp: insert_or_existing_def find_by_user_pair_def bind_tx_Inr
          split: sum.splits sqlx_error.splits)
  qed
qed

lemma authorized:
  assumes "authorize_participant auth cid s = Inr (p, t)"
  obtains c where "t = s" "c \<in> set (conversations s)" "cv_id c = cid" "in_conversation (au_user_id auth) c"
  using assms that fetch_by_Some
  by (fastforce simp: authorize_participant_def find_participants_def bind_tx_Inr in_conversation_def)

text \<open>A message stamps its conversation and touches nothing else of it.\<close>

definition stamp :: "uuid \<Rightarrow> instant \<Rightarrow> conversation \<Rightarrow> conversation" where
  "stamp cid t c = (if cv_id c = cid then c\<lparr>cv_last_message_at := Some t\<rparr> else c)"

lemma stamp_simps [simp]:
  "cv_id (stamp cid t c) = cv_id c" "cv_member_id (stamp cid t c) = cv_member_id c"
  "cv_coach_id (stamp cid t c) = cv_coach_id c" "in_conversation u (stamp cid t c) = in_conversation u c"
  "pair_of a b (stamp cid t c) = pair_of a b c"
  by (simp_all add: stamp_def in_conversation_def pair_of_def)

lemma send_message_cases:
  assumes "send_message auth cid body s = (r, s')"
  obtains (refused) "s' = s"
  | (sent) c m where "c \<in> set (conversations s)" "cv_id c = cid" "in_conversation (au_user_id auth) c"
      "mg_conversation_id m = cid" "mg_sender_id m = au_user_id auth" "r = Inr m"
      "conversations s' = map (stamp cid (db_now s)) (conversations s)" "messages s' = messages s @ [m]"
proof -
  have "s' = s \<or> (\<exists>p t m u. authorize_participant auth cid s = Inr (p, t) \<and>
      insert_message_tx cid (au_user_id auth) body t = Inr (m, u) \<and> touch_last_message_at_tx cid u = Inr ((), s') \<and> r = Inr m)"
    using assms by (auto simp: send_message_def commit_tx_def bind_tx_Inr split: sum.splits)
  then show ?thesis
  proof (elim disjE exE conjE)
    fix p t m u
    assume a: "authorize_participant auth cid s = Inr (p, t)"
      and i: "insert_message_tx cid (au_user_id auth) body t = Inr (m, u)"
      and t: "touch_last_message_at_tx cid u = Inr ((), s')" and r: "r = Inr m"
    obtain c where c: "t = s" "c \<in> set (conversations s)" "cv_id c = cid" "in_conversation (au_user_id auth) c"
      using a by (rule authorized)
    have m: "mg_conversation_id m = cid" "mg_sender_id m = au_user_id auth" "messages u = messages s @ [m]"
      "conversations u = conversations s" "db_now u = db_now s"
      using i c(1) by (auto simp: insert_message_tx_def bind_tx_def Let_def split: if_splits)
    have "conversations s' = map (stamp cid (db_now s)) (conversations s)" "messages s' = messages s @ [m]"
      using t m by (auto simp: touch_last_message_at_tx_def update_where_def stamp_def)
    then show ?thesis using sent c m r by blast
  qed (rule refused)
qed

lemma mark_read_cases:
  assumes "mark_read auth cid s = (r, s')"
  obtains (refused) "s' = s" "isl r"
  | (marked) c where "c \<in> set (conversations s)" "cv_id c = cid" "in_conversation (au_user_id auth) c"
      "mark_read_rows cid (au_user_id auth) s = Inr (projr r, s')" "\<not> isl r"
proof (cases r)
  case (Inl e)
  then show ?thesis using assms refused by (auto simp: mark_read_def commit_tx_def split: sum.splits)
next
  case (Inr n)
  then obtain p t where "authorize_participant auth cid s = Inr (p, t)"
    "mark_read_rows cid (au_user_id auth) t = Inr (n, s')"
    using assms by (auto simp: mark_read_def commit_tx_def bind_tx_Inr split: sum.splits)
  then show ?thesis using marked Inr by (elim authorized) auto
qed


section \<open>Any run of the module\<close>

inductive talk_step :: "db \<Rightarrow> db \<Rightarrow> bool" where
  opened: "create_conversation auth target s = (r, s') \<Longrightarrow> talk_step s s'"
| sent: "send_message auth cid body s = (r, s') \<Longrightarrow> talk_step s s'"
| seen: "mark_read auth cid s = (r, s') \<Longrightarrow> talk_step s s'"
| elsewhere: "conversations s' = conversations s \<Longrightarrow> messages s' = messages s \<Longrightarrow> talk_step s s'"

inductive talk_reachable :: "db \<Rightarrow> bool" where
  empty: "conversations s = [] \<Longrightarrow> messages s = [] \<Longrightarrow> talk_reachable s"
| step: "talk_reachable s \<Longrightarrow> talk_step s s' \<Longrightarrow> talk_reachable s'"

lemma send_keeps_talk:
  assumes "send_message auth cid body s = (r, s')" "talk_ok s"
  shows "talk_ok s'"
  using assms(1)
proof (cases rule: send_message_cases)
  case refused
  then show ?thesis using assms(2) by simp
next
  case (sent c m)
  let ?f = "stamp cid (db_now s)"
  have convs: "set (conversations s') = ?f ` set (conversations s)" by (simp add: sent)
  have "one_per_pair (conversations s')"
    using assms(2) unfolding one_per_pair_def talk_ok_def convs by fastforce
  moreover have "\<exists>d \<in> set (conversations s'). cv_id d = mg_conversation_id x \<and> in_conversation (mg_sender_id x) d"
    if x: "x \<in> set (messages s')" for x
  proof -
    consider "x \<in> set (messages s)" | "x = m" using x sent(8) by auto
    then obtain d where "d \<in> set (conversations s)" "cv_id d = mg_conversation_id x" "in_conversation (mg_sender_id x) d"
      using assms(2) sent unfolding talk_ok_def by (cases; metis)
    then show ?thesis unfolding convs by (auto intro!: bexI [of _ d])
  qed
  moreover have "distinct (map cv_id (conversations s'))" "\<forall>c \<in> set (conversations s'). cv_member_id c \<noteq> cv_coach_id c"
    using assms(2) by (auto simp: talk_ok_def sent comp_def)
  ultimately show ?thesis by (simp add: talk_ok_def)
qed

lemma mark_keeps_talk:
  assumes "mark_read auth cid s = (r, s')" "talk_ok s"
  shows "talk_ok s'"
  using assms(1)
proof (cases rule: mark_read_cases)
  case refused
  then show ?thesis using assms(2) by simp
next
  case (marked c)
  let ?f = "\<lambda>m. m\<lparr>mg_read_at := Some (db_now s)\<rparr>"
  have rows: "conversations s' = conversations s"
    "messages s' = update_where (to_mark cid (au_user_id auth)) ?f (messages s)"
    using marked(4) by (auto simp: mark_read_rows_def)
  have "\<exists>y \<in> set (messages s). mg_conversation_id y = mg_conversation_id x \<and> mg_sender_id y = mg_sender_id x"
    if x: "x \<in> set (messages s')" for x
  proof -
    consider y where "y \<in> set (messages s)" "x = ?f y" | "x \<in> set (messages s)"
      using x unfolding rows(2) set_update_where by auto
    then show ?thesis by cases auto
  qed
  with rows(1) show ?thesis using assms(2) unfolding talk_ok_def by metis
qed

lemma talk_reachable_ok: "talk_reachable s \<Longrightarrow> talk_ok s"
proof (induction rule: talk_reachable.induct)
  case (empty s)
  then show ?case by (simp add: talk_ok_def one_per_pair_def)
next
  case (step s s')
  from step.hyps(2) show ?case
  proof cases
    case (opened auth target r)
    from opened(1) show ?thesis
      by (cases rule: create_conversation_cases) (use step.IH insert_keeps_talk in blast)+
  next
    case sent
    then show ?thesis using step.IH send_keeps_talk by blast
  next
    case seen
    then show ?thesis using step.IH mark_keeps_talk by blast
  next
    case elsewhere
    then show ?thesis using step.IH by (simp add: talk_ok_def)
  qed
qed

text \<open>
  C28. Two users share at most one conversation, whichever of them asks and however requests, messages
  and read marks interleave; nobody converses with themself, and every message lies in an existing
  conversation and was sent by one of its two participants.
\<close>

theorem one_conversation_per_pair:
  assumes "talk_reachable s"
  shows "length (filter (pair_of a b) (conversations s)) \<le> 1 \<and>
    list_all (\<lambda>c. cv_member_id c \<noteq> cv_coach_id c) (conversations s) \<and>
    list_all (\<lambda>m. list_ex (\<lambda>c. cv_id c = mg_conversation_id m \<and> in_conversation (mg_sender_id m) c)
      (conversations s)) (messages s)"
proof -
  have ok: "talk_ok s" using assms by (rule talk_reachable_ok)
  let ?t = "filter (pair_of a b) (conversations s)"
  have same: "c = d" if "c \<in> set ?t" "d \<in> set ?t" for c d
  proof -
    have "pair_of (cv_member_id d) (cv_coach_id d) c" using that by (auto simp: pair_of_def)
    then show ?thesis using that ok unfolding talk_ok_def one_per_pair_def by auto
  qed
  have "distinct ?t" using ok by (auto simp: talk_ok_def distinct_map)
  then have "length ?t = card (set ?t)" by (rule distinct_card [symmetric])
  also have "\<dots> \<le> 1" using same by (intro card_le_Suc0_iff_eq [THEN iffD2, unfolded One_nat_def [symmetric]]) auto
  finally have "length ?t \<le> 1" .
  then show ?thesis using ok by (auto simp: talk_ok_def list_all_iff list_ex_iff)
qed

text \<open>
  C29. Marking a conversation read settles exactly the caller's side: it answers how many of the peer's
  messages were unread, leaves none, lowers the caller's total by that number, and keeps what the
  peer has not read.
\<close>

theorem mark_read_settles:
  assumes "mark_read auth cid s = (Inr n, s')" "distinct (map cv_id (conversations s))"
  shows "n = int (count_where (to_mark cid (au_user_id auth)) (messages s)) \<and>
    count_where (to_mark cid (au_user_id auth)) (messages s') = 0 \<and>
    count_unread (au_user_id auth) s' = count_unread (au_user_id auth) s - n \<and>
    filter (\<lambda>m. mg_sender_id m = au_user_id auth) (messages s') =
      filter (\<lambda>m. mg_sender_id m = au_user_id auth) (messages s)"
  using assms(1)
proof (cases rule: mark_read_cases)
  case (marked c)
  let ?u = "au_user_id auth" and ?f = "\<lambda>m. m\<lparr>mg_read_at := Some (db_now s)\<rparr>"
  have n: "n = int (count_where (to_mark cid ?u) (messages s))" "conversations s' = conversations s"
    "messages s' = update_where (to_mark cid ?u) ?f (messages s)"
    using marked(4) by (auto simp: mark_read_rows_def)
  let ?mine = "\<lambda>m. list_ex (\<lambda>c. cv_id c = mg_conversation_id m \<and> in_conversation ?u c) (conversations s)"
  have mine: "?mine m" if "mg_conversation_id m = cid" for m using marked that by (auto simp: list_ex_iff)
  have none: "count_where (to_mark cid ?u) (update_where (to_mark cid ?u) ?f t) = 0" for t
    by (induction t) (auto simp: to_mark_def unread_for_def)
  have total: "count_where (\<lambda>m. unread_for ?u m \<and> ?mine m) (update_where (to_mark cid ?u) ?f t) +
      count_where (to_mark cid ?u) t = count_where (\<lambda>m. unread_for ?u m \<and> ?mine m) t" for t
    using mine by (induction t) (auto simp: to_mark_def unread_for_def)
  have own: "filter (\<lambda>m. mg_sender_id m = ?u) (update_where (to_mark cid ?u) ?f t) =
      filter (\<lambda>m. mg_sender_id m = ?u) t" for t
    by (induction t) (auto simp: to_mark_def unread_for_def)
  show ?thesis unfolding count_unread_def n using total [of "messages s"] by (simp add: none own)
qed (use assms in simp)

text \<open>A coach and a member talk: each asks once, one writes, the other reads.\<close>

definition talkers :: db where
  "talkers = empty_db\<lparr>users := [member 3 0, member 4 0], user_roles := [(3, ''member''), (4, ''coach'')]\<rparr>"

definition as_member :: auth_user where "as_member = \<lparr>au_user_id = 3, au_email = [], au_roles = [''member'']\<rparr>"
definition as_coach :: auth_user where "as_coach = \<lparr>au_user_id = 4, au_email = [], au_roles = [''coach'']\<rparr>"

definition talk_1 :: db where "talk_1 = snd (create_conversation as_member 4 talkers)"
definition talk_2 :: db where "talk_2 = snd (create_conversation as_coach 3 talk_1)"
definition talk_3 :: db where "talk_3 = snd (send_message as_coach 1000 ''hello'' talk_2)"
definition talk_4 :: db where "talk_4 = snd (mark_read as_member 1000 talk_3)"

lemma one_conversation_per_pair_witness:
  "length (filter (pair_of 3 4) (conversations talk_4)) = 1 \<and> map mg_body (messages talk_4) = [''hello'']"
proof -
  have "talk_reachable talkers" by (rule talk_reachable.empty) (simp_all add: talkers_def empty_db_def)
  moreover have "talk_step talkers talk_1" unfolding talk_1_def by (rule talk_step.opened [OF surjective_pairing])
  moreover have "talk_step talk_1 talk_2" unfolding talk_2_def by (rule talk_step.opened [OF surjective_pairing])
  moreover have "talk_step talk_2 talk_3" unfolding talk_3_def by (rule talk_step.sent [OF surjective_pairing])
  moreover have "talk_step talk_3 talk_4" unfolding talk_4_def by (rule talk_step.seen [OF surjective_pairing])
  ultimately have "talk_reachable talk_4" by (meson talk_reachable.step)
  note one = one_conversation_per_pair [OF this, of 3 4]
  have "filter (pair_of 3 4) (conversations talk_4) \<noteq> [] \<and> map mg_body (messages talk_4) = [''hello'']" by code_simp
  then show ?thesis using one by (cases "filter (pair_of 3 4) (conversations talk_4)") auto
qed

lemma mark_read_settles_witness:
  "count_unread 3 talk_3 = 1 \<and> count_unread 3 talk_4 = 0"
proof -
  have "fst (mark_read as_member 1000 talk_3) = Inr 1" by code_simp
  then have run: "mark_read as_member 1000 talk_3 = (Inr 1, talk_4)"
    by (cases "mark_read as_member 1000 talk_3") (simp add: talk_4_def)
  have "distinct (map cv_id (conversations talk_3))" "count_unread 3 talk_3 = 1" by code_simp+
  then show ?thesis using mark_read_settles [OF run] by (simp add: as_member_def)
qed

end
