(* ===== verification/Waiting.thy ===== *)
theory Waiting
  imports Seats Notices
begin

text \<open>
  The waitlist (\<open>src/modules/waitlist\<close>): joining the queue of a full course, leaving it, and the two
  lists. One waiting entry per member and course is a partial unique index; the theory relates the
  accepted requests of a run to the entries that wait.
\<close>

section \<open>Repository\<close>

definition waiting_on :: "uuid \<Rightarrow> uuid \<Rightarrow> waitlist_entry \<Rightarrow> bool" where
  "waiting_on uid cid w \<longleftrightarrow> w_user_id w = uid \<and> w_course_id w = cid \<and> w_status w = Wait_Waiting"

text \<open>The read projection: the entry with its course's name.\<close>

definition waitlist_view :: "db \<Rightarrow> waitlist_entry \<Rightarrow> (waitlist_entry \<times> string) option" where
  "waitlist_view s w = map_option (\<lambda>c. (w, c_name c)) (course_by_id (w_course_id w) s)"

definition exists_waiting :: "uuid \<Rightarrow> uuid \<Rightarrow> bool sql" where
  "exists_waiting uid cid = get_tx (\<lambda>s. list_ex (waiting_on uid cid) (waitlist s))"

definition insert_waiting :: "uuid \<Rightarrow> uuid \<Rightarrow> (waitlist_entry \<times> string) sql" where
  "insert_waiting uid cid = bind_tx fresh_uuid (\<lambda>i s.
    let row = \<lparr>w_id = i, w_user_id = uid, w_course_id = cid, w_status = Wait_Waiting, w_created_at = db_now s\<rparr>
    in if i \<in> w_id ` set (waitlist s) then Inl (UniqueViolation ''waitlist_entries_pkey'')
       else if list_ex (waiting_on uid cid) (waitlist s) then Inl (UniqueViolation ''uniq_waitlist_waiting'')
       else case waitlist_view s row of
          None \<Rightarrow> Inl RowNotFound
        | Some v \<Rightarrow> Inr (v, s\<lparr>waitlist := waitlist s @ [row]\<rparr>))"

definition waitlist_by_id_tx :: "uuid \<Rightarrow> waitlist_entry option sql" where
  "waitlist_by_id_tx i = get_tx (\<lambda>s. fetch_by (\<lambda>w. w_id w = i) (waitlist s))"

definition still_waiting :: "uuid \<Rightarrow> waitlist_entry \<Rightarrow> bool" where
  "still_waiting i w \<longleftrightarrow> w_id w = i \<and> w_status w = Wait_Waiting"

definition cancel_if_waiting_tx :: "uuid \<Rightarrow> waitlist_entry option sql" where
  "cancel_if_waiting_tx i = (\<lambda>s.
    let off = \<lambda>w. w\<lparr>w_status := Wait_Cancelled\<rparr>
    in Inr (map_option off (fetch_by (still_waiting i) (waitlist s)),
      s\<lparr>waitlist := update_where (still_waiting i) off (waitlist s)\<rparr>))"

definition find_by_user_with_course :: "uuid \<Rightarrow> (waitlist_entry \<times> string) list sql" where
  "find_by_user_with_course uid = get_tx (\<lambda>s. List.map_filter (waitlist_view s)
    (Notices.newest_first w_created_at (filter (\<lambda>w. w_user_id w = uid) (waitlist s))))"

definition find_by_course_waiting :: "uuid \<Rightarrow> (waitlist_entry \<times> string) list sql" where
  "find_by_course_waiting cid = get_tx (\<lambda>s. List.map_filter (waitlist_view s)
    (sort_key w_created_at (filter (\<lambda>w. w_course_id w = cid \<and> w_status w = Wait_Waiting) (waitlist s))))"

section \<open>Service\<close>

definition join_waitlist :: "uuid \<Rightarrow> uuid \<Rightarrow> (waitlist_entry \<times> string) handler" where
  "join_waitlist uid cid = commit_tx (
    bind_tx (get_tx (course_by_id cid)) (\<lambda>c.
    bind_tx (of_option_tx (NotFound ''course not found'') c) (\<lambda>course.
    bind_tx (of_result_tx (course_purchasable course)) (\<lambda>_.
    bind_tx (db_try (course_seats cid)) (\<lambda>r.
    bind_tx (of_option_tx (NotFound ''course not found'') r) (\<lambda>seats.
    bind_tx (ensure_tx (is_full seats) (Conflict ''course is not full'')) (\<lambda>_.
    bind_tx (db_try (exists_waiting uid cid)) (\<lambda>already.
    bind_tx (ensure_tx (\<not> already) (Conflict ''already on waitlist'')) (\<lambda>_.
    map_err_tx (conflict_on_unique ''already on waitlist'') (insert_waiting uid cid))))))))))"

definition list_my_waitlist :: "uuid \<Rightarrow> (waitlist_entry \<times> string) list app" where
  "list_my_waitlist uid = db_try (find_by_user_with_course uid)"

definition cancel_waitlist_entry :: "auth_user \<Rightarrow> uuid \<Rightarrow> unit handler" where
  "cancel_waitlist_entry auth i = commit_tx (
    bind_tx (db_try (waitlist_by_id_tx i)) (\<lambda>r.
    bind_tx (of_option_tx (NotFound ''waitlist entry not found'') r) (\<lambda>entry.
    bind_tx (of_result_tx (owns_or_admin auth (w_user_id entry) ''you can only cancel your own waitlist entries'')) (\<lambda>_.
    bind_tx (db_try (cancel_if_waiting_tx i)) (\<lambda>u.
    bind_tx (of_option_tx (NotFound ''waitlist entry not found'') u) (\<lambda>_. return_tx ()))))))"

definition list_for_course :: "uuid \<Rightarrow> (waitlist_entry \<times> string) list app" where
  "list_for_course cid = db_try (find_by_course_waiting cid)"

section \<open>Any run of the module\<close>

definition waiting_count :: "uuid \<Rightarrow> uuid \<Rightarrow> db \<Rightarrow> nat" where
  "waiting_count uid cid s = count_where (waiting_on uid cid) (waitlist s)"

definition queue_ok :: "db \<Rightarrow> bool" where
  "queue_ok s \<longleftrightarrow> distinct (map w_id (waitlist s)) \<and> (\<forall>uid cid. waiting_count uid cid s \<le> 1)"

datatype queue_event = Joined uuid uuid | Quit uuid uuid

inductive queue_step :: "db \<Rightarrow> queue_event list \<Rightarrow> db \<Rightarrow> bool" where
  joined: "join_waitlist uid cid s = (Inr r, s') \<Longrightarrow> queue_step s [Joined uid cid] s'"
| turned_away: "join_waitlist uid cid s = (Inl e, s') \<Longrightarrow> queue_step s [] s'"
| quit: "cancel_waitlist_entry auth i s = (Inr (), s') \<Longrightarrow> fetch_by (\<lambda>w. w_id w = i) (waitlist s) = Some w \<Longrightarrow>
    queue_step s [Quit (w_user_id w) (w_course_id w)] s'"
| stayed: "cancel_waitlist_entry auth i s = (Inl e, s') \<Longrightarrow> queue_step s [] s'"
| elsewhere: "waitlist s' = waitlist s \<Longrightarrow> queue_step s [] s'"

inductive queue_run :: "db \<Rightarrow> queue_event list \<Rightarrow> db \<Rightarrow> bool" where
  nothing: "queue_run s [] s"
| then_step: "queue_run s log t \<Longrightarrow> queue_step t ev s' \<Longrightarrow> queue_run s (log @ ev) s'"

lemma join_refused: "join_waitlist uid cid s = (Inl e, s') \<Longrightarrow> s' = s"
  by (auto simp: join_waitlist_def commit_tx_def split: sum.splits)

lemma cancel_refused: "cancel_waitlist_entry auth i s = (Inl e, s') \<Longrightarrow> s' = s"
  by (auto simp: cancel_waitlist_entry_def commit_tx_def split: sum.splits)

text \<open>An accepted join found the course active and full, and the member not waiting for it.\<close>

lemma join_accepted:
  assumes "join_waitlist uid cid s = (Inr r, s')"
  obtains w c where "waitlist s' = waitlist s @ [w]" "w_user_id w = uid" "w_course_id w = cid"
    "w_status w = Wait_Waiting" "w_id w \<notin> w_id ` set (waitlist s)" "waiting_count uid cid s = 0"
    "course_by_id cid s = Some c" "c_is_active c" "c_max_students c \<le> active_count cid s"
  using assms that
  by (auto simp: join_waitlist_def commit_tx_def bind_tx_Inr course_seats_def exists_waiting_def insert_waiting_def
      bind_tx_def Let_def course_purchasable_def is_full_def waiting_count_def count_where_def filter_empty_conv
      list_ex_iff split: sum.splits if_splits option.splits)

lemma cancel_accepted:
  assumes "cancel_waitlist_entry auth i s = (Inr (), s')"
  obtains w where "fetch_by (\<lambda>w. w_id w = i) (waitlist s) = Some w" "fetch_by (still_waiting i) (waitlist s) \<noteq> None"
    "waitlist s' = update_where (still_waiting i) (\<lambda>w. w\<lparr>w_status := Wait_Cancelled\<rparr>) (waitlist s)"
  using assms that
  by (auto simp: cancel_waitlist_entry_def commit_tx_def bind_tx_Inr waitlist_by_id_tx_def cancel_if_waiting_tx_def
      Let_def split: sum.splits)

lemma waiting_after_cancel:
  assumes "distinct (map w_id t)" "fetch_by (still_waiting i) t = Some w"
  shows "count_where (waiting_on u c) (update_where (still_waiting i) (\<lambda>w. w\<lparr>w_status := Wait_Cancelled\<rparr>) t) +
    of_bool (w_user_id w = u \<and> w_course_id w = c) = count_where (waiting_on u c) t"
  using assms
proof (induction t)
  case (Cons x t)
  show ?case
  proof (cases "still_waiting i x")
    case True
    have "\<not> still_waiting i y" if "y \<in> set t" for y
    proof
      assume "still_waiting i y"
      then have "w_id x \<in> set (map w_id t)" using that True by (auto simp: still_waiting_def image_iff)
      then show False using Cons.prems(1) by simp
    qed
    then have "update_where (still_waiting i) (\<lambda>w. w\<lparr>w_status := Wait_Cancelled\<rparr>) t = t" by (rule update_where_none)
    then have "update_where (still_waiting i) (\<lambda>w. w\<lparr>w_status := Wait_Cancelled\<rparr>) (x # t) =
        x\<lparr>w_status := Wait_Cancelled\<rparr> # t" "x = w" "w_status x = Wait_Waiting"
      using True Cons.prems(2) by (simp_all add: still_waiting_def)
    then show ?thesis by (simp add: waiting_on_def)
  next
    case False
    then show ?thesis using Cons by simp
  qed
qed simp

lemma queue_step_effect:
  assumes "queue_step s ev s'" "queue_ok s"
  shows "queue_ok s' \<and> count_list ev (Joined u c) + waiting_count u c s = count_list ev (Quit u c) + waiting_count u c s'"
  using assms(1)
proof cases
  case (joined uid cid r)
  obtain w c' where w: "waitlist s' = waitlist s @ [w]" "w_user_id w = uid" "w_course_id w = cid"
    "w_status w = Wait_Waiting" "w_id w \<notin> w_id ` set (waitlist s)" "waiting_count uid cid s = 0"
    "course_by_id cid s = Some c'" "c_is_active c'" "c_max_students c' \<le> active_count cid s"
    using joined(2) by (rule join_accepted)
  have count: "waiting_count a b s' = waiting_count a b s + of_bool (uid = a \<and> cid = b)" for a b
    using w by (auto simp: waiting_count_def waiting_on_def)
  have "waiting_count a b s' \<le> 1" for a b
    using assms(2) w(6) by (cases "uid = a \<and> cid = b") (auto simp: queue_ok_def count)
  then show ?thesis using assms(2) w(1,5) joined(1) count [of u c] by (auto simp: queue_ok_def)
next
  case (quit auth i w)
  obtain w\<^sub>0 where "fetch_by (\<lambda>w. w_id w = i) (waitlist s) = Some w\<^sub>0" "fetch_by (still_waiting i) (waitlist s) \<noteq> None"
    and s': "waitlist s' = update_where (still_waiting i) (\<lambda>w. w\<lparr>w_status := Wait_Cancelled\<rparr>) (waitlist s)"
    using quit(2) by (rule cancel_accepted)
  then obtain v where v: "fetch_by (still_waiting i) (waitlist s) = Some v" by auto
  have "w_id v = i" "v \<in> set (waitlist s)" "w_id w = i" "w \<in> set (waitlist s)"
    using fetch_by_Some [OF v] fetch_by_Some [OF quit(3)] by (auto simp: still_waiting_def)
  then have "v = w" using assms(2) by (auto simp: queue_ok_def distinct_map inj_on_def)
  have dist: "distinct (map w_id (waitlist s))" using assms(2) by (simp add: queue_ok_def)
  have count: "waiting_count a b s' + of_bool (w_user_id w = a \<and> w_course_id w = b) = waiting_count a b s" for a b
    using waiting_after_cancel [OF dist v, of a b] unfolding waiting_count_def s' \<open>v = w\<close> .
  have "waiting_count a b s' \<le> 1" for a b
    using assms(2) count [of a b] unfolding queue_ok_def by (metis add_leE)
  moreover have "map w_id (waitlist s') = map w_id (waitlist s)" unfolding s' by (rule map_update_where) simp
  ultimately show ?thesis using dist quit(1) count [of u c] by (auto simp: queue_ok_def)
next
  case turned_away
  then show ?thesis using join_refused [OF turned_away(2)] assms(2) by simp
next
  case stayed
  then show ?thesis using cancel_refused [OF stayed(2)] assms(2) by simp
next
  case elsewhere
  then show ?thesis using assms(2) by (simp add: queue_ok_def waiting_count_def)
qed

text \<open>
  C27. A member waits for a course at most once: over any run from an empty waitlist the accepted joins of
  a member for a course are the accepted cancellations plus the entry that waits, if one does.
\<close>

theorem waitlist_invariant:
  assumes "queue_run s log s'" "waitlist s = []"
  shows "waiting_count u c s' \<le> 1 \<and> count_list log (Joined u c) = count_list log (Quit u c) + waiting_count u c s'"
proof -
  have "queue_ok s' \<and> count_list log (Joined u c) = count_list log (Quit u c) + waiting_count u c s'"
    using assms
  proof (induction rule: queue_run.induct)
    case (nothing s)
    then show ?case by (simp add: queue_ok_def waiting_count_def)
  next
    case (then_step s log t ev s')
    then show ?case using queue_step_effect [OF then_step.hyps(2), of u c] by simp
  qed
  then show ?thesis by (simp add: queue_ok_def)
qed

definition full_course :: course where
  "full_course = \<lparr>c_id = 10, c_name = ''Ballet'', c_slug = ''ballet'', c_level = CL_Beginner, c_description = None,
     c_duration_minutes = 60, c_price_cents = 100, c_max_students = 0, c_min_age = None, c_max_age = None,
     c_features = [], c_is_active = True, c_coach_id = None, c_category = None, c_schedule_text = None,
     c_is_highlighted = False, c_created_at = 0\<rparr>"

definition full_house :: db where "full_house = empty_db\<lparr>courses := [full_course]\<rparr>"
definition queued :: db where "queued = snd (join_waitlist 3 10 full_house)"

lemma waitlist_invariant_witness:
  "waiting_count 3 10 queued = 1 \<and> (\<exists>e. fst (join_waitlist 3 10 queued) = Inl e)"
proof -
  have "\<not> isl (fst (join_waitlist 3 10 full_house)) \<and> isl (fst (join_waitlist 3 10 queued))" by code_simp
  then obtain r e where run: "join_waitlist 3 10 full_house = (Inr r, queued)" and again: "fst (join_waitlist 3 10 queued) = Inl e"
    by (cases "join_waitlist 3 10 full_house"; cases "fst (join_waitlist 3 10 full_house)")
      (auto simp: queued_def isl_def)
  have "waitlist full_house = []" by (simp add: full_house_def empty_db_def)
  from waitlist_invariant [OF queue_run.then_step [OF queue_run.nothing queue_step.joined [OF run]] this, of 3 10]
  show ?thesis using again by simp
qed

end
