(* ===== verification/Spec2Isabelle.thy ===== *)
theory Spec2Isabelle
  imports Refunds Guards Consumer Rentals Accounts Roster Rewards Messages Waiting
begin

text \<open>
  The order, points, catalogue and messaging core of the studio backend.
\<close>

end
